theory Spec2Isabelle
  imports Complex_Main
begin

section \<open>The particle simulation of src/index.tsx\<close>

text \<open>
  A shallow embedding of the simulation core of \<^verbatim>\<open>src/index.tsx\<close>: the module's
  mutable globals become one record that every function takes and returns, typed arrays
  become stores (functions from an index to a value), loops become recursion over the
  index range, and what the frame reads from its environment (the pointer ray, the audio
  frequency data, the results of \<^verbatim>\<open>Math.random()\<close>) is a parameter.

  JavaScript numbers are modelled as mathematical reals: the rounding and overflow of
  IEEE arithmetic are outside this model, and so are NaN and the infinities, except
  where a division by zero produces them (the interaction plane, below). The last
  subsections add the infinities and NaN as values, write the frame on them, and give
  the rounding of doubles and of a \<^verbatim>\<open>Float32Array\<close> for the velocity update. Integer
  quantities (particle indices, cell coordinates, list links) are \<open>nat\<close> and \<open>int\<close>.
  The renderer, the DOM and three.js objects are not modelled; of three.js only
  \<^verbatim>\<open>MathUtils.lerp\<close> is used by the core, and it is written out below.
\<close>

subsection \<open>Configuration\<close>

definition PARTICLE_COUNT :: nat where
  "PARTICLE_COUNT = 25000"

definition COLLISION_RADIUS :: real where
  "COLLISION_RADIUS = 0.15"

definition GRID_DIM :: int where
  "GRID_DIM = 60"

definition GRID_OFFSET :: real where
  "GRID_OFFSET = 30"

definition CELL_SIZE :: real where
  "CELL_SIZE = 1.0"

subsection \<open>State\<close>

text \<open>
  The module-level \<^verbatim>\<open>let\<close> and \<^verbatim>\<open>const\<close> bindings that the simulation reads or
  writes. \<open>positions\<close> is \<^verbatim>\<open>geometry.attributes.position.array\<close> and \<open>velocities\<close> the
  array of that name, both flat with three slots per particle; \<open>gridHead\<close> is indexed by
  the cell index and \<open>gridNext\<close> by the particle, and both hold a particle index or -1.
  \<open>randomCalls\<close> counts the calls of \<^verbatim>\<open>Math.random()\<close> made so far, so that the
  k-th call returns the k-th element of the sequence the environment supplies.
\<close>

record sim =
  time :: real
  shockwave :: real
  bassFactor :: real
  currentScale :: real
  targetScale :: real
  targetRotation :: "real \<times> real"
  isHandDetected :: bool
  currentShape :: string
  baseColor :: string
  isPinching :: bool
  pinchTriggered :: bool
  physicsEnabled :: bool
  mouse :: "real \<times> real"
  positions :: "nat \<Rightarrow> real"
  velocities :: "nat \<Rightarrow> real"
  gridHead :: "int \<Rightarrow> int"
  gridNext :: "nat \<Rightarrow> int"
  randomCalls :: nat

text \<open>\<^verbatim>\<open>THREE.MathUtils.lerp(x, y, t)\<close>.\<close>

definition lerp :: "real \<Rightarrow> real \<Rightarrow> real \<Rightarrow> real" where
  "lerp x y t = (1 - t) * x + t * y"

subsection \<open>Audio analysis\<close>

text \<open>
  \<^verbatim>\<open>updateAudioAnalysis\<close>. The argument is \<open>None\<close> when the guard
  \<^verbatim>\<open>!isAudioActive || !analyser || !dataArray\<close> holds, and otherwise the bytes that
  \<^verbatim>\<open>getByteFrequencyData\<close> wrote into \<^verbatim>\<open>dataArray\<close>. The mid and high sums only
  drive the visualiser bars and are left out.
\<close>

definition lowAvg :: "nat list \<Rightarrow> real" where
  "lowAvg dataArray =
     (let bufferLength = length dataArray;
          lowCount = nat \<lfloor>real bufferLength * 0.1\<rfloor>;
          lowSum = sum_list (take lowCount dataArray)
      in if lowCount > 0 then real lowSum / real lowCount else 0)"

definition updateAudioAnalysis :: "nat list option \<Rightarrow> sim \<Rightarrow> sim" where
  "updateAudioAnalysis audio s =
     (case audio of
        None \<Rightarrow> s\<lparr>bassFactor := bassFactor s * 0.95\<rparr>
      | Some dataArray \<Rightarrow>
          (let targetBass = lowAvg dataArray / 255.0;
               s1 = s\<lparr>bassFactor := lerp (bassFactor s) targetBass 0.3\<rparr>
           in if bassFactor s1 > 0.8
              then s1\<lparr>shockwave := min (shockwave s1 + 0.1) 2.0\<rparr>
              else s1))"

subsection \<open>Click / pinch detection\<close>

text \<open>
  The block \<^verbatim>\<open>if (currentShape === 'earth' && isHandDetected)\<close> of \<^verbatim>\<open>animate\<close>.
  \<open>hit\<close> is the outcome of the test \<^verbatim>\<open>delta > 0\<close>. The second component of the result
  is the call of \<^verbatim>\<open>showHackerData(mouse.x, mouse.y)\<close>, the acquisition event, when the
  frame makes one.
\<close>

definition pinchDetection :: "bool \<Rightarrow> sim \<Rightarrow> sim \<times> (real \<times> real) option" where
  "pinchDetection hit s =
     (if currentShape s = ''earth'' \<and> isHandDetected s then
        (if hit then
           (if isPinching s then
              (if \<not> pinchTriggered s
               then (s\<lparr>pinchTriggered := True, shockwave := 0.5\<rparr>, Some (mouse s))
               else (s, None))
            else (s\<lparr>pinchTriggered := False\<rparr>, None))
         else (s\<lparr>pinchTriggered := False\<rparr>, None))
      else (s, None))"

text \<open>
  A scripted run of the latch: each frame supplies the hit test's outcome and the
  activation signal \<^verbatim>\<open>isPinching\<close> (which the hand-tracking callback writes between
  frames), and the run collects what each frame emitted.
\<close>

fun pinchRun :: "(bool \<times> bool) list \<Rightarrow> sim \<Rightarrow> (real \<times> real) option list" where
  "pinchRun [] s = []"
| "pinchRun ((hit, pinch) # fs) s =
     (let (s', ev) = pinchDetection hit (s\<lparr>isPinching := pinch\<rparr>)
      in ev # pinchRun fs s')"

definition eventCount :: "(real \<times> real) option list \<Rightarrow> nat" where
  "eventCount evs = length (filter (\<lambda>e. e \<noteq> None) evs)"

text \<open>The state a scripted run ends in.\<close>

fun pinchFinal :: "(bool \<times> bool) list \<Rightarrow> sim \<Rightarrow> sim" where
  "pinchFinal [] s = s"
| "pinchFinal ((hit, pinch) # fs) s =
     pinchFinal fs (fst (pinchDetection hit (s\<lparr>isPinching := pinch\<rparr>)))"

text \<open>The values the module's initialisers give the globals.\<close>

definition initialState :: sim where
  "initialState =
     \<lparr>time = 0, shockwave = 0, bassFactor = 0, currentScale = 1.0, targetScale = 1.0,
      targetRotation = (0, 0), isHandDetected = False, currentShape = ''earth'',
      baseColor = ''#00f3ff'', isPinching = False, pinchTriggered = False,
      physicsEnabled = True, mouse = (-9999, -9999), positions = (\<lambda>k. 0),
      velocities = (\<lambda>k. 0), gridHead = (\<lambda>c. 0), gridNext = (\<lambda>p. 0), randomCalls = 0\<rparr>"

subsection \<open>Hand tracking\<close>

text \<open>\<^verbatim>\<open>THREE.MathUtils.mapLinear(x, a1, a2, b1, b2)\<close>.\<close>

definition mapLinear :: "real \<Rightarrow> real \<Rightarrow> real \<Rightarrow> real \<Rightarrow> real \<Rightarrow> real" where
  "mapLinear x a1 a2 b1 b2 = b1 + (x - a1) * (b2 - b1) / (a2 - a1)"

text \<open>
  The callback that \<^verbatim>\<open>initMediaPipe\<close> passes to \<^verbatim>\<open>hands.onResults\<close>, applied to
  \<^verbatim>\<open>results.multiHandLandmarks\<close>: the list of the hands in view, each a function from
  the landmark's number to its \<open>x\<close> and \<open>y\<close> (an absent list counts as the empty one, both
  being falsy). The pair \<open>targetRotation\<close> is \<open>(x, y)\<close>. The tracking dot and the status
  text belong to the DOM and are left out.
\<close>

type_synonym hand = "nat \<Rightarrow> real \<times> real"

definition onResults :: "hand list \<Rightarrow> sim \<Rightarrow> sim" where
  "onResults multiHandLandmarks s =
     (let s0 = s\<lparr>isHandDetected := (length multiHandLandmarks > 0)\<rparr> in
      if isHandDetected s0 then
        (let hand = multiHandLandmarks ! 0;
             s1 = (if currentShape s0 = ''earth'' then
                     (let indexTip = hand 8;
                          cursorX = (1 - fst indexTip) * 2 - 1;
                          cursorY = - (snd indexTip) * 2 + 1;
                          thumb = hand 4;
                          dist = sqrt ((fst thumb - fst indexTip)\<^sup>2 + (snd thumb - snd indexTip)\<^sup>2)
                      in s0\<lparr>mouse := (cursorX, cursorY), isPinching := (dist < 0.05)\<rparr>)
                   else
                     (let centerX = fst (hand 9);
                          centerY = snd (hand 9);
                          navX = (centerX - 0.5) * 2;
                          navY = (centerY - 0.5) * 2
                      in s0\<lparr>targetRotation := (navY * 1.5, navX * 1.5), mouse := (-999, -999)\<rparr>))
         in if length multiHandLandmarks = 2 then
              (let h1 = (multiHandLandmarks ! 0) 8;
                   h2 = (multiHandLandmarks ! 1) 8;
                   dx = fst h1 - fst h2;
                   dy = snd h1 - snd h2;
                   distance = sqrt (dx * dx + dy * dy)
               in s1\<lparr>targetScale := mapLinear distance 0.1 0.8 0.5 4.0\<rparr>)
            else s1)
      else s0\<lparr>targetRotation := (0, 0), isPinching := False\<rparr>)"

text \<open>
  A run of the page as far as the latch goes: a sequence of tracking results and
  frames, in the order in which the (single-threaded) page handles them. Of a frame the
  run keeps the click block, given the outcome of its hit test; the rest of the frame
  writes none of the fields that the block and the callback read. The run collects what
  each frame emitted.
\<close>

datatype step = Tracking "hand list" | Frame bool

fun latchRun :: "step list \<Rightarrow> sim \<Rightarrow> (real \<times> real) option list" where
  "latchRun [] s = []"
| "latchRun (Tracking hands # steps) s = latchRun steps (onResults hands s)"
| "latchRun (Frame hit # steps) s =
     (let (s', ev) = pinchDetection hit s in ev # latchRun steps s')"

text \<open>The state such a run ends in.\<close>

fun latchFinal :: "step list \<Rightarrow> sim \<Rightarrow> sim" where
  "latchFinal [] s = s"
| "latchFinal (Tracking hands # steps) s = latchFinal steps (onResults hands s)"
| "latchFinal (Frame hit # steps) s = latchFinal steps (fst (pinchDetection hit s))"

text \<open>
  Example input: a hand in the middle of the view whose thumb tip touches the tip of
  its index finger.
\<close>

definition pinchedHand :: hand where
  "pinchedHand = (\<lambda>k. (1/2, 1/2))"

subsection \<open>Shape selection\<close>

text \<open>
  The \<^verbatim>\<open>change\<close> listener that \<^verbatim>\<open>setupUI\<close> installs on the shape selector, applied
  to the requested name \<^verbatim>\<open>e.target.value\<close>. The colour picker's DOM value is not part
  of the state.
\<close>

definition shapeChange :: "string \<Rightarrow> sim \<Rightarrow> sim" where
  "shapeChange v s =
     (let s1 = s\<lparr>currentShape := v, targetRotation := (0, 0)\<rparr>
      in if currentShape s1 = ''earth'' then s1\<lparr>baseColor := ''#00aaff''\<rparr> else s1)"

text \<open>The names under which \<^verbatim>\<open>generateShapes\<close> stores a target array.\<close>

definition shapeNames :: "string list" where
  "shapeNames = [''earth'', ''heart'', ''flower'', ''saturn'', ''buddha'', ''galaxy'',
                 ''dna'', ''cube'', ''mobius'']"

text \<open>
  The names that the plain object \<^verbatim>\<open>targets\<close> inherits from \<^verbatim>\<open>Object.prototype\<close>.
  Under each of them a lookup finds a function or an object, which is truthy and is not
  an array.
\<close>

definition objectPrototypeNames :: "string list" where
  "objectPrototypeNames =
     [''constructor'', ''hasOwnProperty'', ''isPrototypeOf'', ''propertyIsEnumerable'',
      ''toLocaleString'', ''toString'', ''valueOf'', ''__proto__'', ''__defineGetter__'',
      ''__defineSetter__'', ''__lookupGetter__'', ''__lookupSetter__'']"

text \<open>
  \<^verbatim>\<open>targets[currentShape] || targets.heart\<close>. The table of target arrays is given by
  its own entries, a map from the names that were assigned to the arrays. An own entry
  is the result; an inherited name finds a value that is truthy, so the fallback is not
  taken; any other name falls back to the heart. The result is \<open>None\<close> when it is not an
  array: the inherited value, whose every slot reads as \<^verbatim>\<open>undefined\<close>, or the
  \<^verbatim>\<open>undefined\<close> of a table without a heart.
\<close>

definition targetPositionsOf :: "(string \<rightharpoonup> (nat \<Rightarrow> real)) \<Rightarrow> string \<Rightarrow> (nat \<Rightarrow> real) option" where
  "targetPositionsOf targets shape =
     (case targets shape of
        Some arr \<Rightarrow> Some arr
      | None \<Rightarrow> if shape \<in> set objectPrototypeNames then None else targets ''heart'')"

subsection \<open>The interaction plane and the ray-sphere test\<close>

text \<open>
  \<^verbatim>\<open>distanceToPlane = (0 - origin.z) / direction.z\<close>, then
  \<^verbatim>\<open>direction.multiplyScalar(distanceToPlane)\<close>, which scales the ray's direction in
  place, and \<^verbatim>\<open>interactPoint = origin + direction\<close>. The result is the scaled
  direction and the interaction point. For a direction with \<open>z = 0\<close> the quotient is an
  infinity or NaN in JavaScript and no component of the two vectors is a finite number;
  that case is the result \<open>None\<close>.
\<close>

type_synonym vec3 = "real \<times> real \<times> real"

definition interactionPlane :: "vec3 \<Rightarrow> vec3 \<Rightarrow> (vec3 \<times> vec3) option" where
  "interactionPlane origin direction =
     (case (origin, direction) of
        ((ox, oy, oz), (dx, dy, dz)) \<Rightarrow>
          if dz = 0 then None
          else (let distanceToPlane = (0 - oz) / dz;
                    sx = dx * distanceToPlane; sy = dy * distanceToPlane;
                    sz = dz * distanceToPlane
                in Some ((sx, sy, sz), (ox + sx, oy + sy, oz + sz))))"

text \<open>
  The test \<^verbatim>\<open>delta > 0\<close> of the click block, on the ray's origin and its (scaled)
  direction; with a direction that is not finite \<^verbatim>\<open>delta\<close> is NaN and the test fails.
\<close>

definition sphereHit :: "real \<Rightarrow> vec3 \<Rightarrow> vec3 option \<Rightarrow> bool" where
  "sphereHit effectiveScale rayOrigin rayDir =
     (case rayDir of
        None \<Rightarrow> False
      | Some (rx, ry, rz) \<Rightarrow>
          (case rayOrigin of
             (ox, oy, oz) \<Rightarrow>
               (let sphereRadius = 14 * effectiveScale;
                    b = 2 * (rx * ox + ry * oy + rz * oz);
                    c = (ox * ox + oy * oy + oz * oz) - sphereRadius * sphereRadius;
                    delta = b * b - 4 * c
                in delta > 0)))"

subsection \<open>The particle physics loop\<close>

text \<open>\<^verbatim>\<open>Math.atan2(y, x)\<close> on real arguments.\<close>

definition atan2 :: "real \<Rightarrow> real \<Rightarrow> real" where
  "atan2 y x =
     (if x > 0 then arctan (y / x)
      else if x < 0 then (if y \<ge> 0 then arctan (y / x) + pi else arctan (y / x) - pi)
      else if y > 0 then pi / 2
      else if y < 0 then - (pi / 2)
      else 0)"

text \<open>
  The scanning effect: in earth mode a particle within 1.0 of the scan height gets two
  random offsets on its target. The result is the target's x and z and the number of
  \<^verbatim>\<open>Math.random()\<close> calls made so far.
\<close>

definition scanJitter :: "(nat \<Rightarrow> real) \<Rightarrow> real \<Rightarrow> real \<Rightarrow> real \<Rightarrow> real \<Rightarrow> sim \<Rightarrow> real \<times> real \<times> nat" where
  "scanJitter rnd effectiveScale py tx tz s =
     (let c = randomCalls s in
      if currentShape s = ''earth'' then
        (let scanH = sin (time s * 2) * 15 * effectiveScale in
         if \<bar>py - scanH\<bar> < 1.0
         then (tx + (rnd c - 0.5) * 0.5, tz + (rnd (c + 1) - 0.5) * 0.5, c + 2)
         else (tx, tz, c))
      else (tx, tz, c))"

text \<open>A. Spring force, one component.\<close>

definition springForce :: "real \<Rightarrow> real \<Rightarrow> real" where
  "springForce t p = (t - p) * 0.03"

text \<open>
  B. Mouse repulsion, from the particle's offset \<open>(dx, dy)\<close> to the interaction point.
\<close>

definition mouseRepulsion :: "string \<Rightarrow> real \<Rightarrow> real \<Rightarrow> real \<Rightarrow> vec3" where
  "mouseRepulsion shape mouseX dx dy =
     (let distSq = dx * dx + dy * dy in
      if shape \<noteq> ''earth'' \<and> distSq < 150 \<and> mouseX > -100 then
        (let dist = sqrt distSq;
             force = (12 - dist) / 12
         in if force > 0 then
              (let angle = atan2 dy dx;
                   strength = 1.2 * force
               in (cos angle * strength, sin angle * strength, 0))
            else (0, 0, 0))
      else (0, 0, 0))"

text \<open>
  The pointer force on a particle at \<open>(px, py)\<close>. With an interaction point that is not
  finite (\<open>None\<close>) the offsets are not finite either, \<^verbatim>\<open>distSq < 150\<close> is false and
  the three components keep their initial zeros.
\<close>

definition pointerForce :: "string \<Rightarrow> real \<Rightarrow> vec3 option \<Rightarrow> real \<Rightarrow> real \<Rightarrow> vec3" where
  "pointerForce shape mouseX interactPoint px py =
     (case interactPoint of
        None \<Rightarrow> (0, 0, 0)
      | Some (ix, iy, iz) \<Rightarrow> mouseRepulsion shape mouseX (px - ix) (py - iy))"

text \<open>C. Audio jitter, with the number of \<^verbatim>\<open>Math.random()\<close> calls made so far.\<close>

definition audioJitter :: "(nat \<Rightarrow> real) \<Rightarrow> real \<Rightarrow> nat \<Rightarrow> vec3 \<times> nat" where
  "audioJitter rnd shock c =
     (if shock > 0.1
      then (((rnd c - 0.5) * shock * 2, (rnd (c + 1) - 0.5) * shock * 2,
             (rnd (c + 2) - 0.5) * shock * 2), c + 3)
      else ((0, 0, 0), c))"

text \<open>
  One component of the velocity update, \<^verbatim>\<open>v += f + r + a; v *= 0.92\<close>, on the reals:
  the value that the two statements compute before any rounding. \<^verbatim>\<open>velocities\<close> is a
  \<^verbatim>\<open>Float32Array\<close>, so the program rounds each of the two stores to a float32, and each
  operation to a double before that; \<open>dampedVelocity32\<close>, in the last subsection, is the
  update with these roundings.
\<close>

definition dampedVelocity :: "real \<Rightarrow> real \<Rightarrow> real \<Rightarrow> real \<Rightarrow> real" where
  "dampedVelocity v f r a = (v + (f + r + a)) * 0.92"

text \<open>Cell coordinates and the cell index.\<close>

definition gridCoord :: "real \<Rightarrow> int" where
  "gridCoord p = \<lfloor>(p + GRID_OFFSET) / CELL_SIZE\<rfloor>"

definition inGrid :: "int \<Rightarrow> int \<Rightarrow> int \<Rightarrow> bool" where
  "inGrid gx gy gz =
     (gx \<ge> 0 \<and> gx < GRID_DIM \<and> gy \<ge> 0 \<and> gy < GRID_DIM \<and> gz \<ge> 0 \<and> gz < GRID_DIM)"

definition cellIndexOf :: "int \<Rightarrow> int \<Rightarrow> int \<Rightarrow> int" where
  "cellIndexOf gx gy gz = gx + gy * GRID_DIM + gz * GRID_DIM * GRID_DIM"

text \<open>
  The cell of particle \<open>i\<close> under the positions \<open>pos\<close>: its index when the three
  coordinates pass the range test, \<open>None\<close> otherwise.
\<close>

definition particleCell :: "(nat \<Rightarrow> real) \<Rightarrow> nat \<Rightarrow> int option" where
  "particleCell pos i =
     (let i3 = i * 3;
          gx = gridCoord (pos i3);
          gy = gridCoord (pos (i3 + 1));
          gz = gridCoord (pos (i3 + 2))
      in if inGrid gx gy gz then Some (cellIndexOf gx gy gz) else None)"

text \<open>Spatial grid insert of particle \<open>i\<close> at its current position.\<close>

definition gridInsert :: "nat \<Rightarrow> sim \<Rightarrow> sim" where
  "gridInsert i s =
     (case particleCell (positions s) i of
        Some cellIndex \<Rightarrow>
          s\<lparr>gridNext := (gridNext s)(i := gridHead s cellIndex),
            gridHead := (gridHead s)(cellIndex := int i)\<rparr>
      | None \<Rightarrow> s\<lparr>gridNext := (gridNext s)(i := -1)\<rparr>)"

text \<open>
  The force contributions on particle \<open>i\<close>, in the order the loop body computes them:
  spring force, pointer force and audio jitter, and the number of \<^verbatim>\<open>Math.random()\<close>
  calls made so far.
\<close>

definition particleForces ::
  "(nat \<Rightarrow> real) \<Rightarrow> real \<Rightarrow> vec3 option \<Rightarrow> (nat \<Rightarrow> real) \<Rightarrow> nat \<Rightarrow> sim \<Rightarrow> vec3 \<times> vec3 \<times> vec3 \<times> nat" where
  "particleForces targetPositions effectiveScale interactPoint rnd i s =
     (let i3 = i * 3;
          px = positions s i3;
          py = positions s (i3 + 1);
          pz = positions s (i3 + 2);
          ty = targetPositions (i3 + 1) * effectiveScale;
          (tx, tz, c1) = scanJitter rnd effectiveScale py
                           (targetPositions i3 * effectiveScale)
                           (targetPositions (i3 + 2) * effectiveScale) s;
          fx = springForce tx px;
          fy = springForce ty py;
          fz = springForce tz pz;
          r = pointerForce (currentShape s) (fst (mouse s)) interactPoint px py;
          (a, c2) = audioJitter rnd (shockwave s) c1
      in ((fx, fy, fz), r, a, c2))"

text \<open>The body of the particle loop for particle \<open>i\<close>.\<close>

definition particleStep ::
  "(nat \<Rightarrow> real) \<Rightarrow> real \<Rightarrow> vec3 option \<Rightarrow> (nat \<Rightarrow> real) \<Rightarrow> nat \<Rightarrow> sim \<Rightarrow> sim" where
  "particleStep targetPositions effectiveScale interactPoint rnd i s =
     (let i3 = i * 3;
          px = positions s i3;
          py = positions s (i3 + 1);
          pz = positions s (i3 + 2);
          ((fx, fy, fz), (rx, ry, rz), (ax, ay, az), c) =
            particleForces targetPositions effectiveScale interactPoint rnd i s;
          vx = dampedVelocity (velocities s i3) fx rx ax;
          vy = dampedVelocity (velocities s (i3 + 1)) fy ry ay;
          vz = dampedVelocity (velocities s (i3 + 2)) fz rz az;
          s1 = s\<lparr>velocities := (velocities s)(i3 := vx, i3 + 1 := vy, i3 + 2 := vz),
                 positions := (positions s)(i3 := px + vx, i3 + 1 := py + vy, i3 + 2 := pz + vz),
                 randomCalls := c\<rparr>
      in if physicsEnabled s1 then gridInsert i s1 else s1)"

text \<open>\<^verbatim>\<open>for (let i = 0; i < PARTICLE_COUNT; i++)\<close>, for a particle count of \<open>n\<close>.\<close>

definition particleLoop ::
  "nat \<Rightarrow> (nat \<Rightarrow> real) \<Rightarrow> real \<Rightarrow> vec3 option \<Rightarrow> (nat \<Rightarrow> real) \<Rightarrow> sim \<Rightarrow> sim" where
  "particleLoop n targetPositions effectiveScale interactPoint rnd s =
     fold (particleStep targetPositions effectiveScale interactPoint rnd) [0..<n] s"

text \<open>\<^verbatim>\<open>gridHead.fill(-1)\<close>.\<close>

definition clearGrid :: "sim \<Rightarrow> sim" where
  "clearGrid s = s\<lparr>gridHead := (\<lambda>c. -1)\<rparr>"

text \<open>
  A cell's linked list, read from \<open>gridHead\<close> along \<open>gridNext\<close> up to the end marker
  -1. The walk takes fuel, one unit per entry: \<open>None\<close> is a list that did not end
  within the fuel.
\<close>

fun listFrom :: "(nat \<Rightarrow> int) \<Rightarrow> nat \<Rightarrow> int \<Rightarrow> int list option" where
  "listFrom nxt fuel p =
     (if p = -1 then Some []
      else (case fuel of
              0 \<Rightarrow> None
            | Suc k \<Rightarrow> map_option (Cons p) (listFrom nxt k (nxt (nat p)))))"


subsection \<open>Collision resolution\<close>

text \<open>
  The body of \<^verbatim>\<open>if (neighbor !== i)\<close>: particle \<open>i\<close>, whose position \<open>(px, py, pz)\<close> was
  read before the walk, against the particle \<open>neighbor\<close>. The six array updates are made
  one after the other, each reading the array as the one before left it.
\<close>

definition resolvePair :: "nat \<Rightarrow> nat \<Rightarrow> real \<Rightarrow> real \<Rightarrow> real \<Rightarrow> (nat \<Rightarrow> real) \<Rightarrow> (nat \<Rightarrow> real)" where
  "resolvePair i neighbor px py pz pos =
     (let i3 = i * 3;
          n3 = neighbor * 3;
          nx = pos n3; ny = pos (n3 + 1); nz = pos (n3 + 2);
          dx = px - nx; dy = py - ny; dz = pz - nz;
          d2 = dx * dx + dy * dy + dz * dz;
          minSq = COLLISION_RADIUS * COLLISION_RADIUS
      in if d2 > 0 \<and> d2 < minSq then
           (let dist = sqrt d2;
                penetration = COLLISION_RADIUS - dist;
                nx_norm = dx / dist; ny_norm = dy / dist; nz_norm = dz / dist;
                separateFactor = 0.5;
                sx = nx_norm * penetration * separateFactor;
                sy = ny_norm * penetration * separateFactor;
                sz = nz_norm * penetration * separateFactor;
                pos1 = pos(i3 := pos i3 + sx);
                pos2 = pos1(i3 + 1 := pos1 (i3 + 1) + sy);
                pos3 = pos2(i3 + 2 := pos2 (i3 + 2) + sz);
                pos4 = pos3(n3 := pos3 n3 - sx);
                pos5 = pos4(n3 + 1 := pos4 (n3 + 1) - sy)
            in pos5(n3 + 2 := pos5 (n3 + 2) - sz))
         else pos)"

text \<open>
  \<^verbatim>\<open>while (neighbor !== -1 && checks < 8)\<close>. The result is the position array and the
  final value of \<^verbatim>\<open>checks\<close>, the number of list entries the walk visited.
\<close>

function collisionWalk ::
  "(nat \<Rightarrow> int) \<Rightarrow> nat \<Rightarrow> real \<Rightarrow> real \<Rightarrow> real \<Rightarrow> int \<Rightarrow> nat \<Rightarrow> (nat \<Rightarrow> real) \<Rightarrow> (nat \<Rightarrow> real) \<times> nat" where
  "collisionWalk nxt i px py pz neighbor checks pos =
     (if neighbor \<noteq> -1 \<and> checks < 8 then
        collisionWalk nxt i px py pz (nxt (nat neighbor)) (checks + 1)
          (if neighbor \<noteq> int i then resolvePair i (nat neighbor) px py pz pos else pos)
      else (pos, checks))"
  by pat_completeness auto
termination
  by (relation "measure (\<lambda>(nxt, i, px, py, pz, neighbor, checks, pos). 8 - checks)") auto

declare collisionWalk.simps [simp del]

text \<open>The body of the collision loop for particle \<open>i\<close>.\<close>

definition collisionParticle :: "nat \<Rightarrow> sim \<Rightarrow> sim" where
  "collisionParticle i s =
     (let i3 = i * 3;
          px = positions s i3;
          py = positions s (i3 + 1);
          pz = positions s (i3 + 2)
      in case particleCell (positions s) i of
           Some cellIndex \<Rightarrow>
             s\<lparr>positions :=
                 fst (collisionWalk (gridNext s) i px py pz (gridHead s cellIndex) 0 (positions s))\<rparr>
         | None \<Rightarrow> s)"

text \<open>4. Collision resolution, for a particle count of \<open>n\<close>.\<close>

definition collisionResolution :: "nat \<Rightarrow> sim \<Rightarrow> sim" where
  "collisionResolution n s =
     (if physicsEnabled s then fold collisionParticle [0..<n] s else s)"

subsection \<open>The frame\<close>

text \<open>
  \<^verbatim>\<open>animate\<close>, once the scene is initialised (\<^verbatim>\<open>posAttr\<close>, \<^verbatim>\<open>camera\<close> and
  \<^verbatim>\<open>cursorMesh\<close> exist), for a particle count of \<open>n\<close>. The frame's inputs are the
  table of target arrays, the audio data, the ray that \<^verbatim>\<open>raycaster.setFromCamera\<close>
  produced and the sequence of \<^verbatim>\<open>Math.random()\<close> results. What only the renderer reads
  (rotation, cursor mesh, starfield, camera shake, colour and bloom) is left out.
  \<open>frameBody\<close> is the frame from the ray onwards, with the target array found.
\<close>

definition effectiveScaleOf :: "real \<Rightarrow> sim \<Rightarrow> real" where
  "effectiveScaleOf scale0 s = scale0 + (bassFactor s * 0.5 + shockwave s * 0.5)"

definition frameBody ::
  "nat \<Rightarrow> (nat \<Rightarrow> real) \<Rightarrow> real \<Rightarrow> vec3 \<Rightarrow> vec3 \<Rightarrow> (nat \<Rightarrow> real) \<Rightarrow> sim \<Rightarrow> sim \<times> (real \<times> real) option" where
  "frameBody n targetPositions effectiveScale rayOrigin rayDirection rnd s =
     (let plane = interactionPlane rayOrigin rayDirection;
          (s1, ev) = pinchDetection (sphereHit effectiveScale rayOrigin (map_option fst plane)) s;
          s2 = particleLoop n targetPositions effectiveScale (map_option snd plane) rnd s1
      in (collisionResolution n s2, ev))"

text \<open>
  The frame up to the lookup of the target array: time and shockwave decay, audio
  analysis, scale physics and the clearing of the grid. The result is the state and the
  effective scale.
\<close>

definition frameStart :: "nat list option \<Rightarrow> sim \<Rightarrow> sim \<times> real" where
  "frameStart audio s =
     (let s1 = s\<lparr>time := time s + 0.01, shockwave := shockwave s * 0.95\<rparr>;
          s2 = updateAudioAnalysis audio s1;
          scale0 = currentScale s2;
          s3 = s2\<lparr>currentScale :=
                    (if \<not> isHandDetected s2
                     then lerp (currentScale s2) (1.0 + sin (time s2 * 0.8) * 0.1) 0.05
                     else lerp (currentScale s2) (targetScale s2) 0.1)\<rparr>
      in (clearGrid s3, effectiveScaleOf scale0 s3))"

text \<open>
  The whole frame. Without a target array the first particle's
  \<^verbatim>\<open>targetPositions[i3]\<close> throws (on \<^verbatim>\<open>undefined\<close>) or is \<^verbatim>\<open>undefined\<close> (on an
  inherited value), and then the loop makes every position NaN; neither frame ends in a
  state with real positions, which is the result \<open>None\<close>. With no particle nothing reads
  the array.
\<close>

definition animate ::
  "nat \<Rightarrow> (string \<rightharpoonup> (nat \<Rightarrow> real)) \<Rightarrow> nat list option \<Rightarrow> vec3 \<Rightarrow> vec3 \<Rightarrow> (nat \<Rightarrow> real) \<Rightarrow> sim
     \<Rightarrow> (sim \<times> (real \<times> real) option) option" where
  "animate n targets audio rayOrigin rayDirection rnd s =
     (let (s1, effectiveScale) = frameStart audio s
      in case targetPositionsOf targets (currentShape s1) of
           Some targetPositions \<Rightarrow>
             Some (frameBody n targetPositions effectiveScale rayOrigin rayDirection rnd s1)
         | None \<Rightarrow>
             if n = 0
             then Some (frameBody n (\<lambda>k. 0) effectiveScale rayOrigin rayDirection rnd s1)
             else None)"

subsection \<open>Notions the properties are stated with\<close>

text \<open>The magnitude of a vector.\<close>

definition magnitude :: "vec3 \<Rightarrow> real" where
  "magnitude v = (case v of (x, y, z) \<Rightarrow> sqrt (x * x + y * y + z * z))"




subsection \<open>Example inputs\<close>

text \<open>
  Three particles: two in the cell of index 109830 (cell coordinates 30, 30, 30), at
  (0.5, 0.5, 0.5) and (0.2, 0.3, 0.4), and one outside the grid's domain, at (100, 0, 0).
  \<open>exampleState\<close> holds them at rest in a shape other than the earth, with the pointer
  at its initial sentinel; \<open>exampleGrid\<close> adds the links that the grid insertion gives
  them.
\<close>

definition examplePositions :: "nat \<Rightarrow> real" where
  "examplePositions k =
     (if k < 9 then [1/2, 1/2, 1/2, 1/5, 3/10, 2/5, 100, 0, 0] ! k else 0)"

definition exampleState :: sim where
  "exampleState = initialState\<lparr>currentShape := ''heart'', positions := examplePositions\<rparr>"


subsection \<open>Shape generation\<close>

text \<open>
  A JavaScript number without its rounding: a real number, an infinity or NaN. (The two
  zeros are one value here; the sign of a zero matters to a division by it, and is a
  parameter there.)
\<close>

datatype jsnum = Fin real | PInf | NInf | NaN

text \<open>
  A target array is a map from the slots that have been written to what they hold, so
  that a fresh \<^verbatim>\<open>new Float32Array(PARTICLE_COUNT * 3)\<close> is the empty map. In the
  generators only \<^verbatim>\<open>Math.acos\<close> can produce a value that is not finite: they divide by
  constants and by the particle count only, and the other functions they call are
  defined on all reals. So their arithmetic is written on the reals.
\<close>

type_synonym farray = "nat \<rightharpoonup> jsnum"

definition jacos :: "real \<Rightarrow> jsnum" where
  "jacos x = (if -1 \<le> x \<and> x \<le> 1 then Fin (arccos x) else NaN)"

text \<open>
  \<^verbatim>\<open>arr[i3] = x; arr[i3+1] = y; arr[i3+2] = z\<close> for the particle \<open>i\<close>; a point whose
  angle is NaN has three NaN coordinates, and is the point \<open>None\<close>.
\<close>

definition writePoint :: "nat \<Rightarrow> vec3 option \<Rightarrow> farray \<Rightarrow> farray" where
  "writePoint i p arr =
     (let i3 = i * 3 in
      case p of
        Some (x, y, z) \<Rightarrow> arr(i3 \<mapsto> Fin x, i3 + 1 \<mapsto> Fin y, i3 + 2 \<mapsto> Fin z)
      | None \<Rightarrow> arr(i3 \<mapsto> NaN, i3 + 1 \<mapsto> NaN, i3 + 2 \<mapsto> NaN))"

text \<open>
  A loop over the particle indices \<open>is\<close> whose body computes the point of particle \<open>i\<close>
  from \<open>i\<close> and the number \<open>c\<close> of \<^verbatim>\<open>Math.random()\<close> calls made so far, and writes it.
\<close>

definition fillPoints ::
  "(nat \<Rightarrow> nat \<Rightarrow> vec3 option \<times> nat) \<Rightarrow> nat list \<Rightarrow> farray \<times> nat \<Rightarrow> farray \<times> nat" where
  "fillPoints point is st =
     fold (\<lambda>i (arr, c). case point i c of (p, c') \<Rightarrow> (writePoint i p arr, c')) is st"

text \<open>\<^verbatim>\<open>generateEarth\<close>: the body of its loop. The unused \<^verbatim>\<open>noise\<close> is left out.\<close>

definition earthPoint :: "nat \<Rightarrow> nat \<Rightarrow> nat \<Rightarrow> vec3 option \<times> nat" where
  "earthPoint n i c =
     (let radius = 14 in
      case jacos (-1 + (2 * real i) / real n) of
        Fin phi \<Rightarrow>
          (let theta = sqrt (real n * pi) * phi;
               isGrid = (\<lfloor>phi * 10\<rfloor> mod 2 = 0 \<or> \<lfloor>theta * 10\<rfloor> mod 2 = 0);
               r = (if isGrid then radius + 0.2 else radius)
           in (Some (r * cos theta * sin phi, r * sin theta * sin phi, r * cos phi), c))
      | _ \<Rightarrow> (None, c))"

definition generateEarth :: "nat \<Rightarrow> (nat \<Rightarrow> real) \<Rightarrow> nat \<Rightarrow> farray \<times> nat" where
  "generateEarth n rnd c = fillPoints (earthPoint n) [0..<n] (Map.empty, c)"

text \<open>\<^verbatim>\<open>generateHeart\<close>.\<close>

definition heartPoint :: "(nat \<Rightarrow> real) \<Rightarrow> nat \<Rightarrow> nat \<Rightarrow> vec3 option \<times> nat" where
  "heartPoint rnd i c =
     (let t = rnd c * pi * 2;
          x = 16 * (sin t) ^ 3;
          y = 13 * cos t - 5 * cos (2 * t) - 2 * cos (3 * t) - cos (4 * t);
          scale = 0.8;
          z = (rnd (c + 1) - 0.5) * 10 * (1 - \<bar>y\<bar> / 25)
      in (Some (x * scale, y * scale, z), c + 2))"

definition generateHeart :: "nat \<Rightarrow> (nat \<Rightarrow> real) \<Rightarrow> nat \<Rightarrow> farray \<times> nat" where
  "generateHeart n rnd c = fillPoints (heartPoint rnd) [0..<n] (Map.empty, c)"

text \<open>\<^verbatim>\<open>generateFlower\<close>.\<close>

definition flowerPoint :: "(nat \<Rightarrow> real) \<Rightarrow> nat \<Rightarrow> nat \<Rightarrow> vec3 option \<times> nat" where
  "flowerPoint rnd i c =
     (let u = rnd c * pi * 2;
          v = rnd (c + 1) * pi;
          k = 6;
          r = cos (k * u) * 10 + 6;
          x = r * sin v * cos u;
          y = r * cos v * 0.8 + (rnd (c + 2) - 0.5) * 3;
          z = r * sin v * sin u
      in (Some (x, y, z), c + 3))"

definition generateFlower :: "nat \<Rightarrow> (nat \<Rightarrow> real) \<Rightarrow> nat \<Rightarrow> farray \<times> nat" where
  "generateFlower n rnd c = fillPoints (flowerPoint rnd) [0..<n] (Map.empty, c)"

text \<open>
  A point of the sphere of radius \<open>r\<close> about \<open>(cx, cy, cz)\<close>, with
  \<^verbatim>\<open>theta = Math.random() * Math.PI * 2\<close> and \<^verbatim>\<open>phi = Math.acos(2 * Math.random() - 1)\<close>:
  the body of the first loop of \<^verbatim>\<open>generateSaturn\<close> and of \<^verbatim>\<open>addSphere\<close>.
\<close>

definition spherePoint :: "(nat \<Rightarrow> real) \<Rightarrow> real \<Rightarrow> real \<Rightarrow> real \<Rightarrow> real \<Rightarrow> nat \<Rightarrow> vec3 option \<times> nat" where
  "spherePoint rnd cx cy cz r c =
     (let theta = rnd c * pi * 2 in
      case jacos (2 * rnd (c + 1) - 1) of
        Fin phi \<Rightarrow>
          (Some (cx + r * sin phi * cos theta, cy + r * sin phi * sin theta, cz + r * cos phi),
           c + 2)
      | _ \<Rightarrow> (None, c + 2))"

text \<open>\<^verbatim>\<open>generateSaturn\<close>: the planet, then the ring.\<close>

definition saturnRingPoint :: "(nat \<Rightarrow> real) \<Rightarrow> nat \<Rightarrow> nat \<Rightarrow> vec3 option \<times> nat" where
  "saturnRingPoint rnd i c =
     (let angle = rnd c * pi * 2;
          dist = 14 + rnd (c + 1) * 15;
          rX = cos angle * dist;
          rZ = sin angle * dist;
          rY = (rnd (c + 2) - 0.5) * 0.5;
          tilt = 0.4
      in (Some (rX * cos tilt - rY * sin tilt, rX * sin tilt + rY * cos tilt, rZ), c + 3))"

definition generateSaturn :: "nat \<Rightarrow> (nat \<Rightarrow> real) \<Rightarrow> nat \<Rightarrow> farray \<times> nat" where
  "generateSaturn n rnd c =
     (let planetParticles = nat \<lfloor>real n * 0.4\<rfloor> in
      fillPoints (saturnRingPoint rnd) [planetParticles..<n]
        (fillPoints (\<lambda>i. spherePoint rnd 0 0 0 9) [0..<planetParticles] (Map.empty, c)))"

text \<open>
  \<^verbatim>\<open>generateBuddha\<close>. The state of its loops is the array, the index \<^verbatim>\<open>idx\<close> of the
  next particle and the count of random calls. \<open>addSphere\<close> takes the number of
  iterations that \<^verbatim>\<open>for (let i = 0; i < count; i++)\<close> makes, the least integer that is
  not below \<open>count\<close>.
\<close>

fun addSphere ::
  "nat \<Rightarrow> (nat \<Rightarrow> real) \<Rightarrow> real \<Rightarrow> real \<Rightarrow> real \<Rightarrow> real \<Rightarrow> nat \<Rightarrow> farray \<times> nat \<times> nat
     \<Rightarrow> farray \<times> nat \<times> nat" where
  "addSphere n rnd cx cy cz r 0 st = st"
| "addSphere n rnd cx cy cz r (Suc k) (arr, idx, c) =
     (if idx \<ge> n then (arr, idx, c)
      else (case spherePoint rnd cx cy cz r c of
              (p, c') \<Rightarrow> addSphere n rnd cx cy cz r k (writePoint idx p arr, idx + 1, c')))"

function buddhaRing :: "nat \<Rightarrow> (nat \<Rightarrow> real) \<Rightarrow> farray \<times> nat \<times> nat \<Rightarrow> farray \<times> nat \<times> nat" where
  "buddhaRing n rnd (arr, idx, c) =
     (if idx < n then
        (let t = rnd c * pi * 2;
             r = 15 + rnd (c + 1) * 3
         in buddhaRing n rnd
              (writePoint idx (Some (r * cos t, (rnd (c + 2) - 0.5) * 28, r * sin t)) arr,
               idx + 1, c + 3))
      else (arr, idx, c))"
  by pat_completeness auto
termination
  by (relation "measure (\<lambda>(n, rnd, arr, idx, c). n - idx)") auto

declare buddhaRing.simps [simp del]

definition iterations :: "real \<Rightarrow> nat" where
  "iterations count = nat \<lceil>count\<rceil>"

definition generateBuddha :: "nat \<Rightarrow> (nat \<Rightarrow> real) \<Rightarrow> nat \<Rightarrow> farray \<times> nat" where
  "generateBuddha n rnd c =
     (let st1 = addSphere n rnd 0 (-6) 0 7 (iterations (real n * 0.35)) (Map.empty, 0, c);
          st2 = addSphere n rnd 0 2 0 4.5 (iterations (real n * 0.25)) st1;
          st3 = addSphere n rnd 0 7.5 0 3 (iterations (real n * 0.15)) st2;
          st4 = addSphere n rnd (-4.5) 1 0 2 (iterations (real n * 0.05)) st3;
          st5 = addSphere n rnd 4.5 1 0 2 (iterations (real n * 0.05)) st4
      in case buddhaRing n rnd st5 of (arr, idx, c') \<Rightarrow> (arr, c'))"

text \<open>\<^verbatim>\<open>generateGalaxy\<close>.\<close>

definition galaxyPoint :: "(nat \<Rightarrow> real) \<Rightarrow> nat \<Rightarrow> nat \<Rightarrow> vec3 option \<times> nat" where
  "galaxyPoint rnd i c =
     (let arms = 5;
          t = rnd c;
          angle = t * pi * 2 * 3 + real (i mod arms) * (pi * 2 / real arms);
          radius = t * 20;
          spread = (rnd (c + 1) - 0.5) * (5 * t)
      in (Some (cos angle * radius + spread,
                (rnd (c + 2) - 0.5) * (3 * (1 - t) + 0.5),
                sin angle * radius + spread), c + 3))"

definition generateGalaxy :: "nat \<Rightarrow> (nat \<Rightarrow> real) \<Rightarrow> nat \<Rightarrow> farray \<times> nat" where
  "generateGalaxy n rnd c = fillPoints (galaxyPoint rnd) [0..<n] (Map.empty, c)"

text \<open>\<^verbatim>\<open>generateDNA\<close>.\<close>

definition dnaPoint :: "(nat \<Rightarrow> real) \<Rightarrow> nat \<Rightarrow> nat \<Rightarrow> vec3 option \<times> nat" where
  "dnaPoint rnd i c =
     (let type = rnd c;
          h = (rnd (c + 1) - 0.5) * 45;
          t = h * 0.6;
          radius = 6
      in if type < 0.4 then
           (Some (cos t * radius + (rnd (c + 2) - 0.5), h, sin t * radius + (rnd (c + 3) - 0.5)),
            c + 4)
         else if type < 0.8 then
           (Some (cos (t + pi) * radius + (rnd (c + 2) - 0.5), h,
                  sin (t + pi) * radius + (rnd (c + 3) - 0.5)), c + 4)
         else
           (let percent = rnd (c + 2);
                x1 = cos t * radius; z1 = sin t * radius;
                x2 = cos (t + pi) * radius; z2 = sin (t + pi) * radius
            in (Some (x1 + (x2 - x1) * percent, h, z1 + (z2 - z1) * percent), c + 3)))"

definition generateDNA :: "nat \<Rightarrow> (nat \<Rightarrow> real) \<Rightarrow> nat \<Rightarrow> farray \<times> nat" where
  "generateDNA n rnd c = fillPoints (dnaPoint rnd) [0..<n] (Map.empty, c)"

text \<open>\<^verbatim>\<open>generateQuantumCube\<close>.\<close>

definition cubePoint :: "(nat \<Rightarrow> real) \<Rightarrow> nat \<Rightarrow> nat \<Rightarrow> vec3 option \<times> nat" where
  "cubePoint rnd i c =
     (let layer = rnd c;
          size = (if layer < 0.2 then 3 else if layer < 0.5 then 7 else 12);
          axis = \<lfloor>rnd (c + 1) * 3\<rfloor>;
          dir = (if rnd (c + 2) > 0.5 then 1 else -1);
          x = (rnd (c + 3) - 0.5) * 2 * size;
          y = (rnd (c + 4) - 0.5) * 2 * size;
          z = (rnd (c + 5) - 0.5) * 2 * size
      in if axis = 0 then (Some (size * dir, y, z), c + 6)
         else if axis = 1 then (Some (x, size * dir, z), c + 6)
         else (Some (x, y, size * dir), c + 6))"

definition generateQuantumCube :: "nat \<Rightarrow> (nat \<Rightarrow> real) \<Rightarrow> nat \<Rightarrow> farray \<times> nat" where
  "generateQuantumCube n rnd c = fillPoints (cubePoint rnd) [0..<n] (Map.empty, c)"

text \<open>\<^verbatim>\<open>generateMobiusStrip\<close>.\<close>

definition mobiusPoint :: "(nat \<Rightarrow> real) \<Rightarrow> nat \<Rightarrow> nat \<Rightarrow> vec3 option \<times> nat" where
  "mobiusPoint rnd i c =
     (let u = rnd c * pi * 2;
          v = (rnd (c + 1) - 0.5) * 6;
          radius = 10;
          x = (radius + v / 2 * cos (u / 2)) * cos u;
          y = (radius + v / 2 * cos (u / 2)) * sin u;
          z = v / 2 * sin (u / 2)
      in (Some (x, y, z), c + 2))"

definition generateMobiusStrip :: "nat \<Rightarrow> (nat \<Rightarrow> real) \<Rightarrow> nat \<Rightarrow> farray \<times> nat" where
  "generateMobiusStrip n rnd c = fillPoints (mobiusPoint rnd) [0..<n] (Map.empty, c)"

text \<open>
  \<^verbatim>\<open>generateShapes\<close>, for a particle count of \<open>n\<close> and the sequence \<open>rnd\<close> of
  \<^verbatim>\<open>Math.random()\<close> results: the table \<^verbatim>\<open>targets\<close>, filled in the order of the
  source, and the number of random calls the generators made. The loop that then
  scatters the particles' initial positions writes no target array and is left out.
\<close>

definition generateShapes :: "nat \<Rightarrow> (nat \<Rightarrow> real) \<Rightarrow> (string \<rightharpoonup> farray) \<times> nat" where
  "generateShapes n rnd =
     (let (earth, c1) = generateEarth n rnd 0;
          (heart, c2) = generateHeart n rnd c1;
          (flower, c3) = generateFlower n rnd c2;
          (saturn, c4) = generateSaturn n rnd c3;
          (buddha, c5) = generateBuddha n rnd c4;
          (galaxy, c6) = generateGalaxy n rnd c5;
          (dna, c7) = generateDNA n rnd c6;
          (cube, c8) = generateQuantumCube n rnd c7;
          (mobius, c9) = generateMobiusStrip n rnd c8
      in ([''earth'' \<mapsto> earth, ''heart'' \<mapsto> heart, ''flower'' \<mapsto> flower,
           ''saturn'' \<mapsto> saturn, ''buddha'' \<mapsto> buddha, ''galaxy'' \<mapsto> galaxy,
           ''dna'' \<mapsto> dna, ''cube'' \<mapsto> cube, ''mobius'' \<mapsto> mobius], c9))"

text \<open>
  A target array is complete for \<open>n\<close> particles when exactly the slots below \<open>3 * n\<close>
  have been written and each holds a finite number.
\<close>

definition completeField :: "nat \<Rightarrow> farray \<Rightarrow> bool" where
  "completeField n arr =
     (dom arr = {..<3 * n} \<and> (\<forall>k<3 * n. \<exists>v. arr k = Some (Fin v)))"

text \<open>\<^verbatim>\<open>Math.random()\<close> returns a number in [0, 1).\<close>

definition randomSequence :: "(nat \<Rightarrow> real) \<Rightarrow> bool" where
  "randomSequence rnd = (\<forall>k. 0 \<le> rnd k \<and> rnd k < 1)"

subsection \<open>Arithmetic on JavaScript numbers\<close>

text \<open>
  The operations of IEEE 754 arithmetic on the special values, without rounding. The
  flag of \<open>xdiv\<close> says that a zero divisor is the negative zero.
\<close>

fun xneg :: "jsnum \<Rightarrow> jsnum" where
  "xneg (Fin a) = Fin (- a)"
| "xneg PInf = NInf"
| "xneg NInf = PInf"
| "xneg NaN = NaN"

fun xadd :: "jsnum \<Rightarrow> jsnum \<Rightarrow> jsnum" where
  "xadd (Fin a) (Fin b) = Fin (a + b)"
| "xadd NaN b = NaN"
| "xadd a NaN = NaN"
| "xadd PInf NInf = NaN"
| "xadd NInf PInf = NaN"
| "xadd PInf b = PInf"
| "xadd a PInf = PInf"
| "xadd NInf b = NInf"
| "xadd a NInf = NInf"

definition xsub :: "jsnum \<Rightarrow> jsnum \<Rightarrow> jsnum" where
  "xsub a b = xadd a (xneg b)"

fun xmul :: "jsnum \<Rightarrow> jsnum \<Rightarrow> jsnum" where
  "xmul (Fin a) (Fin b) = Fin (a * b)"
| "xmul NaN b = NaN"
| "xmul a NaN = NaN"
| "xmul (Fin a) PInf = (if a = 0 then NaN else if a > 0 then PInf else NInf)"
| "xmul (Fin a) NInf = (if a = 0 then NaN else if a > 0 then NInf else PInf)"
| "xmul PInf (Fin b) = (if b = 0 then NaN else if b > 0 then PInf else NInf)"
| "xmul NInf (Fin b) = (if b = 0 then NaN else if b > 0 then NInf else PInf)"
| "xmul PInf PInf = PInf"
| "xmul PInf NInf = NInf"
| "xmul NInf PInf = NInf"
| "xmul NInf NInf = PInf"

fun xdiv :: "bool \<Rightarrow> jsnum \<Rightarrow> jsnum \<Rightarrow> jsnum" where
  "xdiv negZero (Fin a) (Fin b) =
     (if b \<noteq> 0 then Fin (a / b)
      else if a = 0 then NaN
      else if (a > 0) \<noteq> negZero then PInf else NInf)"
| "xdiv negZero NaN b = NaN"
| "xdiv negZero a NaN = NaN"
| "xdiv negZero (Fin a) PInf = Fin 0"
| "xdiv negZero (Fin a) NInf = Fin 0"
| "xdiv negZero PInf (Fin b) = (if b > 0 \<or> (b = 0 \<and> \<not> negZero) then PInf else NInf)"
| "xdiv negZero NInf (Fin b) = (if b > 0 \<or> (b = 0 \<and> \<not> negZero) then NInf else PInf)"
| "xdiv negZero a b = NaN"

fun xlt :: "jsnum \<Rightarrow> jsnum \<Rightarrow> bool" where
  "xlt (Fin a) (Fin b) = (a < b)"
| "xlt NaN b = False"
| "xlt a NaN = False"
| "xlt NInf NInf = False"
| "xlt NInf b = True"
| "xlt a NInf = False"
| "xlt PInf b = False"
| "xlt a PInf = True"

definition xgt :: "jsnum \<Rightarrow> jsnum \<Rightarrow> bool" where
  "xgt a b = xlt b a"

definition xge :: "jsnum \<Rightarrow> jsnum \<Rightarrow> bool" where
  "xge a b = (xlt b a \<or> (a = b \<and> a \<noteq> NaN))"

fun xsqrt :: "jsnum \<Rightarrow> jsnum" where
  "xsqrt (Fin a) = (if a \<ge> 0 then Fin (sqrt a) else NaN)"
| "xsqrt PInf = PInf"
| "xsqrt a = NaN"

fun xabs :: "jsnum \<Rightarrow> jsnum" where
  "xabs (Fin a) = Fin \<bar>a\<bar>"
| "xabs NaN = NaN"
| "xabs a = PInf"

fun xfloor :: "jsnum \<Rightarrow> jsnum" where
  "xfloor (Fin a) = Fin (of_int \<lfloor>a\<rfloor>)"
| "xfloor a = a"

fun xcos :: "jsnum \<Rightarrow> jsnum" where
  "xcos (Fin a) = Fin (cos a)"
| "xcos a = NaN"

fun xsin :: "jsnum \<Rightarrow> jsnum" where
  "xsin (Fin a) = Fin (sin a)"
| "xsin a = NaN"

fun xatan2 :: "jsnum \<Rightarrow> jsnum \<Rightarrow> jsnum" where
  "xatan2 (Fin y) (Fin x) = Fin (atan2 y x)"
| "xatan2 NaN x = NaN"
| "xatan2 y NaN = NaN"
| "xatan2 (Fin y) PInf = Fin 0"
| "xatan2 (Fin y) NInf = Fin (if y \<ge> 0 then pi else - pi)"
| "xatan2 PInf (Fin x) = Fin (pi / 2)"
| "xatan2 NInf (Fin x) = Fin (- (pi / 2))"
| "xatan2 PInf PInf = Fin (pi / 4)"
| "xatan2 PInf NInf = Fin (3 * pi / 4)"
| "xatan2 NInf PInf = Fin (- (pi / 4))"
| "xatan2 NInf NInf = Fin (- (3 * pi / 4))"

subsection \<open>The frame on JavaScript numbers\<close>

text \<open>
  The part of the frame that divides: the interaction plane, the ray-sphere test, the
  particle loop and the collision pass, written again on \<open>jsnum\<close>, so that an infinity
  or a NaN is a value that the arithmetic carries along. The position and velocity
  arrays hold \<open>jsnum\<close>; the scalars that the frame only reads (the shape, the pointer,
  the time and the shockwave) come from the state \<open>s\<close> of the frame, and the targets,
  the effective scale and the random numbers are finite.
\<close>

type_synonym xvec3 = "jsnum \<times> jsnum \<times> jsnum"

record xsim =
  xpositions :: "nat \<Rightarrow> jsnum"
  xvelocities :: "nat \<Rightarrow> jsnum"
  xgridHead :: "int \<Rightarrow> int"
  xgridNext :: "nat \<Rightarrow> int"
  xrandomCalls :: nat

definition finVec :: "vec3 \<Rightarrow> xvec3" where
  "finVec v = (case v of (x, y, z) \<Rightarrow> (Fin x, Fin y, Fin z))"

definition interactionPlaneX :: "bool \<Rightarrow> xvec3 \<Rightarrow> xvec3 \<Rightarrow> xvec3 \<times> xvec3" where
  "interactionPlaneX negZero origin direction =
     (case (origin, direction) of
        ((ox, oy, oz), (dx, dy, dz)) \<Rightarrow>
          (let distanceToPlane = xdiv negZero (xsub (Fin 0) oz) dz;
               sx = xmul dx distanceToPlane; sy = xmul dy distanceToPlane;
               sz = xmul dz distanceToPlane
           in ((sx, sy, sz), (xadd ox sx, xadd oy sy, xadd oz sz))))"

definition sphereHitX :: "real \<Rightarrow> xvec3 \<Rightarrow> xvec3 \<Rightarrow> bool" where
  "sphereHitX effectiveScale rayOrigin rayDir =
     (case (rayOrigin, rayDir) of
        ((ox, oy, oz), (rx, ry, rz)) \<Rightarrow>
          (let sphereRadius = 14 * effectiveScale;
               b = xmul (Fin 2) (xadd (xadd (xmul rx ox) (xmul ry oy)) (xmul rz oz));
               c = xsub (xadd (xadd (xmul ox ox) (xmul oy oy)) (xmul oz oz))
                     (Fin (sphereRadius * sphereRadius));
               delta = xsub (xmul b b) (xmul (Fin 4) c)
           in xgt delta (Fin 0)))"

definition mouseRepulsionX :: "string \<Rightarrow> real \<Rightarrow> jsnum \<Rightarrow> jsnum \<Rightarrow> xvec3" where
  "mouseRepulsionX shape mouseX dx dy =
     (let distSq = xadd (xmul dx dx) (xmul dy dy) in
      if shape \<noteq> ''earth'' \<and> xlt distSq (Fin 150) \<and> mouseX > -100 then
        (let dist = xsqrt distSq;
             force = xdiv False (xsub (Fin 12) dist) (Fin 12)
         in if xgt force (Fin 0) then
              (let angle = xatan2 dy dx;
                   strength = xmul (Fin 1.2) force
               in (xmul (xcos angle) strength, xmul (xsin angle) strength, Fin 0))
            else (Fin 0, Fin 0, Fin 0))
      else (Fin 0, Fin 0, Fin 0))"

definition pointerForceX :: "string \<Rightarrow> real \<Rightarrow> xvec3 \<Rightarrow> jsnum \<Rightarrow> jsnum \<Rightarrow> xvec3" where
  "pointerForceX shape mouseX interactPoint px py =
     (case interactPoint of
        (ix, iy, iz) \<Rightarrow> mouseRepulsionX shape mouseX (xsub px ix) (xsub py iy))"

definition scanJitterX ::
  "(nat \<Rightarrow> real) \<Rightarrow> real \<Rightarrow> jsnum \<Rightarrow> real \<Rightarrow> real \<Rightarrow> sim \<Rightarrow> nat \<Rightarrow> real \<times> real \<times> nat" where
  "scanJitterX rnd effectiveScale py tx tz s c =
     (if currentShape s = ''earth'' then
        (let scanH = sin (time s * 2) * 15 * effectiveScale in
         if xlt (xabs (xsub py (Fin scanH))) (Fin 1.0)
         then (tx + (rnd c - 0.5) * 0.5, tz + (rnd (c + 1) - 0.5) * 0.5, c + 2)
         else (tx, tz, c))
      else (tx, tz, c))"

definition springForceX :: "real \<Rightarrow> jsnum \<Rightarrow> jsnum" where
  "springForceX t p = xmul (xsub (Fin t) p) (Fin 0.03)"

definition dampedVelocityX :: "jsnum \<Rightarrow> jsnum \<Rightarrow> jsnum \<Rightarrow> jsnum \<Rightarrow> jsnum" where
  "dampedVelocityX v f r a = xmul (xadd v (xadd (xadd f r) a)) (Fin 0.92)"

definition particleCellX :: "(nat \<Rightarrow> jsnum) \<Rightarrow> nat \<Rightarrow> int option" where
  "particleCellX pos i =
     (let i3 = i * 3;
          gx = xfloor (xdiv False (xadd (pos i3) (Fin GRID_OFFSET)) (Fin CELL_SIZE));
          gy = xfloor (xdiv False (xadd (pos (i3 + 1)) (Fin GRID_OFFSET)) (Fin CELL_SIZE));
          gz = xfloor (xdiv False (xadd (pos (i3 + 2)) (Fin GRID_OFFSET)) (Fin CELL_SIZE));
          dim = Fin (of_int GRID_DIM)
      in if xge gx (Fin 0) \<and> xlt gx dim \<and> xge gy (Fin 0) \<and> xlt gy dim \<and>
            xge gz (Fin 0) \<and> xlt gz dim
         then (case (gx, gy, gz) of
                 (Fin a, Fin b, Fin c) \<Rightarrow> Some (cellIndexOf \<lfloor>a\<rfloor> \<lfloor>b\<rfloor> \<lfloor>c\<rfloor>)
               | _ \<Rightarrow> None)
         else None)"

definition gridInsertX :: "nat \<Rightarrow> xsim \<Rightarrow> xsim" where
  "gridInsertX i xs =
     (case particleCellX (xpositions xs) i of
        Some cellIndex \<Rightarrow>
          xs\<lparr>xgridNext := (xgridNext xs)(i := xgridHead xs cellIndex),
             xgridHead := (xgridHead xs)(cellIndex := int i)\<rparr>
      | None \<Rightarrow> xs\<lparr>xgridNext := (xgridNext xs)(i := -1)\<rparr>)"

definition particleStepX ::
  "(nat \<Rightarrow> real) \<Rightarrow> real \<Rightarrow> xvec3 \<Rightarrow> (nat \<Rightarrow> real) \<Rightarrow> sim \<Rightarrow> nat \<Rightarrow> xsim \<Rightarrow> xsim" where
  "particleStepX targetPositions effectiveScale interactPoint rnd s i xs =
     (let i3 = i * 3;
          px = xpositions xs i3;
          py = xpositions xs (i3 + 1);
          pz = xpositions xs (i3 + 2);
          ty = targetPositions (i3 + 1) * effectiveScale;
          (tx, tz, c1) = scanJitterX rnd effectiveScale py
                           (targetPositions i3 * effectiveScale)
                           (targetPositions (i3 + 2) * effectiveScale) s (xrandomCalls xs);
          fx = springForceX tx px;
          fy = springForceX ty py;
          fz = springForceX tz pz;
          (rx, ry, rz) = pointerForceX (currentShape s) (fst (mouse s)) interactPoint px py;
          ((ax, ay, az), c2) = audioJitter rnd (shockwave s) c1;
          vx = dampedVelocityX (xvelocities xs i3) fx rx (Fin ax);
          vy = dampedVelocityX (xvelocities xs (i3 + 1)) fy ry (Fin ay);
          vz = dampedVelocityX (xvelocities xs (i3 + 2)) fz rz (Fin az);
          xs1 = xs\<lparr>xvelocities := (xvelocities xs)(i3 := vx, i3 + 1 := vy, i3 + 2 := vz),
                   xpositions := (xpositions xs)(i3 := xadd px vx, i3 + 1 := xadd py vy,
                                                  i3 + 2 := xadd pz vz),
                   xrandomCalls := c2\<rparr>
      in if physicsEnabled s then gridInsertX i xs1 else xs1)"

definition particleLoopX ::
  "nat \<Rightarrow> (nat \<Rightarrow> real) \<Rightarrow> real \<Rightarrow> xvec3 \<Rightarrow> (nat \<Rightarrow> real) \<Rightarrow> sim \<Rightarrow> xsim \<Rightarrow> xsim" where
  "particleLoopX n targetPositions effectiveScale interactPoint rnd s xs =
     fold (particleStepX targetPositions effectiveScale interactPoint rnd s) [0..<n] xs"

definition resolvePairX ::
  "nat \<Rightarrow> nat \<Rightarrow> jsnum \<Rightarrow> jsnum \<Rightarrow> jsnum \<Rightarrow> (nat \<Rightarrow> jsnum) \<Rightarrow> (nat \<Rightarrow> jsnum)" where
  "resolvePairX i neighbor px py pz pos =
     (let i3 = i * 3;
          n3 = neighbor * 3;
          nx = pos n3; ny = pos (n3 + 1); nz = pos (n3 + 2);
          dx = xsub px nx; dy = xsub py ny; dz = xsub pz nz;
          d2 = xadd (xadd (xmul dx dx) (xmul dy dy)) (xmul dz dz);
          minSq = Fin (COLLISION_RADIUS * COLLISION_RADIUS)
      in if xgt d2 (Fin 0) \<and> xlt d2 minSq then
           (let dist = xsqrt d2;
                penetration = xsub (Fin COLLISION_RADIUS) dist;
                nx_norm = xdiv False dx dist; ny_norm = xdiv False dy dist;
                nz_norm = xdiv False dz dist;
                separateFactor = Fin 0.5;
                sx = xmul (xmul nx_norm penetration) separateFactor;
                sy = xmul (xmul ny_norm penetration) separateFactor;
                sz = xmul (xmul nz_norm penetration) separateFactor;
                pos1 = pos(i3 := xadd (pos i3) sx);
                pos2 = pos1(i3 + 1 := xadd (pos1 (i3 + 1)) sy);
                pos3 = pos2(i3 + 2 := xadd (pos2 (i3 + 2)) sz);
                pos4 = pos3(n3 := xsub (pos3 n3) sx);
                pos5 = pos4(n3 + 1 := xsub (pos4 (n3 + 1)) sy)
            in pos5(n3 + 2 := xsub (pos5 (n3 + 2)) sz))
         else pos)"

function collisionWalkX ::
  "(nat \<Rightarrow> int) \<Rightarrow> nat \<Rightarrow> jsnum \<Rightarrow> jsnum \<Rightarrow> jsnum \<Rightarrow> int \<Rightarrow> nat \<Rightarrow> (nat \<Rightarrow> jsnum)
     \<Rightarrow> (nat \<Rightarrow> jsnum) \<times> nat" where
  "collisionWalkX nxt i px py pz neighbor checks pos =
     (if neighbor \<noteq> -1 \<and> checks < 8 then
        collisionWalkX nxt i px py pz (nxt (nat neighbor)) (checks + 1)
          (if neighbor \<noteq> int i then resolvePairX i (nat neighbor) px py pz pos else pos)
      else (pos, checks))"
  by pat_completeness auto
termination
  by (relation "measure (\<lambda>(nxt, i, px, py, pz, neighbor, checks, pos). 8 - checks)") auto

declare collisionWalkX.simps [simp del]

definition collisionParticleX :: "nat \<Rightarrow> xsim \<Rightarrow> xsim" where
  "collisionParticleX i xs =
     (let i3 = i * 3;
          px = xpositions xs i3;
          py = xpositions xs (i3 + 1);
          pz = xpositions xs (i3 + 2)
      in case particleCellX (xpositions xs) i of
           Some cellIndex \<Rightarrow>
             xs\<lparr>xpositions :=
                  fst (collisionWalkX (xgridNext xs) i px py pz (xgridHead xs cellIndex) 0
                         (xpositions xs))\<rparr>
         | None \<Rightarrow> xs)"

definition collisionResolutionX :: "nat \<Rightarrow> sim \<Rightarrow> xsim \<Rightarrow> xsim" where
  "collisionResolutionX n s xs =
     (if physicsEnabled s then fold collisionParticleX [0..<n] xs else xs)"

text \<open>
  The frame from the ray onwards. \<open>negZero\<close> says that a zero \<open>z\<close> of the ray's direction
  is the negative zero.
\<close>

definition frameBodyX ::
  "nat \<Rightarrow> (nat \<Rightarrow> real) \<Rightarrow> real \<Rightarrow> bool \<Rightarrow> vec3 \<Rightarrow> vec3 \<Rightarrow> (nat \<Rightarrow> real) \<Rightarrow> sim \<Rightarrow> xsim
     \<Rightarrow> xsim \<times> sim \<times> (real \<times> real) option" where
  "frameBodyX n targetPositions effectiveScale negZero rayOrigin rayDirection rnd s xs =
     (let plane = interactionPlaneX negZero (finVec rayOrigin) (finVec rayDirection);
          (s1, ev) = pinchDetection (sphereHitX effectiveScale (finVec rayOrigin) (fst plane)) s;
          xs1 = particleLoopX n targetPositions effectiveScale (snd plane) rnd s1 xs
      in (collisionResolutionX n s1 xs1, s1, ev))"

text \<open>Every slot of the position and velocity arrays holds a finite number.\<close>

definition finiteArrays :: "xsim \<Rightarrow> bool" where
  "finiteArrays xs =
     ((\<forall>k. \<exists>v. xpositions xs k = Fin v) \<and> (\<forall>k. \<exists>v. xvelocities xs k = Fin v))"

text \<open>The arrays of a state of the frame on the reals, as \<open>jsnum\<close> arrays.\<close>

definition finiteState :: "sim \<Rightarrow> xsim" where
  "finiteState s =
     \<lparr>xpositions = (\<lambda>k. Fin (positions s k)), xvelocities = (\<lambda>k. Fin (velocities s k)),
      xgridHead = gridHead s, xgridNext = gridNext s, xrandomCalls = randomCalls s\<rparr>"

subsection \<open>Doubles and the Float32Array\<close>

text \<open>
  The rounding that the definitions above leave out, as far as the velocity update
  needs it. JavaScript computes on doubles (binary64) and rounds the result of every
  operation to the nearest double, ties to the even significand; a store into a
  \<^verbatim>\<open>Float32Array\<close> rounds the same way to the nearest float32 (binary32).

  \<open>roundEven\<close> is the nearest integer, ties to the even one. \<open>binaryExponent emin x\<close>
  is the exponent of \<open>x\<close> in a format whose least exponent is \<open>emin\<close>: the \<open>e\<close> with
  \<open>2 ^ e \<le> \<bar>x\<bar> < 2 ^ (e + 1)\<close>, and \<open>emin\<close> for a smaller \<open>x\<close> (a subnormal number or
  zero). \<open>ulp p emin x\<close> is the spacing at \<open>x\<close> of the numbers with \<open>p\<close> significant
  bits, and \<open>roundBinary p emin x\<close> the multiple of that spacing nearest to \<open>x\<close>.
\<close>

definition roundEven :: "real \<Rightarrow> int" where
  "roundEven x =
     (let f = \<lfloor>x\<rfloor>; d = x - of_int f
      in if d < 1/2 then f else if d > 1/2 then f + 1 else if even f then f else f + 1)"

definition binaryExponent :: "int \<Rightarrow> real \<Rightarrow> int" where
  "binaryExponent emin x = (if \<bar>x\<bar> < 2 powi emin then emin else \<lfloor>log 2 \<bar>x\<bar>\<rfloor>)"

definition ulp :: "nat \<Rightarrow> int \<Rightarrow> real \<Rightarrow> real" where
  "ulp p emin x = 2 powi (binaryExponent emin x - (int p - 1))"

definition roundBinary :: "nat \<Rightarrow> int \<Rightarrow> real \<Rightarrow> real" where
  "roundBinary p emin x = of_int (roundEven (x / ulp p emin x)) * ulp p emin x"

text \<open>
  The rounding of a JavaScript number to a format with \<open>p\<close> significant bits and the
  exponents \<open>emin\<close> to \<open>emax\<close>: a finite number whose rounding reaches \<open>2 ^ (emax + 1)\<close>
  overflows to the infinity of its sign; the infinities and NaN stay what they are.
\<close>

definition toBinary :: "nat \<Rightarrow> int \<Rightarrow> int \<Rightarrow> jsnum \<Rightarrow> jsnum" where
  "toBinary p emin emax a =
     (case a of
        Fin x \<Rightarrow>
          (let r = roundBinary p emin x
           in if \<bar>r\<bar> \<ge> 2 powi (emax + 1) then (if r > 0 then PInf else NInf) else Fin r)
      | _ \<Rightarrow> a)"

definition float64 :: "jsnum \<Rightarrow> jsnum" where
  "float64 = toBinary 53 (-1022) 1023"

definition float32 :: "jsnum \<Rightarrow> jsnum" where
  "float32 = toBinary 24 (-126) 127"

text \<open>
  One component of the velocity update as the program computes it:
  \<^verbatim>\<open>velocities[i3] += fx + rx + ax\<close> adds the doubles \<open>f\<close>, \<open>r\<close> and \<open>a\<close> from the left,
  adds the sum to the float32 \<open>v\<close>, and stores the result as a float32;
  \<^verbatim>\<open>velocities[i3] *= 0.92\<close> reads that float32, multiplies it by the double nearest
  to 0.92, and stores the product as a float32.
\<close>

definition dampedVelocity32 :: "jsnum \<Rightarrow> jsnum \<Rightarrow> jsnum \<Rightarrow> jsnum \<Rightarrow> jsnum" where
  "dampedVelocity32 v f r a =
     (let v1 = float32 (float64 (xadd v (float64 (xadd (float64 (xadd f r)) a))))
      in float32 (float64 (xmul v1 (float64 (Fin 0.92)))))"

text \<open>
  The velocity update of a particle in a frame in which the spring, pointer and audio
  contributions on it are all zero.
\<close>

definition dragFrame :: "xvec3 \<Rightarrow> xvec3" where
  "dragFrame v =
     (case v of (vx, vy, vz) \<Rightarrow>
        (dampedVelocity32 vx (Fin 0) (Fin 0) (Fin 0),
         dampedVelocity32 vy (Fin 0) (Fin 0) (Fin 0),
         dampedVelocity32 vz (Fin 0) (Fin 0) (Fin 0)))"

text \<open>
  The least positive float32, which is the spacing of the float32 numbers below
  \<open>2 ^ -126\<close>; and the float32 nearest to the double nearest to the product of a real
  number and the double nearest to 0.92.
\<close>

definition float32Unit :: real where
  "float32Unit = 2 powi (-149)"

definition dragged :: "real \<Rightarrow> real" where
  "dragged x = roundBinary 24 (-126) (roundBinary 53 (-1022) (x * roundBinary 53 (-1022) 0.92))"

section \<open>Properties\<close>

subsection \<open>What the loops leave alone\<close>

lemma gridInsert_fields:
  "positions (gridInsert i s) = positions s"
  "velocities (gridInsert i s) = velocities s"
  "shockwave (gridInsert i s) = shockwave s"
  "bassFactor (gridInsert i s) = bassFactor s"
  "physicsEnabled (gridInsert i s) = physicsEnabled s"
  "currentShape (gridInsert i s) = currentShape s"
  "pinchTriggered (gridInsert i s) = pinchTriggered s"
  by (simp_all add: gridInsert_def split: option.split)

lemma particleStep_fields:
  "shockwave (particleStep tp sc ip rnd i s) = shockwave s"
  "bassFactor (particleStep tp sc ip rnd i s) = bassFactor s"
  "physicsEnabled (particleStep tp sc ip rnd i s) = physicsEnabled s"
  "currentShape (particleStep tp sc ip rnd i s) = currentShape s"
  "pinchTriggered (particleStep tp sc ip rnd i s) = pinchTriggered s"
  by (simp_all add: particleStep_def Let_def split_beta gridInsert_fields)

lemma fold_particleStep_fields:
  "shockwave (fold (particleStep tp sc ip rnd) xs s) = shockwave s \<and>
   bassFactor (fold (particleStep tp sc ip rnd) xs s) = bassFactor s \<and>
   physicsEnabled (fold (particleStep tp sc ip rnd) xs s) = physicsEnabled s \<and>
   currentShape (fold (particleStep tp sc ip rnd) xs s) = currentShape s \<and>
   pinchTriggered (fold (particleStep tp sc ip rnd) xs s) = pinchTriggered s"
proof (induction xs arbitrary: s)
  case Nil
  show ?case by simp
next
  case (Cons x xs)
  show ?case unfolding fold_Cons comp_apply
    using Cons.IH[of "particleStep tp sc ip rnd x s"] by (simp only: particleStep_fields)
qed

lemma particleLoop_fields:
  "shockwave (particleLoop n tp sc ip rnd s) = shockwave s"
  "bassFactor (particleLoop n tp sc ip rnd s) = bassFactor s"
  "physicsEnabled (particleLoop n tp sc ip rnd s) = physicsEnabled s"
  "currentShape (particleLoop n tp sc ip rnd s) = currentShape s"
  "pinchTriggered (particleLoop n tp sc ip rnd s) = pinchTriggered s"
  unfolding particleLoop_def using fold_particleStep_fields[of tp sc ip rnd "[0..<n]" s]
  by simp_all

lemma collisionParticle_fields:
  "shockwave (collisionParticle i s) = shockwave s"
  "bassFactor (collisionParticle i s) = bassFactor s"
  "gridHead (collisionParticle i s) = gridHead s"
  "gridNext (collisionParticle i s) = gridNext s"
  "pinchTriggered (collisionParticle i s) = pinchTriggered s"
  by (simp_all add: collisionParticle_def Let_def split: option.split)

lemma fold_collisionParticle_fields:
  "shockwave (fold collisionParticle xs s) = shockwave s \<and>
   bassFactor (fold collisionParticle xs s) = bassFactor s \<and>
   gridHead (fold collisionParticle xs s) = gridHead s \<and>
   gridNext (fold collisionParticle xs s) = gridNext s \<and>
   pinchTriggered (fold collisionParticle xs s) = pinchTriggered s"
proof (induction xs arbitrary: s)
  case Nil
  show ?case by simp
next
  case (Cons x xs)
  show ?case unfolding fold_Cons comp_apply
    using Cons.IH[of "collisionParticle x s"] by (simp only: collisionParticle_fields)
qed

lemma collisionResolution_fields:
  "shockwave (collisionResolution n s) = shockwave s"
  "bassFactor (collisionResolution n s) = bassFactor s"
  "gridHead (collisionResolution n s) = gridHead s"
  "gridNext (collisionResolution n s) = gridNext s"
  "pinchTriggered (collisionResolution n s) = pinchTriggered s"
  unfolding collisionResolution_def using fold_collisionParticle_fields[of "[0..<n]" s]
  by simp_all

lemma frameBody_fields:
  "shockwave (fst (frameBody n tp sc ro rd rnd s)) =
     shockwave (fst (pinchDetection (sphereHit sc ro (map_option fst (interactionPlane ro rd))) s))"
  "bassFactor (fst (frameBody n tp sc ro rd rnd s)) = bassFactor s"
  "snd (frameBody n tp sc ro rd rnd s) =
     snd (pinchDetection (sphereHit sc ro (map_option fst (interactionPlane ro rd))) s)"
  by (simp_all add: frameBody_def Let_def split_beta collisionResolution_fields
      particleLoop_fields pinchDetection_def)

lemma pinchDetection_shockwave:
  "shockwave (fst (pinchDetection hit s)) =
     (if snd (pinchDetection hit s) \<noteq> None then 0.5 else shockwave s)"
  by (cases "mouse s") (simp add: pinchDetection_def)

lemma frameStart_fields:
  "shockwave (fst (frameStart audio s)) =
     shockwave (updateAudioAnalysis audio (s\<lparr>time := time s + 0.01, shockwave := shockwave s * 0.95\<rparr>))"
  "bassFactor (fst (frameStart audio s)) =
     bassFactor (updateAudioAnalysis audio (s\<lparr>time := time s + 0.01, shockwave := shockwave s * 0.95\<rparr>))"
  by (simp_all add: frameStart_def Let_def clearGrid_def)

lemma updateAudioAnalysis_shockwave:
  "shockwave (updateAudioAnalysis audio s) =
     (if audio \<noteq> None \<and> bassFactor (updateAudioAnalysis audio s) > 0.8
      then min (shockwave s + 0.1) 2.0 else shockwave s)"
  by (simp add: updateAudioAnalysis_def Let_def split: option.split)

lemma animate_shockwave:
  assumes "animate n targets audio ro rd rnd s = Some (s', ev)"
  shows "shockwave s' =
           (if ev \<noteq> None then 0.5
            else if audio \<noteq> None \<and> bassFactor s' > 0.8
                 then min (shockwave s * 0.95 + 0.1) 2.0
                 else shockwave s * 0.95)"
proof -
  obtain s1 sc where fs: "frameStart audio s = (s1, sc)" by (cases "frameStart audio s")
  let ?s0 = "s\<lparr>time := time s + 0.01, shockwave := shockwave s * 0.95\<rparr>"
  have sh1: "shockwave s1 = shockwave (updateAudioAnalysis audio ?s0)"
    and b1: "bassFactor s1 = bassFactor (updateAudioAnalysis audio ?s0)"
    using frameStart_fields[of audio s] fs by simp_all
  from assms fs obtain tp where fb: "frameBody n tp sc ro rd rnd s1 = (s', ev)"
    by (auto simp: animate_def split: option.splits if_splits)
  let ?pd = "pinchDetection (sphereHit sc ro (map_option fst (interactionPlane ro rd))) s1"
  have ev: "ev = snd ?pd" using frameBody_fields(3)[of n tp sc ro rd rnd s1] fb by simp
  have "shockwave s' = shockwave (fst ?pd)"
    using frameBody_fields(1)[of n tp sc ro rd rnd s1] fb by simp
  also have "\<dots> = (if ev \<noteq> None then 0.5 else shockwave s1)"
    unfolding ev by (rule pinchDetection_shockwave)
  finally have 1: "shockwave s' = (if ev \<noteq> None then 0.5 else shockwave s1)" .
  have b: "bassFactor s' = bassFactor s1"
    using frameBody_fields(2)[of n tp sc ro rd rnd s1] fb by simp
  have "shockwave s1 =
          (if audio \<noteq> None \<and> bassFactor s1 > 0.8
           then min (shockwave s * 0.95 + 0.1) 2.0 else shockwave s * 0.95)"
    unfolding sh1 b1 updateAudioAnalysis_shockwave[of audio ?s0] by simp
  with 1 b show ?thesis by simp
qed

lemma updateAudioAnalysis_modes:
  "currentShape (updateAudioAnalysis audio s) = currentShape s"
  "isHandDetected (updateAudioAnalysis audio s) = isHandDetected s"
  "isPinching (updateAudioAnalysis audio s) = isPinching s"
  "pinchTriggered (updateAudioAnalysis audio s) = pinchTriggered s"
  "currentScale (updateAudioAnalysis audio s) = currentScale s"
  by (simp_all add: updateAudioAnalysis_def Let_def split: option.split)

lemma frameStart_modes:
  "currentShape (fst (frameStart audio s)) = currentShape s"
  "isHandDetected (fst (frameStart audio s)) = isHandDetected s"
  "isPinching (fst (frameStart audio s)) = isPinching s"
  "pinchTriggered (fst (frameStart audio s)) = pinchTriggered s"
  by (simp_all add: frameStart_def Let_def clearGrid_def updateAudioAnalysis_modes)

lemma animate_defined:
  assumes "targetPositionsOf targets (currentShape s) = Some tp"
  shows "animate n targets audio ro rd rnd s =
           Some (frameBody n tp (snd (frameStart audio s)) ro rd rnd (fst (frameStart audio s)))"
  using assms frameStart_modes(1)[of audio s]
  by (simp add: animate_def split_beta)





subsection \<open>Shape switching\<close>

lemma shapeChange_unknown_example:
  "''torus'' \<notin> set shapeNames"
  by (simp add: shapeNames_def)

text \<open>
  C1 fails on the code: the listener has no check of the requested name and no error
  path. The request for a name outside the generated set changes the active shape to
  that name.
\<close>

theorem shape_switch_unknown_counterexample:
  "''torus'' \<notin> set shapeNames
   \<and> currentShape initialState = ''earth''
   \<and> currentShape (shapeChange ''torus'' initialState) = ''torus''
   \<and> shapeChange ''torus'' initialState \<noteq> initialState"
proof -
  have "currentShape (shapeChange ''torus'' initialState) = ''torus''"
    by (simp add: shapeChange_def initialState_def)
  moreover have "currentShape initialState = ''earth''"
    by (simp add: initialState_def)
  ultimately have "shapeChange ''torus'' initialState \<noteq> initialState"
    by auto
  then show ?thesis
    by (simp add: shapeChange_def initialState_def shapeNames_def)
qed

text \<open>
  C1 (as amended). A shape-switch request never fails, whether or not the name is in the
  generated set: the active shape becomes the requested name, the target rotation is
  reset to (0, 0), the base colour becomes #00aaff when the name is \<^verbatim>\<open>earth\<close>, and
  every other component of the simulation state is left as it was.
\<close>

theorem shape_switch_sets_name:
  "shapeChange v s =
     s\<lparr>currentShape := v, targetRotation := (0, 0),
       baseColor := (if v = ''earth'' then ''#00aaff'' else baseColor s)\<rparr>"
  by (simp add: shapeChange_def)

text \<open>
  In the frame, a name for which the table holds no array, and which the table does not
  inherit from its prototype, selects the heart's array.
\<close>

lemma unknown_shape_uses_heart:
  "targets v = None \<Longrightarrow> v \<notin> set objectPrototypeNames \<Longrightarrow>
   targetPositionsOf targets v = targets ''heart''"
  by (simp add: targetPositionsOf_def)

subsection \<open>The spatial grid\<close>









subsection \<open>The pinch latch\<close>

lemma pinchDetection_latch:
  "currentShape s = ''earth'' \<Longrightarrow> isHandDetected s \<Longrightarrow>
   pinchTriggered (fst (pinchDetection hit s)) = (hit \<and> isPinching s)"
  by (simp add: pinchDetection_def)

lemma pinchDetection_event:
  "currentShape s = ''earth'' \<Longrightarrow> isHandDetected s \<Longrightarrow>
   snd (pinchDetection hit s) =
     (if hit \<and> isPinching s \<and> \<not> pinchTriggered s then Some (mouse s) else None)"
  by (simp add: pinchDetection_def)

lemma pinchDetection_mode:
  "currentShape (fst (pinchDetection hit s)) = currentShape s"
  "isHandDetected (fst (pinchDetection hit s)) = isHandDetected s"
  by (simp_all add: pinchDetection_def)

lemma pinchRun_Cons:
  "pinchRun (f # fs) s =
     snd (pinchDetection (fst f) (s\<lparr>isPinching := snd f\<rparr>)) #
     pinchRun fs (fst (pinchDetection (fst f) (s\<lparr>isPinching := snd f\<rparr>)))"
  by (cases f) (simp add: split_beta)

lemma pinchRun_append:
  "pinchRun (xs @ ys) s = pinchRun xs s @ pinchRun ys (pinchFinal xs s)"
  by (induction xs arbitrary: s) (auto simp: split_beta)

lemma pinchFinal_shape: "currentShape (pinchFinal fs s) = currentShape s"
proof (induction fs arbitrary: s)
  case Nil
  show ?case by simp
next
  case (Cons f fs)
  obtain h p where f: "f = (h, p)" by (cases f)
  show ?case unfolding f pinchFinal.simps Cons.IH by (simp add: pinchDetection_mode)
qed

lemma pinchFinal_hand: "isHandDetected (pinchFinal fs s) = isHandDetected s"
proof (induction fs arbitrary: s)
  case Nil
  show ?case by simp
next
  case (Cons f fs)
  obtain h p where f: "f = (h, p)" by (cases f)
  show ?case unfolding f pinchFinal.simps Cons.IH by (simp add: pinchDetection_mode)
qed

lemma pinchFinal_latch:
  "currentShape s = ''earth'' \<Longrightarrow> isHandDetected s \<Longrightarrow>
   pinchTriggered (pinchFinal (fs @ [(h, p)]) s) = (h \<and> p)"
proof (induction fs arbitrary: s)
  case Nil
  then show ?case by (simp add: pinchDetection_latch)
next
  case (Cons f fs)
  then show ?case by (cases f) (simp add: pinchDetection_mode)
qed

lemma eventCount_append: "eventCount (xs @ ys) = eventCount xs + eventCount ys"
  by (simp add: eventCount_def)

lemma held_latched:
  "currentShape s = ''earth'' \<Longrightarrow> isHandDetected s \<Longrightarrow> pinchTriggered s \<Longrightarrow>
   eventCount (pinchRun (replicate k (True, True)) s) = 0"
proof (induction k arbitrary: s)
  case 0
  then show ?case by (simp add: eventCount_def)
next
  case (Suc k)
  let ?s' = "fst (pinchDetection True (s\<lparr>isPinching := True\<rparr>))"
  have "pinchTriggered ?s'" using Suc.prems by (simp add: pinchDetection_latch)
  moreover have "currentShape ?s' = ''earth''" "isHandDetected ?s'"
    using Suc.prems by (simp_all add: pinchDetection_mode)
  ultimately have "eventCount (pinchRun (replicate k (True, True)) ?s') = 0"
    by (rule Suc.IH[rotated 2])
  moreover have "snd (pinchDetection True (s\<lparr>isPinching := True\<rparr>)) = None"
    using Suc.prems pinchDetection_event[of "s\<lparr>isPinching := True\<rparr>" True] by simp
  ultimately show ?case by (simp add: split_beta eventCount_def)
qed

lemma held_fresh:
  assumes "currentShape s = ''earth''" "isHandDetected s" "\<not> pinchTriggered s"
  shows "eventCount (pinchRun (replicate (Suc k) (True, True)) s) = 1"
proof -
  let ?s' = "fst (pinchDetection True (s\<lparr>isPinching := True\<rparr>))"
  have "pinchTriggered ?s'" using assms by (simp add: pinchDetection_latch)
  moreover have "currentShape ?s' = ''earth''" "isHandDetected ?s'"
    using assms by (simp_all add: pinchDetection_mode)
  ultimately have "eventCount (pinchRun (replicate k (True, True)) ?s') = 0"
    by (intro held_latched)
  moreover have "snd (pinchDetection True (s\<lparr>isPinching := True\<rparr>)) \<noteq> None"
    using assms pinchDetection_event[of "s\<lparr>isPinching := True\<rparr>" True] by simp
  ultimately show ?thesis by (simp add: split_beta eventCount_def)
qed

lemma rising_edge:
  "currentShape s = ''earth'' \<Longrightarrow> isHandDetected s \<Longrightarrow> j < length fs \<Longrightarrow>
   (pinchRun fs s ! j \<noteq> None) =
     (fst (fs ! j) \<and> snd (fs ! j) \<and>
      \<not> (if j = 0 then pinchTriggered s else fst (fs ! (j - 1)) \<and> snd (fs ! (j - 1))))"
proof (induction fs arbitrary: s j)
  case Nil
  then show ?case by simp
next
  case (Cons f fs)
  let ?s0 = "s\<lparr>isPinching := snd f\<rparr>"
  let ?s' = "fst (pinchDetection (fst f) ?s0)"
  have mode: "currentShape ?s' = ''earth''" "isHandDetected ?s'"
    using Cons.prems by (simp_all add: pinchDetection_mode)
  have latch: "pinchTriggered ?s' = (fst f \<and> snd f)"
    using Cons.prems by (simp add: pinchDetection_latch)
  show ?case
  proof (cases j)
    case 0
    then show ?thesis
      using Cons.prems pinchDetection_event[of ?s0 "fst f"] by (simp add: pinchRun_Cons)
  next
    case (Suc i)
    then have "i < length fs" using Cons.prems by simp
    from Cons.IH[OF mode this] latch Suc show ?thesis
      by (cases i) (simp_all add: pinchRun_Cons)
  qed
qed

lemma onResults_latch:
  "currentShape (onResults hands s) = currentShape s"
  "pinchTriggered (onResults hands s) = pinchTriggered s"
  "isHandDetected (onResults hands s) = (hands \<noteq> [])"
  "hands = [] \<Longrightarrow> \<not> isPinching (onResults hands s)"
  by (simp_all add: onResults_def Let_def)

lemma pinchDetection_no_hand:
  "\<not> isHandDetected s \<Longrightarrow> pinchDetection hit s = (s, None)"
  by (simp add: pinchDetection_def)

lemma pinchDetection_pinching:
  "isPinching (fst (pinchDetection hit s)) = isPinching s"
  by (simp add: pinchDetection_def)

lemma latchRun_append:
  "latchRun (xs @ ys) s = latchRun xs s @ latchRun ys (latchFinal xs s)"
proof (induction xs arbitrary: s)
  case Nil
  show ?case by simp
next
  case (Cons x xs)
  show ?case by (cases x) (simp_all add: Cons.IH split_beta)
qed

lemma latchFinal_append:
  "latchFinal (xs @ ys) s = latchFinal ys (latchFinal xs s)"
proof (induction xs arbitrary: s)
  case Nil
  show ?case by simp
next
  case (Cons x xs)
  show ?case by (cases x) (simp_all add: Cons.IH)
qed

lemma latchRun_frames:
  "isPinching s \<Longrightarrow>
   latchRun (replicate k (Frame True)) s = pinchRun (replicate k (True, True)) s \<and>
   latchFinal (replicate k (Frame True)) s = pinchFinal (replicate k (True, True)) s"
proof (induction k arbitrary: s)
  case 0
  show ?case by simp
next
  case (Suc k)
  have same: "s\<lparr>isPinching := True\<rparr> = s" using Suc.prems by simp
  have "isPinching (fst (pinchDetection True s))"
    using Suc.prems by (simp add: pinchDetection_pinching)
  from Suc.IH[OF this] show ?case by (simp add: same split_beta)
qed

lemma no_hand_frames:
  "\<not> isHandDetected s \<Longrightarrow>
   eventCount (latchRun (map Frame hits) s) = 0 \<and> latchFinal (map Frame hits) s = s"
proof (induction hits)
  case Nil
  show ?case by (simp add: eventCount_def)
next
  case (Cons h hits)
  then show ?case by (simp add: pinchDetection_no_hand eventCount_def)
qed

lemma latched_frames:
  assumes "currentShape s = ''earth''"
    and "pinchTriggered s \<or> \<not> isPinching s \<or> \<not> isHandDetected s"
  shows "eventCount (latchRun (replicate m (Frame True)) s) = 0"
  using assms
proof (induction m arbitrary: s)
  case 0
  show ?case by (simp add: eventCount_def)
next
  case (Suc m)
  let ?s' = "fst (pinchDetection True s)"
  have ev: "snd (pinchDetection True s) = None"
    using Suc.prems by (auto simp: pinchDetection_def)
  have shape: "currentShape ?s' = ''earth''"
    using Suc.prems(1) by (simp add: pinchDetection_mode)
  have inv: "pinchTriggered ?s' \<or> \<not> isPinching ?s' \<or> \<not> isHandDetected ?s'"
    using Suc.prems by (auto simp: pinchDetection_def)
  from Suc.IH[OF shape inv] ev show ?case
    by (simp add: split_beta eventCount_def)
qed

text \<open>
  C3 fails on the code. The latch is reset only inside the click block, which a frame
  runs when a hand is tracked; the tracking callback releases the activation when the
  hand is lost and leaves the latch set. In this run on the earth a pinch under a hit
  emits its event, the hand is lost (the activation is released), and the hand comes
  back pinched under a hit: the second hold emits nothing.
\<close>

theorem pinch_release_by_hand_loss_counterexample:
  "currentShape initialState = ''earth''
   \<and> isPinching (latchFinal [Tracking [pinchedHand], Frame True, Frame True] initialState)
   \<and> \<not> isPinching (latchFinal [Tracking [pinchedHand], Frame True, Frame True,
                                 Tracking [], Frame True] initialState)
   \<and> isPinching (latchFinal [Tracking [pinchedHand], Frame True, Frame True,
                               Tracking [], Frame True, Tracking [pinchedHand]] initialState)
   \<and> latchRun [Tracking [pinchedHand], Frame True, Frame True,
                Tracking [], Frame True,
                Tracking [pinchedHand], Frame True, Frame True] initialState
       = [Some (0, 0), None, None, None, None]"
  by (simp add: initialState_def onResults_def pinchDetection_def pinchedHand_def Let_def)

text \<open>
  C3 (as amended). On the earth the latch \<open>pinchTriggered\<close> makes the acquisition events
  edge-triggered over the frames in which a hand is tracked. From a released latch, a
  hit held with the activation held for any number of such frames emits exactly one
  event; a frame that releases the activation or loses the hit, followed by a second
  hold, emits exactly one further event; and in every scripted run of such frames,
  frame \<open>j\<close> emits an event exactly when hit and activation are both on in frame \<open>j\<close> and
  were not both on in the frame before (for the first frame: the latch was not set), so
  one hold never emits twice. A frame without a tracked hand emits nothing and leaves
  the state, the latch included, as it is, and the tracking result that reports the
  loss of the hand releases the activation and leaves the latch as it is; so when a
  hold ends by the loss of the hand, whatever the frames without a hand and whatever
  hands the tracking reports next, the frames that follow under a hit emit no further
  event: the run has the one event of the first hold.
\<close>

theorem pinch_edge_triggered:
  assumes "currentShape s = ''earth''"
  shows "(isHandDetected s \<and> \<not> pinchTriggered s \<longrightarrow>
            eventCount (pinchRun (replicate (Suc k) (True, True)) s) = 1)
       \<and> (isHandDetected s \<and> \<not> pinchTriggered s \<and> \<not> (h \<and> p) \<longrightarrow>
            eventCount (pinchRun (replicate (Suc k) (True, True) @ [(h, p)] @
                                  replicate (Suc m) (True, True)) s) = 2)
       \<and> (isHandDetected s \<and> j < length fs \<longrightarrow>
            (pinchRun fs s ! j \<noteq> None) =
              (fst (fs ! j) \<and> snd (fs ! j) \<and>
               \<not> (if j = 0 then pinchTriggered s
                   else fst (fs ! (j - 1)) \<and> snd (fs ! (j - 1)))))
       \<and> (\<not> isHandDetected s \<longrightarrow> pinchDetection hit s = (s, None))
       \<and> \<not> isHandDetected (onResults [] s) \<and> \<not> isPinching (onResults [] s)
       \<and> pinchTriggered (onResults [] s) = pinchTriggered s
       \<and> (isHandDetected s \<and> isPinching s \<and> \<not> pinchTriggered s \<longrightarrow>
            eventCount (latchRun (replicate (Suc k) (Frame True) @ [Tracking []] @
                                  map Frame hits @ [Tracking hands] @
                                  replicate m (Frame True)) s) = 1)"
proof (intro conjI impI)
  assume "isHandDetected s \<and> \<not> pinchTriggered s"
  with assms show "eventCount (pinchRun (replicate (Suc k) (True, True)) s) = 1"
    by (intro held_fresh) simp_all
next
  assume a: "isHandDetected s \<and> \<not> pinchTriggered s \<and> \<not> (h \<and> p)"
  then have hand: "isHandDetected s" by simp
  let ?hold = "replicate (Suc k) (True, True)"
  let ?s1 = "pinchFinal (?hold @ [(h, p)]) s"
  have m1: "currentShape ?s1 = ''earth''" "isHandDetected ?s1"
    using assms hand by (simp_all only: pinchFinal_shape pinchFinal_hand)
  have l1: "\<not> pinchTriggered ?s1"
    using assms a pinchFinal_latch[of s ?hold h p] by simp
  have e1: "eventCount (pinchRun ?hold s) = 1"
    using assms a by (intro held_fresh) simp_all
  let ?s0 = "pinchFinal ?hold s"
  have m0: "currentShape ?s0 = ''earth''" "isHandDetected ?s0"
    using assms hand by (simp_all only: pinchFinal_shape pinchFinal_hand)
  have e2: "eventCount (pinchRun [(h, p)] ?s0) = 0"
    using a m0 pinchDetection_event[of "?s0\<lparr>isPinching := p\<rparr>" h]
    by (auto simp: eventCount_def split_beta)
  have e3: "eventCount (pinchRun (replicate (Suc m) (True, True)) ?s1) = 1"
    using m1 l1 by (rule held_fresh)
  have "pinchRun (?hold @ [(h, p)] @ replicate (Suc m) (True, True)) s =
        pinchRun ?hold s @ pinchRun [(h, p)] ?s0 @ pinchRun (replicate (Suc m) (True, True)) ?s1"
    using pinchRun_append[of "?hold @ [(h, p)]" "replicate (Suc m) (True, True)" s]
          pinchRun_append[of ?hold "[(h, p)]" s]
    by simp
  with e1 e2 e3 show "eventCount (pinchRun (?hold @ [(h, p)] @ replicate (Suc m) (True, True)) s) = 2"
    by (simp only: eventCount_append)
next
  assume "isHandDetected s \<and> j < length fs"
  with assms show "(pinchRun fs s ! j \<noteq> None) =
              (fst (fs ! j) \<and> snd (fs ! j) \<and>
               \<not> (if j = 0 then pinchTriggered s
                   else fst (fs ! (j - 1)) \<and> snd (fs ! (j - 1))))"
    by (intro rising_edge) simp_all
next
  assume "\<not> isHandDetected s"
  then show "pinchDetection hit s = (s, None)" by (rule pinchDetection_no_hand)
next
  show "\<not> isHandDetected (onResults [] s)" by (simp add: onResults_latch)
next
  show "\<not> isPinching (onResults [] s)" by (simp add: onResults_latch)
next
  show "pinchTriggered (onResults [] s) = pinchTriggered s" by (rule onResults_latch)
next
  assume a: "isHandDetected s \<and> isPinching s \<and> \<not> pinchTriggered s"
  let ?hold = "replicate (Suc k) (Frame True)"
  let ?s1 = "latchFinal ?hold s"
  let ?s2 = "onResults [] ?s1"
  let ?s3 = "latchFinal (map Frame hits) ?s2"
  let ?s4 = "onResults hands ?s3"
  have fr: "latchRun ?hold s = pinchRun (replicate (Suc k) (True, True)) s"
    "?s1 = pinchFinal (replicate (Suc k) (True, True)) s"
    using latchRun_frames[of s "Suc k"] a by simp_all
  have e1: "eventCount (latchRun ?hold s) = 1"
    unfolding fr using assms a by (intro held_fresh) simp_all
  have "pinchTriggered (pinchFinal (replicate k (True, True) @ [(True, True)]) s) = (True \<and> True)"
    using assms a by (intro pinchFinal_latch) simp_all
  then have t1: "pinchTriggered ?s1"
    unfolding fr by (simp add: replicate_append_same)
  have sh1: "currentShape ?s1 = ''earth''"
    unfolding fr using assms by (simp only: pinchFinal_shape)
  have nh2: "\<not> isHandDetected ?s2" by (simp add: onResults_latch)
  have s3: "?s3 = ?s2" and e2: "eventCount (latchRun (map Frame hits) ?s2) = 0"
    using no_hand_frames[OF nh2, of hits] by simp_all
  have sh4: "currentShape ?s4 = ''earth''" and t4: "pinchTriggered ?s4"
    unfolding s3 using sh1 t1 by (simp_all add: onResults_latch)
  have e3: "eventCount (latchRun (replicate m (Frame True)) ?s4) = 0"
    using sh4 t4 by (intro latched_frames) simp_all
  have "latchRun (?hold @ [Tracking []] @ map Frame hits @ [Tracking hands] @
                  replicate m (Frame True)) s =
        latchRun ?hold s @ latchRun (map Frame hits) ?s2 @ latchRun (replicate m (Frame True)) ?s4"
    by (simp only: latchRun_append latchFinal_append latchRun.simps latchFinal.simps
        append_Cons append_Nil)
  with e1 e2 e3
  show "eventCount (latchRun (?hold @ [Tracking []] @ map Frame hits @ [Tracking hands] @
                              replicate m (Frame True)) s) = 1"
    by (simp only: eventCount_append)
qed

theorem pinch_edge_triggered_witness:
  "eventCount (pinchRun (replicate (Suc 2) (True, True))
                 (initialState\<lparr>isHandDetected := True\<rparr>)) = 1
   \<and> eventCount (pinchRun (replicate (Suc 2) (True, True) @ [(True, False)] @
                            replicate (Suc 1) (True, True))
                   (initialState\<lparr>isHandDetected := True\<rparr>)) = 2
   \<and> pinchRun [(True, True), (True, True), (True, True), (True, False), (True, True),
                (True, True), (False, True), (True, True), (True, True), (False, False)]
        (initialState\<lparr>isHandDetected := True\<rparr>) ! 4 \<noteq> None
   \<and> pinchDetection True (initialState\<lparr>isPinching := True\<rparr>) =
        (initialState\<lparr>isPinching := True\<rparr>, None)
   \<and> eventCount (latchRun (replicate (Suc 1) (Frame True) @ [Tracking []] @
                            map Frame [True] @ [Tracking [pinchedHand]] @
                            replicate 2 (Frame True))
                   (initialState\<lparr>isHandDetected := True, isPinching := True\<rparr>)) = 1"
  using pinch_edge_triggered[of "initialState\<lparr>isHandDetected := True\<rparr>" 2 True False 1 4
      "[(True, True), (True, True), (True, True), (True, False), (True, True),
        (True, True), (False, True), (True, True), (True, True), (False, False)]"]
    pinch_edge_triggered[of "initialState\<lparr>isPinching := True\<rparr>" 0 True True 0 0 "[]" True]
    pinch_edge_triggered[of "initialState\<lparr>isHandDetected := True, isPinching := True\<rparr>"
      1 True True 2 0 "[]" True "[True]" "[pinchedHand]"]
  by (simp add: initialState_def)

subsection \<open>The shockwave\<close>

text \<open>
  Example inputs: a table that holds an array for each generated shape name, and the
  ray of a camera at (0, 0, 45) through the centre of the view.
\<close>

lemma acquisition_frame:
  fixes tg :: "string \<rightharpoonup> (nat \<Rightarrow> real)" and rnd :: "nat \<Rightarrow> real"
  assumes tg: "tg ''earth'' = Some tp"
  defines "s0 \<equiv> initialState\<lparr>isHandDetected := True, isPinching := True, mouse := (0, 0)\<rparr>"
  defines "r \<equiv> the (animate PARTICLE_COUNT tg None (0, 0, 45) (0, 0, -1) rnd s0)"
  shows "animate PARTICLE_COUNT tg None (0, 0, 45) (0, 0, -1) rnd s0 \<noteq> None"
    and "snd r = Some (0, 0)"
    and "shockwave (fst r) = 0.5"
proof -
  have shape: "currentShape s0 = ''earth''" by (simp add: s0_def initialState_def)
  have tpo: "targetPositionsOf tg (currentShape s0) = Some tp"
    by (simp add: targetPositionsOf_def shape tg)
  let ?s1 = "fst (frameStart None s0)" and ?sc = "snd (frameStart None s0)"
  have an: "animate PARTICLE_COUNT tg None (0, 0, 45) (0, 0, -1) rnd s0 =
              Some (frameBody PARTICLE_COUNT tp ?sc (0, 0, 45) (0, 0, -1) rnd ?s1)"
    by (rule animate_defined[OF tpo])
  then show "animate PARTICLE_COUNT tg None (0, 0, 45) (0, 0, -1) rnd s0 \<noteq> None" by simp
  have r: "r = frameBody PARTICLE_COUNT tp ?sc (0, 0, 45) (0, 0, -1) rnd ?s1"
    unfolding r_def an by simp
  have sc: "?sc = 1"
    by (simp add: frameStart_def Let_def effectiveScaleOf_def updateAudioAnalysis_def
        s0_def initialState_def)
  have hit: "sphereHit 1 (0, 0, 45) (map_option fst (interactionPlane (0, 0, 45) (0, 0, -1)))"
    by (simp add: sphereHit_def interactionPlane_def Let_def)
  have modes: "currentShape ?s1 = ''earth''" "isHandDetected ?s1" "isPinching ?s1"
    "\<not> pinchTriggered ?s1"
    unfolding frameStart_modes by (simp_all add: s0_def initialState_def)
  have m: "mouse ?s1 = (0, 0)"
    by (simp add: frameStart_def Let_def clearGrid_def updateAudioAnalysis_def s0_def)
  have ev: "snd (pinchDetection True ?s1) = Some (0, 0)"
    using modes m by (simp add: pinchDetection_def)
  show "snd r = Some (0, 0)"
    unfolding r frameBody_fields(3) sc using hit ev by simp
  have "shockwave (fst r) = shockwave (fst (pinchDetection True ?s1))"
    unfolding r frameBody_fields(1) sc using hit by simp
  also have "\<dots> = 0.5"
    unfolding pinchDetection_shockwave using ev by simp
  finally show "shockwave (fst r) = 0.5" .
qed

text \<open>
  C4 fails on the code: the acquisition event of the click block assigns 0.5 to the
  shockwave. In this frame no audio is active, so the bass path is not taken, and the
  shockwave rises from 0 to 0.5.
\<close>

theorem shockwave_bass_only_counterexample:
  "shockwave (initialState\<lparr>isHandDetected := True, isPinching := True, mouse := (0, 0)\<rparr>) = 0
   \<and> animate PARTICLE_COUNT [''earth'' \<mapsto> (\<lambda>k. 0)] None (0, 0, 45) (0, 0, -1) (\<lambda>k. 0)
        (initialState\<lparr>isHandDetected := True, isPinching := True, mouse := (0, 0)\<rparr>) \<noteq> None
   \<and> shockwave (fst (the (animate PARTICLE_COUNT [''earth'' \<mapsto> (\<lambda>k. 0)] None
        (0, 0, 45) (0, 0, -1) (\<lambda>k. 0)
        (initialState\<lparr>isHandDetected := True, isPinching := True, mouse := (0, 0)\<rparr>)))) = 0.5"
proof -
  have tg: "[''earth'' \<mapsto> (\<lambda>k. 0::real)] ''earth'' = Some (\<lambda>k. 0)" by simp
  show ?thesis
    using acquisition_frame(1)[of "[''earth'' \<mapsto> (\<lambda>k. 0)]" "\<lambda>k. 0" "\<lambda>k. 0", OF tg]
      acquisition_frame(3)[of "[''earth'' \<mapsto> (\<lambda>k. 0)]" "\<lambda>k. 0" "\<lambda>k. 0", OF tg]
    by (simp add: initialState_def)
qed

text \<open>
  C4 (as amended). The shockwave has two sources, the bass path and the acquisition
  event. In a frame that emits an acquisition event the shockwave ends at 0.5; in a frame
  without one in which audio is active and the bass factor exceeds 0.8 it ends at the
  decayed value plus 0.1, capped at 2.0; in every other frame it only decays, to 0.95
  times its value.
\<close>

theorem shockwave_sources:
  assumes "animate n targets audio rayOrigin rayDirection rnd s = Some (s', ev)"
  shows "shockwave s' =
           (if ev \<noteq> None then 0.5
            else if audio \<noteq> None \<and> bassFactor s' > 0.8
                 then min (shockwave s * 0.95 + 0.1) 2.0
                 else shockwave s * 0.95)"
  using assms by (rule animate_shockwave)

theorem shockwave_sources_witness:
  "\<exists>s' ev. animate PARTICLE_COUNT [''earth'' \<mapsto> (\<lambda>k. 0)] None (0, 0, 45) (0, 0, -1) (\<lambda>k. 0)
              (initialState\<lparr>shockwave := 1\<rparr>) = Some (s', ev)
           \<and> ev = None \<and> shockwave s' = 0.95"
proof -
  let ?s0 = "initialState\<lparr>shockwave := 1\<rparr>"
  let ?tg = "[''earth'' \<mapsto> (\<lambda>k. 0::real)]"
  have "targetPositionsOf ?tg (currentShape ?s0) = Some (\<lambda>k. 0)"
    by (simp add: targetPositionsOf_def initialState_def)
  from animate_defined[OF this]
  obtain s' ev where an:
    "animate PARTICLE_COUNT ?tg None (0, 0, 45) (0, 0, -1) (\<lambda>k. 0) ?s0 = Some (s', ev)"
    and ev: "ev = snd (frameBody PARTICLE_COUNT (\<lambda>k. 0) (snd (frameStart None ?s0))
                        (0, 0, 45) (0, 0, -1) (\<lambda>k. 0) (fst (frameStart None ?s0)))"
    by (metis prod.collapse)
  have "\<not> isHandDetected (fst (frameStart None ?s0))"
    unfolding frameStart_modes by (simp add: initialState_def)
  then have "ev = None"
    unfolding ev frameBody_fields(3) by (simp add: pinchDetection_def)
  moreover from shockwave_sources[OF an] \<open>ev = None\<close>
  have "shockwave s' = 0.95" by (simp add: initialState_def)
  ultimately show ?thesis using an by blast
qed

subsection \<open>The pointer force\<close>

lemma sqrt_one_plus_ratio:
  fixes x y :: real
  assumes "x \<noteq> 0"
  shows "sqrt (1 + (y / x)\<^sup>2) = sqrt (x * x + y * y) / \<bar>x\<bar>"
proof -
  have "1 + (y / x)\<^sup>2 = (x * x + y * y) / (x * x)"
    using assms by (simp add: power2_eq_square field_simps)
  then show ?thesis
    by (simp add: real_sqrt_divide)
qed

lemma cos_sin_atan2:
  fixes x y :: real
  assumes "x \<noteq> 0 \<or> y \<noteq> 0"
  shows "cos (atan2 y x) = x / sqrt (x * x + y * y)"
    and "sin (atan2 y x) = y / sqrt (x * x + y * y)"
proof -
  have pos: "0 < sqrt (x * x + y * y)"
  proof -
    have "0 \<le> x * x" "0 \<le> y * y" by simp_all
    moreover have "x * x \<noteq> 0 \<or> y * y \<noteq> 0" using assms by simp
    ultimately have "0 < x * x + y * y" by linarith
    then show ?thesis by simp
  qed
  have slope: "cos (arctan (y / x)) = \<bar>x\<bar> / sqrt (x * x + y * y) \<and>
               sin (arctan (y / x)) = (y / x) * \<bar>x\<bar> / sqrt (x * x + y * y)" if "x \<noteq> 0"
    using that by (simp add: cos_arctan sin_arctan sqrt_one_plus_ratio)
  consider (right) "x > 0" | (upper) "x < 0" "y \<ge> 0" | (lower) "x < 0" "y < 0"
    | (axis) "x = 0" "y \<noteq> 0"
    using assms by fastforce
  then have "cos (atan2 y x) = x / sqrt (x * x + y * y) \<and>
             sin (atan2 y x) = y / sqrt (x * x + y * y)"
  proof cases
    case right
    then have "x \<noteq> 0" "\<bar>x\<bar> = x" by simp_all
    with slope right show ?thesis by (simp add: atan2_def)
  next
    case upper
    then have x: "x \<noteq> 0" "\<bar>x\<bar> = - x" by simp_all
    have "atan2 y x = arctan (y / x) + pi" using upper by (simp add: atan2_def)
    with slope[OF x(1)] x show ?thesis by simp
  next
    case lower
    then have x: "x \<noteq> 0" "\<bar>x\<bar> = - x" by simp_all
    have "atan2 y x = arctan (y / x) - pi" using lower by (simp add: atan2_def)
    with slope[OF x(1)] x show ?thesis by simp
  next
    case axis
    have "sqrt (y * y) = \<bar>y\<bar>" by simp
    then show ?thesis
      using axis by (simp add: atan2_def)
  qed
  then show "cos (atan2 y x) = x / sqrt (x * x + y * y)"
    and "sin (atan2 y x) = y / sqrt (x * x + y * y)" by simp_all
qed

lemma magnitude_polar: "magnitude (cos a * st, sin a * st, 0) = \<bar>st\<bar>"
proof -
  have "(cos a * st) * (cos a * st) + (sin a * st) * (sin a * st) =
        (st * st) * (cos a * cos a + sin a * sin a)"
    by algebra
  also have "\<dots> = st * st"
    by (simp only: sin_cos_squared_add3 mult_1_right)
  finally show ?thesis
    by (simp add: magnitude_def)
qed

lemma mouseRepulsion_inactive:
  "shape = ''earth'' \<or> mouseX \<le> -100 \<Longrightarrow> mouseRepulsion shape mouseX dx dy = (0, 0, 0)"
  by (auto simp: mouseRepulsion_def Let_def)

lemma mouseRepulsion_z: "snd (snd (mouseRepulsion shape mouseX dx dy)) = 0"
  by (simp add: mouseRepulsion_def Let_def)

lemma mouseRepulsion_active:
  assumes "shape \<noteq> ''earth''" "mouseX > -100" "dx * dx + dy * dy < 150"
  defines "d \<equiv> sqrt (dx * dx + dy * dy)"
  defines "m \<equiv> 1.2 * max 0 ((12 - d) / 12)"
  shows "magnitude (mouseRepulsion shape mouseX dx dy) = m"
    and "d > 0 \<Longrightarrow> mouseRepulsion shape mouseX dx dy = (m * (dx / d), m * (dy / d), 0)"
proof -
  show "magnitude (mouseRepulsion shape mouseX dx dy) = m"
  proof (cases "(12 - d) / 12 > 0")
    case True
    let ?a = "atan2 dy dx" and ?st = "1.2 * ((12 - d) / 12)"
    have st: "0 < ?st" using True by simp
    have r: "mouseRepulsion shape mouseX dx dy = (cos ?a * ?st, sin ?a * ?st, 0)"
      using assms(1-3) True by (simp add: mouseRepulsion_def Let_def d_def)
    have "magnitude (cos ?a * ?st, sin ?a * ?st, 0) = \<bar>?st\<bar>"
      by (rule magnitude_polar)
    with st True show ?thesis unfolding r m_def by (simp add: max_def)
  next
    case False
    then have "mouseRepulsion shape mouseX dx dy = (0, 0, 0)"
      by (simp add: mouseRepulsion_def Let_def d_def)
    with False show ?thesis unfolding m_def by (simp add: magnitude_def max_def)
  qed
next
  assume d: "d > 0"
  then have nz: "dx \<noteq> 0 \<or> dy \<noteq> 0" unfolding d_def by auto
  show "mouseRepulsion shape mouseX dx dy = (m * (dx / d), m * (dy / d), 0)"
  proof (cases "(12 - d) / 12 > 0")
    case True
    have "mouseRepulsion shape mouseX dx dy =
            (cos (atan2 dy dx) * (1.2 * ((12 - d) / 12)), sin (atan2 dy dx) * (1.2 * ((12 - d) / 12)), 0)"
      using assms(1-3) True by (simp add: mouseRepulsion_def Let_def d_def)
    also have "\<dots> = (m * (dx / d), m * (dy / d), 0)"
      using True unfolding cos_sin_atan2[OF nz] m_def d_def by (simp add: max_def mult_ac)
    finally show ?thesis .
  next
    case False
    then show ?thesis
      by (simp add: mouseRepulsion_def Let_def d_def m_def max_def)
  qed
qed

text \<open>
  C5. The pointer force on a particle, as the loop body computes it for particle \<open>i\<close>,
  is \<open>pointerForce\<close> of the active shape, the pointer's x, the interaction point and the
  particle's x and y. Its z component is always zero. It is the zero vector when the
  shape is the earth or the pointer is inactive (the code's test is \<open>mouse.x > -100\<close>,
  which both sentinels, -9999 and -999, fail). Otherwise, for a particle at planar
  distance \<open>d\<close> with \<open>d\<^sup>2 < 150\<close> from the interaction point its magnitude is
  \<open>1.2 * max 0 ((12 - d) / 12)\<close>, and for \<open>d > 0\<close> it is that magnitude times the unit
  vector from the interaction point to the particle.
\<close>

theorem pointer_force:
  "fst (snd (particleForces tp sc ip rnd i s)) =
     pointerForce (currentShape s) (fst (mouse s)) ip (positions s (i * 3)) (positions s (i * 3 + 1))
   \<and> snd (snd (pointerForce shape mouseX ip px py)) = 0
   \<and> (shape = ''earth'' \<or> mouseX \<le> -100 \<longrightarrow> pointerForce shape mouseX ip px py = (0, 0, 0))
   \<and> (mouseX \<in> {-9999, -999} \<longrightarrow> pointerForce shape mouseX ip px py = (0, 0, 0))
   \<and> (shape \<noteq> ''earth'' \<and> mouseX > -100 \<and> ip = Some (ix, iy, iz) \<and>
        (px - ix) * (px - ix) + (py - iy) * (py - iy) < 150 \<and>
        d = sqrt ((px - ix) * (px - ix) + (py - iy) * (py - iy)) \<longrightarrow>
          magnitude (pointerForce shape mouseX ip px py) = 1.2 * max 0 ((12 - d) / 12)
          \<and> (d > 0 \<longrightarrow>
               pointerForce shape mouseX ip px py =
                 (1.2 * max 0 ((12 - d) / 12) * ((px - ix) / d),
                  1.2 * max 0 ((12 - d) / 12) * ((py - iy) / d), 0)))"
proof (intro conjI impI)
  show "fst (snd (particleForces tp sc ip rnd i s)) =
     pointerForce (currentShape s) (fst (mouse s)) ip (positions s (i * 3)) (positions s (i * 3 + 1))"
    by (simp add: particleForces_def Let_def split_beta)
next
  show "snd (snd (pointerForce shape mouseX ip px py)) = 0"
    by (simp add: pointerForce_def mouseRepulsion_z split: option.split)
next
  assume "shape = ''earth'' \<or> mouseX \<le> -100"
  then show "pointerForce shape mouseX ip px py = (0, 0, 0)"
    by (simp add: pointerForce_def mouseRepulsion_inactive split: option.split)
next
  assume "mouseX \<in> {-9999, -999}"
  then have "shape = ''earth'' \<or> mouseX \<le> -100" by auto
  then show "pointerForce shape mouseX ip px py = (0, 0, 0)"
    by (simp add: pointerForce_def mouseRepulsion_inactive split: option.split)
next
  assume a: "shape \<noteq> ''earth'' \<and> mouseX > -100 \<and> ip = Some (ix, iy, iz) \<and>
        (px - ix) * (px - ix) + (py - iy) * (py - iy) < 150 \<and>
        d = sqrt ((px - ix) * (px - ix) + (py - iy) * (py - iy))"
  then have pf: "pointerForce shape mouseX ip px py = mouseRepulsion shape mouseX (px - ix) (py - iy)"
    by (simp add: pointerForce_def)
  from a mouseRepulsion_active(1)[of shape mouseX "px - ix" "py - iy"]
  show "magnitude (pointerForce shape mouseX ip px py) = 1.2 * max 0 ((12 - d) / 12)"
    unfolding pf by simp
  assume "d > 0"
  with a mouseRepulsion_active(2)[of shape mouseX "px - ix" "py - iy"]
  show "pointerForce shape mouseX ip px py =
                 (1.2 * max 0 ((12 - d) / 12) * ((px - ix) / d),
                  1.2 * max 0 ((12 - d) / 12) * ((py - iy) / d), 0)"
    unfolding pf by simp
qed

theorem pointer_force_witness:
  "pointerForce ''earth'' 0 (Some (0, 0, 0)) 3 4 = (0, 0, 0)
   \<and> pointerForce ''heart'' (-999) (Some (0, 0, 0)) 3 4 = (0, 0, 0)
   \<and> magnitude (pointerForce ''heart'' 0 (Some (0, 0, 0)) 3 4) = 0.7
   \<and> pointerForce ''heart'' 0 (Some (0, 0, 0)) 3 4 = (0.42, 0.56, 0)"
proof -
  have s: "sqrt (3 * 3 + 4 * 4) = (5::real)"
  proof -
    have "sqrt (3 * 3 + 4 * 4) = sqrt (5\<^sup>2)" by (simp add: power2_eq_square)
    then show ?thesis by simp
  qed
  have mag: "magnitude (21 / 50, 14 / 25, 0) = 7 / 10"
  proof -
    have "(21 / 50) * (21 / 50) + (14 / 25) * (14 / 25) + 0 * 0 = ((7 / 10)\<^sup>2 :: real)"
      by (simp add: power2_eq_square)
    then have "magnitude (21 / 50, 14 / 25, 0) = sqrt ((7 / 10)\<^sup>2)"
      by (simp only: magnitude_def prod.case)
    then show ?thesis by simp
  qed
  have e: "pointerForce ''earth'' 0 (Some (0, 0, 0)) 3 4 = (0, 0, 0)"
    using pointer_force[where shape = "''earth''" and mouseX = 0 and ip = "Some (0, 0, 0)"
        and px = 3 and py = 4]
    by simp
  have h: "pointerForce ''heart'' (-999) (Some (0, 0, 0)) 3 4 = (0, 0, 0)"
    using pointer_force[where shape = "''heart''" and mouseX = "-999" and ip = "Some (0, 0, 0)"
        and px = 3 and py = 4]
    by simp
  have a: "magnitude (pointerForce ''heart'' 0 (Some (0, 0, 0)) 3 4) = 0.7
           \<and> pointerForce ''heart'' 0 (Some (0, 0, 0)) 3 4 = (0.42, 0.56, 0)"
    using pointer_force[where shape = "''heart''" and mouseX = 0 and ip = "Some (0, 0, 0)"
        and px = 3 and py = 4 and ix = 0 and iy = 0 and iz = 0 and d = 5] s mag
    by (simp add: max_def)
  from e h a show ?thesis by blast
qed

subsection \<open>The neighbour walk\<close>

lemma collisionWalk_checks_le:
  "checks \<le> 8 \<Longrightarrow> snd (collisionWalk nxt i px py pz neighbor checks pos) \<le> 8"
proof (induction nxt i px py pz neighbor checks pos rule: collisionWalk.induct)
  case (1 nxt i px py pz neighbor checks pos)
  show ?case
  proof (cases "neighbor \<noteq> -1 \<and> checks < 8")
    case True
    then have "checks + 1 \<le> 8" by simp
    from "1.IH"[OF True this] show ?thesis
      by (subst collisionWalk.simps) (simp only: True if_True simp_thms)
  next
    case False
    have "collisionWalk nxt i px py pz neighbor checks pos = (pos, checks)"
      by (subst collisionWalk.simps) (simp only: False if_False simp_thms)
    with "1.prems" show ?thesis by simp
  qed
qed

text \<open>
  C6. The neighbour walk of the collision pass is a total function of the grid state:
  whatever \<open>gridNext\<close> holds (a list of any length, or links that never reach -1), the
  walk started with \<open>checks = 0\<close> returns, and the number of list entries it visited,
  the final value of \<open>checks\<close>, is at most 8.
\<close>

theorem neighbor_walk_bounded:
  "snd (collisionWalk nxt i px py pz neighbor 0 pos) \<le> 8"
  by (rule collisionWalk_checks_le) simp

text \<open>
  The pathological cell: 1000 particles in the cell of the origin, linked as the grid
  insertion links them (head 999, each particle to the one before it, particle 0 to
  -1). The walk for particle 0 visits 8 of the 1000 entries.
\<close>

theorem neighbor_walk_bounded_witness:
  "snd (collisionWalk (\<lambda>p. int p - 1) 0 0 0 0 999 0 (\<lambda>k. real k / 3000)) \<le> 8
   \<and> listFrom (\<lambda>p. int p - 1) 1000 999 = Some (map int (rev [0..<1000]))"
proof -
  have "listFrom (\<lambda>p. int p - 1) (Suc k) (int k) = Some (map int (rev [0..<Suc k]))" for k
  proof (induction k)
    case 0
    show ?case by simp
  next
    case (Suc k)
    have "nat (int (Suc k)) = Suc k" by simp
    then have "listFrom (\<lambda>p. int p - 1) (Suc (Suc k)) (int (Suc k)) =
          map_option (Cons (int (Suc k))) (listFrom (\<lambda>p. int p - 1) (Suc k) (int k))"
      by (subst listFrom.simps) simp
    then show ?case unfolding Suc.IH by simp
  qed
  from this[of 999] have "listFrom (\<lambda>p. int p - 1) 1000 999 = Some (map int (rev [0..<1000]))"
    by simp
  then show ?thesis
    using neighbor_walk_bounded[of "\<lambda>p. int p - 1" 0 0 0 0 999 "\<lambda>k. real k / 3000"] by simp
qed

lemma neighbor_walk_stops_at_eight:
  "snd (collisionWalk (\<lambda>p. int p - 1) 0 0 0 0 999 0 (\<lambda>k. real k / 3000)) = 8"
  by (simp add: collisionWalk.simps resolvePair_def COLLISION_RADIUS_def Let_def)

subsection \<open>Collision resolution without overlap\<close>











subsection \<open>Damping\<close>

text \<open>Rounding to the nearest integer and to the nearest binary number.\<close>

lemma roundEven_error: "\<bar>of_int (roundEven x) - x\<bar> \<le> 1/2"
  unfolding roundEven_def Let_def by (auto; linarith)

lemma roundEven_near: "\<bar>x - of_int k\<bar> < 1/2 \<Longrightarrow> roundEven x = k"
proof -
  assume a: "\<bar>x - of_int k\<bar> < 1/2"
  have "\<bar>of_int (roundEven x) - x\<bar> \<le> 1/2" by (rule roundEven_error)
  with a have "\<bar>(of_int (roundEven x) :: real) - of_int k\<bar> < 1" by linarith
  then have "\<bar>roundEven x - k\<bar> < 1"
    by (metis of_int_diff of_int_abs of_int_less_1_iff)
  then show ?thesis by linarith
qed

lemma roundEven_of_int [simp]: "roundEven (of_int k) = k"
  by (rule roundEven_near) simp

lemma roundEven_le: "x \<le> of_int k \<Longrightarrow> roundEven x \<le> k"
  unfolding roundEven_def Let_def by (auto; linarith)

lemma roundEven_ge: "of_int k \<le> x \<Longrightarrow> k \<le> roundEven x"
  unfolding roundEven_def Let_def by (auto; linarith)

lemma two_powi_powr: "(2::real) powi e = 2 powr (of_int e)"
  by (simp add: powr_real_of_int')

lemma binaryExponent_ge: "emin \<le> binaryExponent emin x"
proof (cases "\<bar>x\<bar> < 2 powi emin")
  case True
  then show ?thesis by (simp add: binaryExponent_def)
next
  case False
  then have le: "2 powr (of_int emin) \<le> \<bar>x\<bar>" by (simp add: two_powi_powr)
  moreover have "0 < (2::real) powr (of_int emin)" by simp
  ultimately have pos: "0 < \<bar>x\<bar>" by linarith
  from le pos have "of_int emin \<le> log 2 \<bar>x\<bar>" by (simp add: le_log_iff)
  then have "emin \<le> \<lfloor>log 2 \<bar>x\<bar>\<rfloor>" by linarith
  with False show ?thesis by (simp add: binaryExponent_def)
qed

lemma binaryExponent_upper: "\<bar>x\<bar> < 2 powi (binaryExponent emin x + 1)"
proof (cases "\<bar>x\<bar> < 2 powi emin")
  case True
  have "(2::real) powi emin \<le> 2 powi (emin + 1)" by (intro power_int_increasing) simp_all
  with True show ?thesis by (simp add: binaryExponent_def)
next
  case False
  then have le: "2 powr (of_int emin) \<le> \<bar>x\<bar>" by (simp add: two_powi_powr)
  moreover have "0 < (2::real) powr (of_int emin)" by simp
  ultimately have pos: "0 < \<bar>x\<bar>" by linarith
  have "\<lfloor>log 2 \<bar>x\<bar>\<rfloor> = \<lfloor>log 2 \<bar>x\<bar>\<rfloor>" ..
  with pos have "\<bar>x\<bar> < 2 powr (of_int (\<lfloor>log 2 \<bar>x\<bar>\<rfloor> + 1))"
    using floor_log_eq_powr_iff[of "\<bar>x\<bar>" 2 "\<lfloor>log 2 \<bar>x\<bar>\<rfloor>"] by simp
  with False show ?thesis by (simp add: binaryExponent_def two_powi_powr)
qed

lemma binaryExponent_lower: "2 powi emin \<le> \<bar>x\<bar> \<Longrightarrow> 2 powi (binaryExponent emin x) \<le> \<bar>x\<bar>"
proof -
  assume a: "2 powi emin \<le> \<bar>x\<bar>"
  moreover have "0 < (2::real) powi emin" by simp
  ultimately have pos: "0 < \<bar>x\<bar>" by linarith
  then have "2 powr (of_int \<lfloor>log 2 \<bar>x\<bar>\<rfloor>) \<le> \<bar>x\<bar>"
    using floor_log_eq_powr_iff[of "\<bar>x\<bar>" 2 "\<lfloor>log 2 \<bar>x\<bar>\<rfloor>"] by simp
  with a show ?thesis by (simp add: binaryExponent_def two_powi_powr)
qed

lemma binaryExponent_eq:
  assumes "2 powi e \<le> \<bar>x\<bar>" "\<bar>x\<bar> < 2 powi (e + 1)" "emin \<le> e"
  shows "binaryExponent emin x = e"
proof -
  have "0 < (2::real) powi e" by simp
  with assms(1) have pos: "0 < \<bar>x\<bar>" by linarith
  have "(2::real) powi emin \<le> 2 powi e" using assms(3) by (intro power_int_increasing) simp_all
  with assms(1) have ns: "\<not> \<bar>x\<bar> < 2 powi emin" by linarith
  have "\<lfloor>log 2 \<bar>x\<bar>\<rfloor> = e"
    using floor_log_eq_powr_iff[of "\<bar>x\<bar>" 2 e] pos assms(1,2) by (simp add: two_powi_powr)
  with ns show ?thesis by (simp add: binaryExponent_def)
qed

lemma binaryExponent_subnormal: "\<bar>x\<bar> < 2 powi emin \<Longrightarrow> binaryExponent emin x = emin"
  by (simp add: binaryExponent_def)

lemma binaryExponent_mono:
  assumes "\<bar>x\<bar> \<le> \<bar>y\<bar>"
  shows "binaryExponent emin x \<le> binaryExponent emin y"
proof (cases "\<bar>x\<bar> < 2 powi emin")
  case True
  then show ?thesis using binaryExponent_ge[of emin y] by (simp add: binaryExponent_def)
next
  case False
  then have lx: "2 powi (binaryExponent emin x) \<le> \<bar>x\<bar>" by (intro binaryExponent_lower) simp
  have "\<bar>y\<bar> < 2 powi (binaryExponent emin y + 1)" by (rule binaryExponent_upper)
  with lx assms have "(2::real) powi (binaryExponent emin x) < 2 powi (binaryExponent emin y + 1)"
    by linarith
  then have "binaryExponent emin x < binaryExponent emin y + 1"
    using power_int_increasing[of "binaryExponent emin y + 1" "binaryExponent emin x" "2::real"]
    by (cases "binaryExponent emin x < binaryExponent emin y + 1") simp_all
  then show ?thesis by simp
qed

lemma ulp_pos: "0 < ulp p emin x"
  by (simp add: ulp_def)

lemma ulp_mono: "\<bar>x\<bar> \<le> \<bar>y\<bar> \<Longrightarrow> ulp p emin x \<le> ulp p emin y"
  unfolding ulp_def using binaryExponent_mono[of x y emin]
  by (intro power_int_increasing) simp_all

lemma roundBinary_error: "\<bar>roundBinary p emin x - x\<bar> \<le> ulp p emin x / 2"
proof -
  let ?u = "ulp p emin x"
  have u: "0 < ?u" by (rule ulp_pos)
  have "\<bar>of_int (roundEven (x / ?u)) - x / ?u\<bar> \<le> 1/2" by (rule roundEven_error)
  then have "\<bar>of_int (roundEven (x / ?u)) - x / ?u\<bar> * ?u \<le> 1/2 * ?u"
    using u by (intro mult_right_mono) simp_all
  moreover have "(of_int (roundEven (x / ?u)) - x / ?u) * ?u = roundBinary p emin x - x"
    using u by (simp add: roundBinary_def field_simps)
  then have "\<bar>of_int (roundEven (x / ?u)) - x / ?u\<bar> * ?u = \<bar>roundBinary p emin x - x\<bar>"
    using u by (metis abs_mult abs_of_pos)
  ultimately show ?thesis by simp
qed

lemma two_powi_nat: "0 \<le> d \<Longrightarrow> (2::real) powi d = of_int (2 ^ nat d)"
  by (simp add: power_int_def)

lemma two_powi_split: "(2::real) powi (a + b) = 2 powi a * 2 powi b"
  by (simp add: power_int_add)

lemma ulp_subnormal: "\<bar>x\<bar> < 2 powi emin \<Longrightarrow> ulp p emin x = 2 powi (emin - (int p - 1))"
  by (simp add: ulp_def binaryExponent_subnormal)

lemma ulp_normal:
  assumes "2 powi emin \<le> \<bar>x\<bar>"
  shows "ulp p emin x \<le> \<bar>x\<bar> * 2 powi (1 - int p)"
proof -
  have eq: "binaryExponent emin x - (int p - 1) = binaryExponent emin x + (1 - int p)" by simp
  have "ulp p emin x = 2 powi (binaryExponent emin x + (1 - int p))"
    unfolding ulp_def by (rule arg_cong[OF eq])
  then have "ulp p emin x = 2 powi (binaryExponent emin x) * 2 powi (1 - int p)"
    by (simp only: two_powi_split)
  also have "\<dots> \<le> \<bar>x\<bar> * 2 powi (1 - int p)"
    using binaryExponent_lower[OF assms] by (intro mult_right_mono) simp_all
  finally show ?thesis .
qed

lemma ulp_bound: "ulp p emin x \<le> \<bar>x\<bar> * 2 powi (1 - int p) + 2 powi (emin - (int p - 1))"
proof (cases "\<bar>x\<bar> < 2 powi emin")
  case True
  have "0 \<le> \<bar>x\<bar> * 2 powi (1 - int p)" by simp
  with ulp_subnormal[OF True, of p] show ?thesis by linarith
next
  case False
  then have "ulp p emin x \<le> \<bar>x\<bar> * 2 powi (1 - int p)" by (intro ulp_normal) simp
  moreover have "0 < (2::real) powi (emin - (int p - 1))" by simp
  ultimately show ?thesis by linarith
qed

lemma ulp_ratio:
  assumes "\<bar>y\<bar> \<le> \<bar>x\<bar>"
  shows "ulp p emin x = of_int (2 ^ nat (binaryExponent emin x - binaryExponent emin y)) * ulp p emin y"
proof -
  let ?d = "binaryExponent emin x - binaryExponent emin y"
  have d: "0 \<le> ?d" using binaryExponent_mono[OF assms, of emin] by simp
  have eq: "binaryExponent emin x - (int p - 1) = ?d + (binaryExponent emin y - (int p - 1))"
    by simp
  have "ulp p emin x = 2 powi (?d + (binaryExponent emin y - (int p - 1)))"
    unfolding ulp_def by (rule arg_cong[OF eq])
  also have "\<dots> = 2 powi ?d * ulp p emin y"
    unfolding two_powi_split ulp_def ..
  finally show ?thesis using two_powi_nat[OF d] by simp
qed

lemma roundBinary_multiple:
  assumes "x = of_int n * ulp p emin x"
  shows "roundBinary p emin x = x"
proof -
  have "x / ulp p emin x = of_int n" using assms ulp_pos[of p emin x]
    by (metis nonzero_eq_divide_eq less_numeral_extra(3))
  then show ?thesis unfolding roundBinary_def using assms by simp
qed

lemma roundBinary_fixed_form:
  assumes "roundBinary p emin x = x"
  shows "x = of_int (roundEven (x / ulp p emin x)) * ulp p emin x"
  using assms by (simp add: roundBinary_def)

lemma roundBinary_representable:
  assumes x: "x = of_int n * 2 powi k" and n: "\<bar>n\<bar> < 2 ^ p" and k: "emin - (int p - 1) \<le> k"
  shows "roundBinary p emin x = x"
proof -
  let ?e = "binaryExponent emin x"
  have le: "?e - (int p - 1) \<le> k"
  proof (cases "\<bar>x\<bar> < 2 powi emin")
    case True
    then show ?thesis using k by (simp add: binaryExponent_subnormal)
  next
    case False
    then have "2 powi ?e \<le> \<bar>x\<bar>" by (intro binaryExponent_lower) simp
    also have "\<bar>x\<bar> = of_int \<bar>n\<bar> * 2 powi k" unfolding x by (simp add: abs_mult)
    also have "\<dots> < of_int (2 ^ p) * 2 powi k"
    proof (intro mult_strict_right_mono)
      show "(of_int \<bar>n\<bar> :: real) < of_int (2 ^ p)" using n by (simp only: of_int_less_iff)
      show "0 < (2::real) powi k" by simp
    qed
    also have "\<dots> = 2 powi (int p + k)" by (simp add: two_powi_split)
    finally have "(2::real) powi ?e < 2 powi (int p + k)" .
    then have "?e < int p + k"
      using power_int_increasing[of "int p + k" ?e "2::real"]
      by (cases "?e < int p + k") simp_all
    then show ?thesis by simp
  qed
  let ?d = "k - (?e - (int p - 1))"
  define u where "u = ulp p emin x"
  have d: "0 \<le> ?d" using le by simp
  have "k = ?d + (?e - (int p - 1))" by simp
  then have "(2::real) powi k = 2 powi (?d + (?e - (int p - 1)))" by (rule arg_cong)
  also have "\<dots> = 2 powi ?d * u" unfolding two_powi_split ulp_def u_def ..
  finally have k2: "2 powi k = of_int (2 ^ nat ?d) * u"
    unfolding two_powi_nat[OF d] .
  have "x = of_int n * 2 powi k" by (rule x)
  also have "\<dots> = of_int (n * 2 ^ nat ?d) * u" unfolding k2 by simp
  finally have "x = of_int (n * 2 ^ nat ?d) * ulp p emin x" unfolding u_def .
  then show ?thesis by (rule roundBinary_multiple)
qed

lemma roundEven_abs_le: "\<bar>x\<bar> \<le> of_int N \<Longrightarrow> \<bar>roundEven x\<bar> \<le> N"
proof -
  assume a: "\<bar>x\<bar> \<le> of_int N"
  then have "x \<le> of_int N" "of_int (- N) \<le> x" by simp_all
  then have "roundEven x \<le> N" and "- N \<le> roundEven x"
    using roundEven_le[of x N] roundEven_ge[of "- N" x] by blast+
  then show ?thesis by simp
qed

lemma roundBinary_abs_le:
  assumes fx: "roundBinary p emin x = x" and le: "\<bar>y\<bar> \<le> \<bar>x\<bar>"
  shows "\<bar>roundBinary p emin y\<bar> \<le> \<bar>x\<bar>"
proof -
  let ?uy = "ulp p emin y"
  have uy: "0 < ?uy" by (rule ulp_pos)
  let ?n = "roundEven (x / ulp p emin x)"
  let ?N = "?n * 2 ^ nat (binaryExponent emin x - binaryExponent emin y)"
  have "x = of_int ?n * ulp p emin x" using fx by (rule roundBinary_fixed_form)
  then have x: "x = of_int ?N * ?uy"
    unfolding ulp_ratio[OF le, of p emin] by simp
  then have ax: "\<bar>x\<bar> = of_int \<bar>?N\<bar> * ?uy"
    using uy by (metis abs_mult abs_of_pos of_int_abs)
  have "\<bar>y / ?uy\<bar> = \<bar>y\<bar> / ?uy" using uy by simp
  also have "\<dots> \<le> \<bar>x\<bar> / ?uy" using le uy by (intro divide_right_mono) simp_all
  also have "\<dots> = of_int \<bar>?N\<bar>" unfolding ax using uy by simp
  finally have "\<bar>roundEven (y / ?uy)\<bar> \<le> \<bar>?N\<bar>" by (rule roundEven_abs_le)
  then have "(of_int \<bar>roundEven (y / ?uy)\<bar> :: real) \<le> of_int \<bar>?N\<bar>"
    by (simp only: of_int_le_iff)
  then have "of_int \<bar>roundEven (y / ?uy)\<bar> * ?uy \<le> of_int \<bar>?N\<bar> * ?uy"
    using uy by (intro mult_right_mono) simp_all
  moreover have "\<bar>roundBinary p emin y\<bar> = of_int \<bar>roundEven (y / ?uy)\<bar> * ?uy"
    unfolding roundBinary_def using uy by (simp add: abs_mult)
  ultimately show ?thesis unfolding ax by simp
qed


lemma two_powi_less_cancel: "(2::real) powi a < 2 powi b \<Longrightarrow> a < b"
  using power_int_increasing[of b a "2::real"] by (cases "a < b") simp_all

lemma roundEven_zero [simp]: "roundEven 0 = 0"
  using roundEven_of_int[of 0] by simp

lemma roundBinary_zero [simp]: "roundBinary p emin 0 = 0"
  by (simp add: roundBinary_def)

lemma roundBinary_nonneg: "0 \<le> y \<Longrightarrow> 0 \<le> roundBinary p emin y"
proof -
  assume "0 \<le> y"
  then have "of_int 0 \<le> y / ulp p emin y" using ulp_pos[of p emin y] by simp
  then have "0 \<le> roundEven (y / ulp p emin y)" by (rule roundEven_ge)
  then show ?thesis unfolding roundBinary_def using ulp_pos[of p emin y] by simp
qed

lemma ulp_times_precision: "of_int (2 ^ p) * ulp p emin x = 2 powi (binaryExponent emin x + 1)"
proof -
  have eq: "binaryExponent emin x + 1 = int p + (binaryExponent emin x - (int p - 1))" by simp
  have "(2::real) powi (binaryExponent emin x + 1) =
        2 powi (int p + (binaryExponent emin x - (int p - 1)))"
    by (rule arg_cong[OF eq])
  then show ?thesis unfolding ulp_def two_powi_split by simp
qed

lemma quotient_bound: "\<bar>x / ulp p emin x\<bar> < of_int (2 ^ p)"
proof -
  have u: "0 < ulp p emin x" by (rule ulp_pos)
  have "\<bar>x\<bar> < of_int (2 ^ p) * ulp p emin x"
    unfolding ulp_times_precision by (rule binaryExponent_upper)
  then have "\<bar>x\<bar> / ulp p emin x < of_int (2 ^ p)"
    using u by (simp add: pos_divide_less_eq)
  then show ?thesis using u by simp
qed

lemma roundBinary_fixed_repr:
  assumes "roundBinary p emin x = x"
  shows "\<exists>n k. x = of_int n * 2 powi k \<and> \<bar>n\<bar> < 2 ^ p \<and> emin - (int p - 1) \<le> k"
proof -
  let ?n = "roundEven (x / ulp p emin x)"
  let ?k = "binaryExponent emin x - (int p - 1)"
  have u: "0 < ulp p emin x" by (rule ulp_pos)
  have x: "x = of_int ?n * ulp p emin x" using assms by (rule roundBinary_fixed_form)
  then have "x / ulp p emin x = of_int ?n" using u
    by (metis nonzero_eq_divide_eq less_numeral_extra(3))
  with quotient_bound[of x p emin] have "\<bar>(of_int ?n :: real)\<bar> < of_int (2 ^ p)" by simp
  then have "(of_int \<bar>?n\<bar> :: real) < of_int (2 ^ p)" by (simp only: of_int_abs)
  then have n: "\<bar>?n\<bar> < 2 ^ p" by (simp only: of_int_less_iff)
  have k: "emin - (int p - 1) \<le> ?k" using binaryExponent_ge[of emin x] by simp
  from x n k show ?thesis unfolding ulp_def by blast
qed

lemma roundBinary_widen:
  assumes fx: "roundBinary p emin x = x" and p: "p \<le> p'"
    and e: "emin' - (int p' - 1) \<le> emin - (int p - 1)"
  shows "roundBinary p' emin' x = x"
proof -
  from roundBinary_fixed_repr[OF fx] obtain n k
    where x: "x = of_int n * 2 powi k" and n: "\<bar>n\<bar> < 2 ^ p" and k: "emin - (int p - 1) \<le> k"
    by blast
  have "(2::int) ^ p \<le> 2 ^ p'" using p by (intro power_increasing) simp_all
  with n have n': "\<bar>n\<bar> < 2 ^ p'" by linarith
  from e k have k': "emin' - (int p' - 1) \<le> k" by linarith
  from x n' k' show ?thesis by (rule roundBinary_representable)
qed

lemma roundBinary_idem:
  assumes p: "0 < p"
  shows "roundBinary p emin (roundBinary p emin y) = roundBinary p emin y"
proof -
  let ?m = "roundEven (y / ulp p emin y)"
  let ?k = "binaryExponent emin y - (int p - 1)"
  have k: "emin - (int p - 1) \<le> ?k" using binaryExponent_ge[of emin y] by simp
  have z: "roundBinary p emin y = of_int ?m * 2 powi ?k"
    by (simp add: roundBinary_def ulp_def)
  have "\<bar>y / ulp p emin y\<bar> \<le> of_int (2 ^ p)"
    using quotient_bound[of y p emin] by simp
  then have m: "\<bar>?m\<bar> \<le> 2 ^ p" by (rule roundEven_abs_le)
  show ?thesis
  proof (cases "\<bar>?m\<bar> < 2 ^ p")
    case True
    from z True k show ?thesis by (rule roundBinary_representable)
  next
    case False
    with m have eq: "\<bar>?m\<bar> = 2 ^ p" by simp
    define s :: int where "s = (if 0 \<le> ?m then 1 else - 1)"
    have ms: "?m = s * 2 ^ p" using eq by (auto simp: s_def)
    have "roundBinary p emin y = of_int s * (of_int (2 ^ p) * 2 powi ?k)"
      unfolding z ms by simp
    also have "of_int (2 ^ p) * 2 powi ?k = (2::real) powi (int p + ?k)"
      unfolding two_powi_split[of "int p" ?k] by simp
    finally have z': "roundBinary p emin y = of_int s * 2 powi (int p + ?k)" .
    have "(1::int) < 2 ^ p" using p by (simp add: one_less_power)
    then have s: "\<bar>s\<bar> < 2 ^ p" by (simp add: s_def)
    have k': "emin - (int p - 1) \<le> int p + ?k" using k by simp
    from z' s k' show ?thesis by (rule roundBinary_representable)
  qed
qed

text \<open>The two formats: error bounds with plain numerals.\<close>

lemma float32Unit_pos: "0 < float32Unit" "float32Unit \<le> 1 / 1000000000000000000000000000000"
proof -
  show "0 < float32Unit" by (simp add: float32Unit_def)
  have "float32Unit \<le> 2 powi (-100)"
    unfolding float32Unit_def by (intro power_int_increasing) simp_all
  also have "\<dots> \<le> 1 / 1000000000000000000000000000000"
    by (simp add: power_int_minus_divide)
  finally show "float32Unit \<le> 1 / 1000000000000000000000000000000" .
qed

lemma small_powers:
  "(2::real) powi (-52) \<le> 1 / 1000000000000000"
  "(2::real) powi (-23) \<le> 1 / 1000000"
  "(2::real) powi (-925) \<le> 1 / 1000"
proof -
  show "(2::real) powi (-52) \<le> 1 / 1000000000000000" by (simp add: power_int_minus_divide)
  show "(2::real) powi (-23) \<le> 1 / 1000000" by (simp add: power_int_minus_divide)
  have "(2::real) powi (-925) \<le> 2 powi (-10)" by (intro power_int_increasing) simp_all
  also have "\<dots> \<le> 1 / 1000" by (simp add: power_int_minus_divide)
  finally show "(2::real) powi (-925) \<le> 1 / 1000" .
qed

lemma tiny64: "(2::real) powi (-1074) \<le> float32Unit / 1000"
proof -
  have "(-1074::int) = -149 + -925" by simp
  then have "(2::real) powi (-1074) = 2 powi (-149 + -925)" by (rule arg_cong)
  also have "\<dots> = 2 powi (-149) * 2 powi (-925)" by (rule two_powi_split)
  also have "\<dots> \<le> 2 powi (-149) * (1 / 1000)"
    by (intro mult_left_mono small_powers) simp
  finally show ?thesis unfolding float32Unit_def by simp
qed

lemma error64:
  "\<bar>roundBinary 53 (-1022) t - t\<bar> \<le> \<bar>t\<bar> / 1000000000000000 + float32Unit / 2000"
proof -
  have "ulp 53 (-1022) t \<le> \<bar>t\<bar> * 2 powi (1 - int 53) + 2 powi (-1022 - (int 53 - 1))"
    by (rule ulp_bound)
  moreover have "1 - int 53 = -52" "-1022 - (int 53 - 1) = -1074" by simp_all
  ultimately have "ulp 53 (-1022) t \<le> \<bar>t\<bar> * 2 powi (-52) + 2 powi (-1074)" by (simp only:)
  moreover have "\<bar>t\<bar> * 2 powi (-52) \<le> \<bar>t\<bar> * (1 / 1000000000000000)"
    by (intro mult_left_mono small_powers) simp
  moreover note tiny64
  ultimately have "ulp 53 (-1022) t \<le> \<bar>t\<bar> * (1 / 1000000000000000) + float32Unit / 1000"
    by linarith
  with roundBinary_error[of 53 "-1022" t] show ?thesis by linarith
qed

lemma ulp32_bound: "ulp 24 (-126) y \<le> \<bar>y\<bar> / 1000000 + float32Unit"
proof -
  have "ulp 24 (-126) y \<le> \<bar>y\<bar> * 2 powi (1 - int 24) + 2 powi (-126 - (int 24 - 1))"
    by (rule ulp_bound)
  moreover have "1 - int 24 = -23" "-126 - (int 24 - 1) = -149" by simp_all
  ultimately have "ulp 24 (-126) y \<le> \<bar>y\<bar> * 2 powi (-23) + 2 powi (-149)" by (simp only:)
  moreover have "\<bar>y\<bar> * 2 powi (-23) \<le> \<bar>y\<bar> * (1 / 1000000)"
    by (intro mult_left_mono small_powers) simp
  ultimately show ?thesis unfolding float32Unit_def by linarith
qed

lemma ulp32_subnormal: "\<bar>y\<bar> < 2 powi (-126) \<Longrightarrow> ulp 24 (-126) y = float32Unit"
proof -
  assume "\<bar>y\<bar> < 2 powi (-126)"
  then have "ulp 24 (-126) y = 2 powi (-126 - (int 24 - 1))" by (rule ulp_subnormal)
  moreover have "-126 - (int 24 - 1) = -149" by simp
  ultimately show ?thesis unfolding float32Unit_def by (simp only:)
qed

lemma normal32: "2 powi (-126) = 8388608 * float32Unit"
proof -
  have "(-126::int) = 23 + -149" by simp
  then have "(2::real) powi (-126) = 2 powi (23 + -149)" by (rule arg_cong)
  also have "\<dots> = 2 powi 23 * 2 powi (-149)" by (rule two_powi_split)
  finally show ?thesis unfolding float32Unit_def by simp
qed

lemma error32: "\<bar>roundBinary 24 (-126) y - y\<bar> \<le> \<bar>y\<bar> / 2000000 + float32Unit / 2"
  using roundBinary_error[of 24 "-126" y] ulp32_bound[of y] by linarith

lemma drag_constant:
  "9199 / 10000 \<le> roundBinary 53 (-1022) 0.92" "roundBinary 53 (-1022) 0.92 \<le> 9201 / 10000"
proof -
  define c where "c = roundBinary 53 (-1022) 0.92"
  have "\<bar>roundBinary 53 (-1022) 0.92 - 0.92\<bar> \<le> \<bar>0.92\<bar> / 1000000000000000 + float32Unit / 2000"
    by (rule error64)
  then have "\<bar>c - 23 / 25\<bar> \<le> 23 / 25 / 1000000000000000 + float32Unit / 2000"
    by (simp add: c_def)
  with float32Unit_pos have "9199 / 10000 \<le> c \<and> c \<le> 9201 / 10000" by linarith
  then show "9199 / 10000 \<le> roundBinary 53 (-1022) 0.92"
    and "roundBinary 53 (-1022) 0.92 \<le> 9201 / 10000"
    unfolding c_def by simp_all
qed

lemma dragged_bounds:
  fixes x :: real
  defines "y \<equiv> roundBinary 53 (-1022) (x * roundBinary 53 (-1022) 0.92)"
  shows "\<bar>y\<bar> \<le> 92011 / 100000 * \<bar>x\<bar> + float32Unit / 2000"
    and "\<bar>y - x\<bar> \<ge> 7989 / 100000 * \<bar>x\<bar> - float32Unit / 2000"
    and "\<bar>y - x\<bar> \<le> 8011 / 100000 * \<bar>x\<bar> + float32Unit / 2000"
    and "dragged x = roundBinary 24 (-126) y"
proof -
  define c where "c = roundBinary 53 (-1022) 0.92"
  have c: "9199 / 10000 \<le> c" "c \<le> 9201 / 10000" unfolding c_def by (rule drag_constant)+
  have y: "y = roundBinary 53 (-1022) (x * c)" unfolding y_def c_def ..
  have t1: "\<bar>x\<bar> * c \<le> \<bar>x\<bar> * (9201 / 10000)" using c by (intro mult_left_mono) simp_all
  have t2: "\<bar>x\<bar> * (9199 / 10000) \<le> \<bar>x\<bar> * c" using c by (intro mult_left_mono) simp_all
  have t: "\<bar>x * c\<bar> = \<bar>x\<bar> * c" using c by (simp add: abs_mult)
  have xt: "\<bar>x * c - x\<bar> = \<bar>x\<bar> * (1 - c)"
  proof -
    have "x * c - x = x * (c - 1)" by (simp add: algebra_simps)
    then have "\<bar>x * c - x\<bar> = \<bar>x\<bar> * \<bar>c - 1\<bar>" by (simp only: abs_mult)
    then show ?thesis using c by simp
  qed
  have xt': "\<bar>x\<bar> * (1 - c) = \<bar>x\<bar> - \<bar>x\<bar> * c" by (simp add: algebra_simps)
  have e: "\<bar>y - x * c\<bar> \<le> \<bar>x * c\<bar> / 1000000000000000 + float32Unit / 2000"
    unfolding y by (rule error64)
  show "\<bar>y\<bar> \<le> 92011 / 100000 * \<bar>x\<bar> + float32Unit / 2000"
    using e t t1 by linarith
  show "\<bar>y - x\<bar> \<ge> 7989 / 100000 * \<bar>x\<bar> - float32Unit / 2000"
    using e t t1 t2 xt xt' by linarith
  show "\<bar>y - x\<bar> \<le> 8011 / 100000 * \<bar>x\<bar> + float32Unit / 2000"
    using e t t1 t2 xt xt' by linarith
  show "dragged x = roundBinary 24 (-126) y"
    unfolding dragged_def y_def ..
qed

lemma dragged_contraction: "\<bar>dragged x\<bar> \<le> 93 / 100 * \<bar>x\<bar> + 2 * float32Unit"
proof -
  define y where "y = roundBinary 53 (-1022) (x * roundBinary 53 (-1022) 0.92)"
  have y: "\<bar>y\<bar> \<le> 92011 / 100000 * \<bar>x\<bar> + float32Unit / 2000"
    unfolding y_def by (rule dragged_bounds)
  have d: "dragged x = roundBinary 24 (-126) y" unfolding y_def by (rule dragged_bounds)
  have "\<bar>roundBinary 24 (-126) y - y\<bar> \<le> \<bar>y\<bar> / 2000000 + float32Unit / 2" by (rule error32)
  with y float32Unit_pos show ?thesis unfolding d by linarith
qed

lemma dragged_strict:
  assumes "8 * float32Unit \<le> \<bar>x\<bar>"
  shows "\<bar>dragged x\<bar> < \<bar>x\<bar>"
proof -
  define y where "y = roundBinary 53 (-1022) (x * roundBinary 53 (-1022) 0.92)"
  have y: "\<bar>y\<bar> \<le> 92011 / 100000 * \<bar>x\<bar> + float32Unit / 2000"
    unfolding y_def by (rule dragged_bounds)
  have d: "dragged x = roundBinary 24 (-126) y" unfolding y_def by (rule dragged_bounds)
  have yx: "\<bar>y\<bar> \<le> \<bar>x\<bar>" using y assms float32Unit_pos by linarith
  have ux: "ulp 24 (-126) x \<le> \<bar>x\<bar> / 8"
  proof (cases "\<bar>x\<bar> < 2 powi (-126)")
    case True
    then show ?thesis using ulp32_subnormal[of x] assms by simp
  next
    case False
    then have "2 powi (-126) \<le> \<bar>x\<bar>" by simp
    then have "ulp 24 (-126) x \<le> \<bar>x\<bar> * 2 powi (1 - int 24)" by (rule ulp_normal)
    moreover have "1 - int 24 = -23" by simp
    ultimately have "ulp 24 (-126) x \<le> \<bar>x\<bar> * 2 powi (-23)" by (simp only:)
    moreover have "\<bar>x\<bar> * 2 powi (-23) \<le> \<bar>x\<bar> * (1 / 1000000)"
      by (intro mult_left_mono small_powers) simp
    ultimately show ?thesis by linarith
  qed
  have "\<bar>roundBinary 24 (-126) y - y\<bar> \<le> ulp 24 (-126) y / 2" by (rule roundBinary_error)
  moreover have "ulp 24 (-126) y \<le> ulp 24 (-126) x" using yx by (rule ulp_mono)
  ultimately show ?thesis unfolding d using ux y assms float32Unit_pos by linarith
qed

lemma dragged_units:
  fixes k :: int
  assumes k: "1 \<le> k" "k \<le> 6"
  shows "dragged (of_int k * float32Unit) = of_int k * float32Unit"
proof -
  define q where "q = float32Unit"
  define x where "x = of_int k * q"
  define y where "y = roundBinary 53 (-1022) (x * roundBinary 53 (-1022) 0.92)"
  have q: "0 < q" unfolding q_def by (rule float32Unit_pos)
  have kr: "1 \<le> (of_int k :: real)" "(of_int k :: real) \<le> 6" using k by simp_all
  have ax: "\<bar>x\<bar> = of_int k * q" "x = of_int k * q" using kr q by (simp_all add: x_def abs_mult)
  have xq: "q \<le> \<bar>x\<bar>" "\<bar>x\<bar> \<le> 6 * q"
    using kr q mult_right_mono[of 1 "of_int k" q] mult_right_mono[of "of_int k" 6 q]
    unfolding ax by simp_all
  have y: "\<bar>y\<bar> \<le> 92011 / 100000 * \<bar>x\<bar> + q / 2000"
    unfolding y_def q_def by (rule dragged_bounds)
  have yx: "\<bar>y - x\<bar> \<le> 8011 / 100000 * \<bar>x\<bar> + q / 2000"
    unfolding y_def q_def by (rule dragged_bounds)
  have d: "dragged x = roundBinary 24 (-126) y" unfolding y_def by (rule dragged_bounds)
  have "\<bar>y\<bar> < 8388608 * q" using y xq q by linarith
  then have "\<bar>y\<bar> < 2 powi (-126)" unfolding normal32 q_def .
  then have u: "ulp 24 (-126) y = q" unfolding q_def by (rule ulp32_subnormal)
  have "\<bar>y - x\<bar> < q / 2" using yx xq q by linarith
  then have "\<bar>y - x\<bar> / q < 1 / 2" using q by (simp add: pos_divide_less_eq)
  moreover have "\<bar>y - x\<bar> / q = \<bar>y / q - of_int k\<bar>"
  proof -
    have "y / q - of_int k = (y - x) / q" using q by (simp add: ax field_simps)
    then show ?thesis using q by simp
  qed
  ultimately have "roundEven (y / q) = k" by (intro roundEven_near) simp
  then have "roundBinary 24 (-126) y = of_int k * q"
    unfolding roundBinary_def u by simp
  then show ?thesis using d unfolding x_def q_def by simp
qed

lemma drag_constant_unit:
  "0 \<le> roundBinary 53 (-1022) 0.92" "roundBinary 53 (-1022) 0.92 \<le> 1"
  using drag_constant by linarith+

lemma dragged_le:
  assumes fx: "roundBinary 24 (-126) x = x"
  shows "\<bar>roundBinary 53 (-1022) (x * roundBinary 53 (-1022) 0.92)\<bar> \<le> \<bar>x\<bar>"
    and "\<bar>dragged x\<bar> \<le> \<bar>x\<bar>"
proof -
  define c where "c = roundBinary 53 (-1022) 0.92"
  define y where "y = roundBinary 53 (-1022) (x * c)"
  have c: "0 \<le> c" "c \<le> 1" unfolding c_def by (rule drag_constant_unit)+
  have "\<bar>x\<bar> * c \<le> \<bar>x\<bar> * 1" using c by (intro mult_left_mono) simp_all
  then have t: "\<bar>x * c\<bar> \<le> \<bar>x\<bar>" using c by (simp add: abs_mult)
  have fx64: "roundBinary 53 (-1022) x = x"
    using fx by (rule roundBinary_widen) simp_all
  have yx: "\<bar>y\<bar> \<le> \<bar>x\<bar>" unfolding y_def using fx64 t by (rule roundBinary_abs_le)
  then show "\<bar>roundBinary 53 (-1022) (x * roundBinary 53 (-1022) 0.92)\<bar> \<le> \<bar>x\<bar>"
    unfolding y_def c_def .
  have "\<bar>roundBinary 24 (-126) y\<bar> \<le> \<bar>x\<bar>" using fx yx by (rule roundBinary_abs_le)
  then show "\<bar>dragged x\<bar> \<le> \<bar>x\<bar>" unfolding dragged_def y_def c_def .
qed

lemma dragged_fixed: "roundBinary 24 (-126) (dragged x) = dragged x"
  unfolding dragged_def by (rule roundBinary_idem) simp

text \<open>The update on JavaScript numbers.\<close>

lemma toBinary_Fin:
  "\<bar>roundBinary p emin x\<bar> < 2 powi (emax + 1) \<Longrightarrow>
   toBinary p emin emax (Fin x) = Fin (roundBinary p emin x)"
  by (simp add: toBinary_def Let_def)

lemma float32_fixed:
  "(float32 (Fin x) = Fin x) = (roundBinary 24 (-126) x = x \<and> \<bar>x\<bar> < 2 powi 128)"
  by (auto simp: float32_def toBinary_def Let_def)

lemma float32_Fin:
  "\<bar>roundBinary 24 (-126) x\<bar> < 2 powi 128 \<Longrightarrow> float32 (Fin x) = Fin (roundBinary 24 (-126) x)"
  unfolding float32_def by (rule toBinary_Fin) simp

lemma float64_Fin:
  "\<bar>roundBinary 53 (-1022) x\<bar> < 2 powi 128 \<Longrightarrow> float64 (Fin x) = Fin (roundBinary 53 (-1022) x)"
proof -
  assume "\<bar>roundBinary 53 (-1022) x\<bar> < 2 powi 128"
  moreover have "(2::real) powi 128 \<le> 2 powi (1023 + 1)" by (intro power_int_increasing) simp_all
  ultimately have "\<bar>roundBinary 53 (-1022) x\<bar> < 2 powi (1023 + 1)" by linarith
  then show ?thesis unfolding float64_def by (rule toBinary_Fin)
qed

lemma float64_zero: "float64 (Fin 0) = Fin 0"
  using float64_Fin[of 0] by simp

lemma dampedVelocity32_zero:
  assumes "float32 (Fin x) = Fin x"
  shows "dampedVelocity32 (Fin x) (Fin 0) (Fin 0) (Fin 0) = Fin (dragged x)"
    and "float32 (Fin (dragged x)) = Fin (dragged x)"
proof -
  define c where "c = roundBinary 53 (-1022) 0.92"
  define y where "y = roundBinary 53 (-1022) (x * c)"
  from assms have fx: "roundBinary 24 (-126) x = x" and bx: "\<bar>x\<bar> < 2 powi 128"
    unfolding float32_fixed by simp_all
  have fx64: "roundBinary 53 (-1022) x = x"
    using fx by (rule roundBinary_widen) simp_all
  have s1: "float64 (Fin x) = Fin x"
    using float64_Fin[of x] bx unfolding fx64 by simp
  have "\<bar>c\<bar> \<le> 1" unfolding c_def using drag_constant_unit by simp
  moreover have "(1::real) < 2 powi 128" by simp
  ultimately have "\<bar>roundBinary 53 (-1022) 0.92\<bar> < 2 powi 128" unfolding c_def by linarith
  then have s2: "float64 (Fin 0.92) = Fin c" unfolding c_def by (rule float64_Fin)
  have yx: "\<bar>y\<bar> \<le> \<bar>x\<bar>" unfolding y_def c_def using fx by (rule dragged_le)
  then have "\<bar>roundBinary 53 (-1022) (x * c)\<bar> < 2 powi 128" unfolding y_def using bx by linarith
  then have s3: "float64 (Fin (x * c)) = Fin y" unfolding y_def by (rule float64_Fin)
  have dx: "\<bar>dragged x\<bar> \<le> \<bar>x\<bar>" using fx by (rule dragged_le)
  have d: "dragged x = roundBinary 24 (-126) y" unfolding dragged_def y_def c_def ..
  have "\<bar>roundBinary 24 (-126) y\<bar> < 2 powi 128" using dx bx unfolding d by linarith
  then have s4: "float32 (Fin y) = Fin (dragged x)" unfolding d by (rule float32_Fin)
  show "dampedVelocity32 (Fin x) (Fin 0) (Fin 0) (Fin 0) = Fin (dragged x)"
    unfolding dampedVelocity32_def Let_def
    by (simp only: xadd.simps xmul.simps add_0_right float64_zero s1 assms s2 s3 s4)
  have "\<bar>dragged x\<bar> < 2 powi 128" using dx bx by linarith
  with dragged_fixed[of x] show "float32 (Fin (dragged x)) = Fin (dragged x)"
    unfolding float32_fixed by simp
qed

lemma dragFrame_finVec:
  assumes "float32 (Fin vx) = Fin vx" "float32 (Fin vy) = Fin vy" "float32 (Fin vz) = Fin vz"
  shows "dragFrame (finVec (vx, vy, vz)) = finVec (dragged vx, dragged vy, dragged vz)"
  unfolding dragFrame_def finVec_def prod.case
  by (simp only: dampedVelocity32_zero(1)[OF assms(1)] dampedVelocity32_zero(1)[OF assms(2)]
      dampedVelocity32_zero(1)[OF assms(3)])

lemma dragFrame_funpow:
  assumes "float32 (Fin vx) = Fin vx" "float32 (Fin vy) = Fin vy" "float32 (Fin vz) = Fin vz"
  shows "(dragFrame ^^ k) (finVec (vx, vy, vz)) =
           finVec ((dragged ^^ k) vx, (dragged ^^ k) vy, (dragged ^^ k) vz)
         \<and> float32 (Fin ((dragged ^^ k) vx)) = Fin ((dragged ^^ k) vx)
         \<and> float32 (Fin ((dragged ^^ k) vy)) = Fin ((dragged ^^ k) vy)
         \<and> float32 (Fin ((dragged ^^ k) vz)) = Fin ((dragged ^^ k) vz)"
proof (induction k)
  case 0
  show ?case using assms by simp
next
  case (Suc k)
  then show ?case
    by (simp only: funpow.simps comp_apply dragFrame_finVec dampedVelocity32_zero(2) simp_thms)
qed

lemma dragged_funpow_bound:
  "\<bar>(dragged ^^ k) x\<bar> \<le> (93 / 100) ^ k * \<bar>x\<bar> + 30 * float32Unit"
proof (induction k)
  case 0
  show ?case using float32Unit_pos by simp
next
  case (Suc k)
  define b where "b = (93 / 100 :: real) ^ k * \<bar>x\<bar>"
  have "\<bar>(dragged ^^ Suc k) x\<bar> \<le> 93 / 100 * \<bar>(dragged ^^ k) x\<bar> + 2 * float32Unit"
    unfolding funpow.simps comp_apply by (rule dragged_contraction)
  moreover have "\<bar>(dragged ^^ k) x\<bar> \<le> b + 30 * float32Unit" unfolding b_def by (rule Suc.IH)
  moreover have "(93 / 100 :: real) ^ Suc k * \<bar>x\<bar> = 93 / 100 * b" unfolding b_def by simp
  ultimately show ?case using float32Unit_pos by linarith
qed

lemma drag_power_small: "(93 / 100 :: real) ^ 300 * 10 \<le> 1 / 10000000"
proof -
  have a: "(93 / 100 :: real) ^ 10 < 49 / 100" by (simp add: power_numeral_reduce)
  have b: "(49 / 100 :: real) ^ 6 < 14 / 1000" by (simp add: power_numeral_reduce)
  have c: "(14 / 1000 :: real) ^ 5 < 1 / 100000000" by (simp add: power_numeral_reduce)
  have "(93 / 100 :: real) ^ 300 = ((93 / 100) ^ 10) ^ (6 * 5)"
    by (simp only: power_mult[symmetric]) simp
  also have "\<dots> = (((93 / 100) ^ 10) ^ 6) ^ 5" by (simp only: power_mult)
  also have "\<dots> < ((49 / 100) ^ 6) ^ 5"
    by (intro power_strict_mono a) simp_all
  also have "\<dots> < (14 / 1000) ^ 5"
    by (intro power_strict_mono b) simp_all
  finally have "(93 / 100 :: real) ^ 300 < 1 / 100000000" using c by linarith
  then show ?thesis by linarith
qed

text \<open>Magnitudes.\<close>

lemma magnitude_mono:
  assumes "\<bar>a\<bar> \<le> \<bar>x\<bar>" "\<bar>b\<bar> \<le> \<bar>y\<bar>" "\<bar>c\<bar> \<le> \<bar>z\<bar>"
  shows "magnitude (a, b, c) \<le> magnitude (x, y, z)"
proof -
  have "a * a \<le> x * x" "b * b \<le> y * y" "c * c \<le> z * z"
    using assms by (simp_all add: abs_le_square_iff power2_eq_square)
  then show ?thesis by (simp add: magnitude_def)
qed

lemma square_strict: "\<bar>a\<bar> < \<bar>x\<bar> \<Longrightarrow> a * a < x * (x::real)"
proof -
  assume "\<bar>a\<bar> < \<bar>x\<bar>"
  then have "\<bar>a\<bar> * \<bar>a\<bar> < \<bar>x\<bar> * \<bar>x\<bar>" by (intro mult_strict_mono') simp_all
  then show ?thesis by simp
qed

lemma magnitude_strict_mono:
  assumes "\<bar>a\<bar> \<le> \<bar>x\<bar>" "\<bar>b\<bar> \<le> \<bar>y\<bar>" "\<bar>c\<bar> \<le> \<bar>z\<bar>"
    and "\<bar>a\<bar> < \<bar>x\<bar> \<or> \<bar>b\<bar> < \<bar>y\<bar> \<or> \<bar>c\<bar> < \<bar>z\<bar>"
  shows "magnitude (a, b, c) < magnitude (x, y, z)"
proof -
  have le: "a * a \<le> x * x" "b * b \<le> y * y" "c * c \<le> z * z"
    using assms(1-3) by (simp_all add: abs_le_square_iff power2_eq_square)
  have "a * a < x * x \<or> b * b < y * y \<or> c * c < z * z"
    using assms(4) square_strict[of a x] square_strict[of b y] square_strict[of c z] by blast
  with le have "a * a + b * b + c * c < x * x + y * y + z * z" by linarith
  then show ?thesis by (simp add: magnitude_def)
qed

lemma component_le_magnitude:
  "\<bar>x\<bar> \<le> magnitude (x, y, z)" "\<bar>y\<bar> \<le> magnitude (x, y, z)" "\<bar>z\<bar> \<le> magnitude (x, y, z)"
proof -
  have "magnitude (x, 0, 0) \<le> magnitude (x, y, z)" by (rule magnitude_mono) simp_all
  then show "\<bar>x\<bar> \<le> magnitude (x, y, z)" by (simp add: magnitude_def)
  have "magnitude (0, y, 0) \<le> magnitude (x, y, z)" by (rule magnitude_mono) simp_all
  then show "\<bar>y\<bar> \<le> magnitude (x, y, z)" by (simp add: magnitude_def)
  have "magnitude (0, 0, z) \<le> magnitude (x, y, z)" by (rule magnitude_mono) simp_all
  then show "\<bar>z\<bar> \<le> magnitude (x, y, z)" by (simp add: magnitude_def)
qed

lemma magnitude_less:
  assumes "\<bar>x\<bar> < b" "\<bar>y\<bar> < b" "\<bar>z\<bar> < b"
  shows "magnitude (x, y, z) < 2 * b"
proof -
  have b: "0 < b" using assms(1) by linarith
  have "x * x < b * b" "y * y < b * b" "z * z < b * b"
    using assms b square_strict[of x b] square_strict[of y b] square_strict[of z b] by simp_all
  moreover have "0 < b * b" using b by simp
  moreover have "(2 * b) * (2 * b) = 4 * (b * b)" by simp
  ultimately have "x * x + y * y + z * z < (2 * b) * (2 * b)" by linarith
  then have "sqrt (x * x + y * y + z * z) < sqrt ((2 * b) * (2 * b))"
    by (simp only: real_sqrt_less_iff)
  moreover have "sqrt ((2 * b) * (2 * b)) = \<bar>2 * b\<bar>" by (rule real_sqrt_abs2)
  ultimately show ?thesis unfolding magnitude_def prod.case using b by linarith
qed

lemma float32_small_int:
  fixes n :: int
  assumes "\<bar>n\<bar> < 2 ^ 24" "0 \<le> k" "k \<le> 253"
  shows "float32 (Fin (of_int n * 2 powi (k - 149))) = Fin (of_int n * 2 powi (k - 149))"
proof -
  let ?x = "of_int n * (2::real) powi (k - 149)"
  have "-126 - (int 24 - 1) \<le> k - 149" using assms(2) by simp
  with refl assms(1) have fx: "roundBinary 24 (-126) ?x = ?x" by (rule roundBinary_representable)
  have "(of_int \<bar>n\<bar> :: real) < of_int (2 ^ 24)" using assms(1) by (simp only: of_int_less_iff)
  then have "\<bar>?x\<bar> < of_int (2 ^ 24) * 2 powi (k - 149)"
    unfolding abs_mult by (simp add: mult_strict_right_mono)
  also have "of_int (2 ^ 24) * 2 powi (k - 149) = (2::real) powi (24 + (k - 149))"
    unfolding two_powi_split[of 24 "k - 149"] by simp
  also have "\<dots> \<le> 2 powi 128" using assms(3) by (intro power_int_increasing) simp_all
  finally show ?thesis using fx unfolding float32_fixed by simp
qed

lemma float32_units: "\<bar>n\<bar> < 2 ^ 24 \<Longrightarrow> float32 (Fin (of_int n * float32Unit)) = Fin (of_int n * float32Unit)"
  using float32_small_int[of n 0] by (simp add: float32Unit_def)

lemma float32_zero: "float32 (Fin 0) = Fin 0"
  using float32_units[of 0] by simp

lemma float32_ten: "float32 (Fin 10) = Fin 10"
proof -
  have "(10::real) = of_int 5 * 2 powi (150 - 149)" by simp
  moreover have "float32 (Fin (of_int 5 * 2 powi (150 - 149))) = Fin (of_int 5 * 2 powi (150 - 149))"
    by (rule float32_small_int) simp_all
  ultimately show ?thesis by (simp only:)
qed

lemma dragged_zero: "dragged 0 = 0"
  by (simp add: dragged_def)

text \<open>
  C8 fails on the code. \<^verbatim>\<open>velocities\<close> is a \<^verbatim>\<open>Float32Array\<close>: the product of the
  least positive float32 and 0.92 is nearer to that number than to zero, and the store
  rounds it back. This nonzero velocity is a float32, no force acts on the particle,
  and the frame leaves the velocity, and so its magnitude, as it is.
\<close>

theorem damping_strict_decrease_counterexample:
  "float32Unit = 1 / 2 ^ 149
   \<and> float32 (Fin float32Unit) = Fin float32Unit
   \<and> (float32Unit, 0, 0) \<noteq> (0, 0, 0)
   \<and> dragFrame (finVec (float32Unit, 0, 0)) = finVec (float32Unit, 0, 0)
   \<and> magnitude (float32Unit, 0, 0) = float32Unit"
proof -
  have u: "float32 (Fin float32Unit) = Fin float32Unit"
    using float32_units[of 1] by simp
  have "dragged float32Unit = float32Unit" using dragged_units[of 1] by simp
  with dragFrame_finVec[OF u float32_zero float32_zero]
  have "dragFrame (finVec (float32Unit, 0, 0)) = finVec (float32Unit, 0, 0)"
    by (simp only: dragged_zero)
  moreover have "float32Unit = 1 / 2 ^ 149"
    by (simp add: float32Unit_def power_int_minus_divide)
  moreover have "magnitude (float32Unit, 0, 0) = float32Unit"
    using float32Unit_pos by (simp add: magnitude_def)
  ultimately show ?thesis using u float32Unit_pos by simp
qed

text \<open>
  C8 (as amended). \<^verbatim>\<open>velocities\<close> holds float32 numbers. In a frame with zero spring,
  pointer and audio contributions on a particle, each component \<open>v\<close> of its velocity
  becomes the float32 nearest to the double nearest to \<open>v\<close> times the double nearest to
  0.92. The magnitude of the velocity never increases; it strictly decreases in every
  frame that starts with a magnitude of at least 16 units of \<open>2 ^ -149\<close>; and a velocity
  of magnitude at most 10 has a magnitude below 1e-6 after 300 such frames. The
  magnitude does not strictly decrease in every frame: a component of one to six units
  of \<open>2 ^ -149\<close> is left unchanged.
\<close>

theorem damping_convergence:
  assumes "float32 (Fin vx) = Fin vx" and "float32 (Fin vy) = Fin vy"
    and "float32 (Fin vz) = Fin vz"
  shows "dragFrame (finVec (vx, vy, vz)) = finVec (dragged vx, dragged vy, dragged vz)
       \<and> magnitude (dragged vx, dragged vy, dragged vz) \<le> magnitude (vx, vy, vz)
       \<and> (16 * float32Unit \<le> magnitude (vx, vy, vz) \<longrightarrow>
            magnitude (dragged vx, dragged vy, dragged vz) < magnitude (vx, vy, vz))
       \<and> (magnitude (vx, vy, vz) \<le> 10 \<longrightarrow>
            (\<exists>w. (dragFrame ^^ 300) (finVec (vx, vy, vz)) = finVec w \<and>
                 magnitude w < 1 / 10 ^ 6))
       \<and> (1 \<le> k \<and> k \<le> 6 \<longrightarrow>
            dampedVelocity32 (Fin (of_int k * float32Unit)) (Fin 0) (Fin 0) (Fin 0) =
              Fin (of_int k * float32Unit))"
proof (intro conjI impI)
  have fx: "roundBinary 24 (-126) vx = vx" "roundBinary 24 (-126) vy = vy"
    "roundBinary 24 (-126) vz = vz"
    using assms unfolding float32_fixed by simp_all
  have le: "\<bar>dragged vx\<bar> \<le> \<bar>vx\<bar>" "\<bar>dragged vy\<bar> \<le> \<bar>vy\<bar>" "\<bar>dragged vz\<bar> \<le> \<bar>vz\<bar>"
    using fx by (simp_all only: dragged_le(2))
  show "dragFrame (finVec (vx, vy, vz)) = finVec (dragged vx, dragged vy, dragged vz)"
    using assms by (rule dragFrame_finVec)
  show "magnitude (dragged vx, dragged vy, dragged vz) \<le> magnitude (vx, vy, vz)"
    using le by (rule magnitude_mono)
  {
    assume big: "16 * float32Unit \<le> magnitude (vx, vy, vz)"
    have "8 * float32Unit \<le> \<bar>vx\<bar> \<or> 8 * float32Unit \<le> \<bar>vy\<bar> \<or> 8 * float32Unit \<le> \<bar>vz\<bar>"
    proof (rule ccontr)
      assume "\<not> ?thesis"
      then have "\<bar>vx\<bar> < 8 * float32Unit" "\<bar>vy\<bar> < 8 * float32Unit" "\<bar>vz\<bar> < 8 * float32Unit"
        by simp_all
      then have "magnitude (vx, vy, vz) < 2 * (8 * float32Unit)" by (rule magnitude_less)
      with big show False by simp
    qed
    then have "\<bar>dragged vx\<bar> < \<bar>vx\<bar> \<or> \<bar>dragged vy\<bar> < \<bar>vy\<bar> \<or> \<bar>dragged vz\<bar> < \<bar>vz\<bar>"
      using dragged_strict[of vx] dragged_strict[of vy] dragged_strict[of vz] by blast
    with le show "magnitude (dragged vx, dragged vy, dragged vz) < magnitude (vx, vy, vz)"
      by (rule magnitude_strict_mono)
  }
  {
    assume m: "magnitude (vx, vy, vz) \<le> 10"
    let ?w = "((dragged ^^ 300) vx, (dragged ^^ 300) vy, (dragged ^^ 300) vz)"
    have run: "(dragFrame ^^ 300) (finVec (vx, vy, vz)) = finVec ?w"
      using dragFrame_funpow[OF assms, of 300] by simp
    have small: "\<bar>(dragged ^^ 300) x\<bar> < 1 / 2000000" if "\<bar>x\<bar> \<le> 10" for x
    proof -
      have "\<bar>(dragged ^^ 300) x\<bar> \<le> (93 / 100) ^ 300 * \<bar>x\<bar> + 30 * float32Unit"
        by (rule dragged_funpow_bound)
      moreover have "(93 / 100 :: real) ^ 300 * \<bar>x\<bar> \<le> (93 / 100) ^ 300 * 10"
        using that by (intro mult_left_mono) simp_all
      ultimately show ?thesis using drag_power_small float32Unit_pos by linarith
    qed
    have "\<bar>vx\<bar> \<le> 10" using component_le_magnitude(1)[of vx vy vz] m by linarith
    moreover have "\<bar>vy\<bar> \<le> 10" using component_le_magnitude(2)[of vy vx vz] m by linarith
    moreover have "\<bar>vz\<bar> \<le> 10" using component_le_magnitude(3)[of vz vx vy] m by linarith
    ultimately have "magnitude ?w < 2 * (1 / 2000000)"
      by (intro magnitude_less small)
    then have "magnitude ?w < 1 / 10 ^ 6" by simp
    with run show "\<exists>w. (dragFrame ^^ 300) (finVec (vx, vy, vz)) = finVec w \<and>
                 magnitude w < 1 / 10 ^ 6" by blast
  }
  {
    assume k: "1 \<le> k \<and> k \<le> 6"
    then have "\<bar>k\<bar> < 2 ^ 24" by simp
    then have "float32 (Fin (of_int k * float32Unit)) = Fin (of_int k * float32Unit)"
      by (rule float32_units)
    from dampedVelocity32_zero(1)[OF this] k
    show "dampedVelocity32 (Fin (of_int k * float32Unit)) (Fin 0) (Fin 0) (Fin 0) =
            Fin (of_int k * float32Unit)"
      by (simp only: dragged_units)
  }
qed

theorem damping_convergence_witness:
  "float32 (Fin 10) = Fin 10 \<and> float32 (Fin 0) = Fin 0
   \<and> magnitude (10, 0, 0) = 10
   \<and> dragFrame (finVec (10, 0, 0)) = finVec (dragged 10, dragged 0, dragged 0)
   \<and> magnitude (dragged 10, dragged 0, dragged 0) < magnitude (10, 0, 0)
   \<and> (\<exists>w. (dragFrame ^^ 300) (finVec (10, 0, 0)) = finVec w \<and> magnitude w < 1 / 10 ^ 6)
   \<and> dampedVelocity32 (Fin (of_int 6 * float32Unit)) (Fin 0) (Fin 0) (Fin 0) =
        Fin (of_int 6 * float32Unit)"
proof -
  have m: "magnitude (10, 0, 0) = 10" by (simp add: magnitude_def)
  have big: "16 * float32Unit \<le> magnitude (10, 0, 0)"
    unfolding m using float32Unit_pos by linarith
  have le: "magnitude (10, 0, 0) \<le> 10" unfolding m by simp
  have k: "(1::int) \<le> 6 \<and> (6::int) \<le> 6" by simp
  from damping_convergence[OF float32_ten float32_zero float32_zero, of 6] big le k
    float32_ten float32_zero m
  show ?thesis by blast
qed

subsection \<open>Shape fields\<close>

lemma completeField_empty: "completeField 0 Map.empty"
  by (simp add: completeField_def)

lemma writePoint_complete:
  assumes "completeField m arr"
  shows "completeField (Suc m) (writePoint m (Some p) arr)"
proof -
  obtain x y z where p: "p = (x, y, z)" by (cases p)
  have d: "dom arr = {..<3 * m}" and v: "\<And>k. k < 3 * m \<Longrightarrow> \<exists>v. arr k = Some (Fin v)"
    using assms unfolding completeField_def by blast+
  have "dom (writePoint m (Some p) arr) = {..<3 * Suc m}"
    unfolding p writePoint_def Let_def using d by auto
  moreover have "\<exists>v. writePoint m (Some p) arr k = Some (Fin v)" if "k < 3 * Suc m" for k
  proof (cases "k < 3 * m")
    case True
    from v[OF True] show ?thesis
      unfolding p writePoint_def Let_def by auto
  next
    case False
    with that have "k = m * 3 \<or> k = m * 3 + 1 \<or> k = m * 3 + 2" by presburger
    then show ?thesis
      unfolding p writePoint_def Let_def by auto
  qed
  ultimately show ?thesis unfolding completeField_def by blast
qed

lemma fillPoints_snoc:
  "fillPoints point (xs @ [i]) st =
     (case fillPoints point xs st of
        (arr, c) \<Rightarrow> (case point i c of (p, c') \<Rightarrow> (writePoint i p arr, c')))"
  by (simp add: fillPoints_def split_beta)

lemma fillPoints_complete:
  assumes good: "\<And>i c. a \<le> i \<Longrightarrow> i < b \<Longrightarrow> fst (point i c) \<noteq> None"
    and start: "completeField a arr"
  shows "a \<le> b \<Longrightarrow> completeField b (fst (fillPoints point [a..<b] (arr, c)))"
  using good
proof (induction b)
  case 0
  then show ?case using start by (simp add: fillPoints_def)
next
  case (Suc b)
  show ?case
  proof (cases "a = Suc b")
    case True
    then show ?thesis using start by (simp add: fillPoints_def)
  next
    case False
    with Suc.prems(1) have ab: "a \<le> b" by simp
    have ih: "completeField b (fst (fillPoints point [a..<b] (arr, c)))"
      using Suc.IH[OF ab] Suc.prems(2) by simp
    obtain arr1 c1 where f: "fillPoints point [a..<b] (arr, c) = (arr1, c1)"
      by (cases "fillPoints point [a..<b] (arr, c)")
    from Suc.prems(2)[OF ab, of c1] obtain p c' where pt: "point b c1 = (Some p, c')"
      by (cases "point b c1") auto
    have "fillPoints point [a..<Suc b] (arr, c) = (writePoint b (Some p) arr1, c')"
      using ab f pt by (simp add: fillPoints_snoc)
    with ih f show ?thesis by (simp add: writePoint_complete)
  qed
qed

lemma jacos_Fin: "-1 \<le> x \<Longrightarrow> x \<le> 1 \<Longrightarrow> \<exists>phi. jacos x = Fin phi"
  by (simp add: jacos_def)

lemma earthPoint_Some:
  assumes "i < n"
  shows "fst (earthPoint n i c) \<noteq> None"
proof -
  have "0 \<le> (2 * real i) / real n" by simp
  moreover have "(2 * real i) / real n \<le> 2"
    using assms by (simp add: field_simps)
  ultimately obtain phi where "jacos (-1 + (2 * real i) / real n) = Fin phi"
    using jacos_Fin[of "-1 + (2 * real i) / real n"] by auto
  then show ?thesis by (simp add: earthPoint_def Let_def)
qed

lemma spherePoint_Some:
  assumes "randomSequence rnd"
  shows "\<exists>p. spherePoint rnd cx cy cz r c = (Some p, c + 2)"
proof -
  have "0 \<le> rnd (c + 1)" "rnd (c + 1) < 1"
    using assms unfolding randomSequence_def by blast+
  then obtain phi where "jacos (2 * rnd (c + 1) - 1) = Fin phi"
    using jacos_Fin[of "2 * rnd (c + 1) - 1"] by auto
  then show ?thesis by (simp add: spherePoint_def Let_def)
qed

lemma total_points:
  "fst (heartPoint rnd i c) \<noteq> None"
  "fst (flowerPoint rnd i c) \<noteq> None"
  "fst (saturnRingPoint rnd i c) \<noteq> None"
  "fst (galaxyPoint rnd i c) \<noteq> None"
  "fst (dnaPoint rnd i c) \<noteq> None"
  "fst (cubePoint rnd i c) \<noteq> None"
  "fst (mobiusPoint rnd i c) \<noteq> None"
  by (simp_all add: heartPoint_def flowerPoint_def saturnRingPoint_def galaxyPoint_def
      dnaPoint_def cubePoint_def mobiusPoint_def Let_def)

lemma generateEarth_complete: "completeField n (fst (generateEarth n rnd c))"
  unfolding generateEarth_def
  by (rule fillPoints_complete[OF _ completeField_empty]) (simp_all add: earthPoint_Some)

lemma generate_loops_complete:
  "completeField n (fst (generateHeart n rnd c))"
  "completeField n (fst (generateFlower n rnd c))"
  "completeField n (fst (generateGalaxy n rnd c))"
  "completeField n (fst (generateDNA n rnd c))"
  "completeField n (fst (generateQuantumCube n rnd c))"
  "completeField n (fst (generateMobiusStrip n rnd c))"
  unfolding generateHeart_def generateFlower_def generateGalaxy_def generateDNA_def
    generateQuantumCube_def generateMobiusStrip_def
  by (rule fillPoints_complete[OF _ completeField_empty]; simp add: total_points)+

lemma generateSaturn_complete:
  assumes "randomSequence rnd"
  shows "completeField n (fst (generateSaturn n rnd c))"
proof -
  let ?pl = "nat \<lfloor>real n * 0.4\<rfloor>"
  have "\<lfloor>real n * 0.4\<rfloor> \<le> int n"
  proof -
    have "real n * 0.4 \<le> real n" by simp
    then have "\<lfloor>real n * 0.4\<rfloor> \<le> \<lfloor>real n\<rfloor>" by (rule floor_mono)
    then show ?thesis by simp
  qed
  then have le: "?pl \<le> n" by simp
  have sphere_ok: "fst (spherePoint rnd 0 0 0 9 c) \<noteq> None" for c
    using spherePoint_Some[OF assms, of 0 0 0 9 c] by auto
  obtain arr1 c1 where
    f: "fillPoints (\<lambda>i. spherePoint rnd 0 0 0 9) [0..<?pl] (Map.empty, c) = (arr1, c1)"
    by (cases "fillPoints (\<lambda>i. spherePoint rnd 0 0 0 9) [0..<?pl] (Map.empty, c)")
  have "completeField ?pl (fst (fillPoints (\<lambda>i. spherePoint rnd 0 0 0 9) [0..<?pl] (Map.empty, c)))"
    by (rule fillPoints_complete[OF _ completeField_empty])
       (use spherePoint_Some[OF assms] in \<open>simp_all add: sphere_ok\<close>)
  then have c1: "completeField ?pl arr1" using f by simp
  have "completeField n (fst (fillPoints (saturnRingPoint rnd) [?pl..<n] (arr1, c1)))"
    by (rule fillPoints_complete[OF _ c1 le]) (simp add: total_points)
  then show ?thesis
    unfolding generateSaturn_def Let_def f .
qed

lemma addSphere_inv:
  assumes "randomSequence rnd"
  shows "completeField idx arr \<Longrightarrow> idx \<le> n \<Longrightarrow>
         (case addSphere n rnd cx cy cz r k (arr, idx, c) of
            (arr', idx', c') \<Rightarrow> completeField idx' arr' \<and> idx' \<le> n)"
proof (induction k arbitrary: arr idx c)
  case 0
  then show ?case by simp
next
  case (Suc k)
  show ?case
  proof (cases "idx \<ge> n")
    case True
    with Suc.prems show ?thesis by simp
  next
    case False
    from spherePoint_Some[OF assms, of cx cy cz r c]
    obtain p where p: "spherePoint rnd cx cy cz r c = (Some p, c + 2)" by blast
    have "completeField (idx + 1) (writePoint idx (Some p) arr)"
      using writePoint_complete[OF Suc.prems(1)] by simp
    moreover have "idx + 1 \<le> n" using False by simp
    ultimately show ?thesis
      using False p Suc.IH[of "idx + 1" "writePoint idx (Some p) arr" "c + 2"] by simp
  qed
qed

lemma buddhaRing_complete:
  "completeField idx arr \<Longrightarrow> idx \<le> n \<Longrightarrow>
   completeField n (fst (buddhaRing n rnd (arr, idx, c)))"
proof (induction n rnd "(arr, idx, c)" arbitrary: arr idx c rule: buddhaRing.induct)
  case (1 n rnd arr idx c)
  show ?case
  proof (cases "idx < n")
    case True
    let ?p = "((15 + rnd (c + 1) * 3) * cos (rnd c * pi * 2), (rnd (c + 2) - 0.5) * 28,
               (15 + rnd (c + 1) * 3) * sin (rnd c * pi * 2))"
    have cf: "completeField (idx + 1) (writePoint idx (Some ?p) arr)"
      using writePoint_complete[OF "1.prems"(1)] by simp
    have "completeField n (fst (buddhaRing n rnd (writePoint idx (Some ?p) arr, idx + 1, c + 3)))"
      using "1.hyps"[OF True refl refl cf] True by simp
    then show ?thesis
      using True by (subst buddhaRing.simps) (simp add: Let_def)
  next
    case False
    with "1.prems" have "idx = n" by simp
    with "1.prems"(1) show ?thesis
      by (subst buddhaRing.simps) simp
  qed
qed

lemma generateBuddha_complete:
  assumes "randomSequence rnd"
  shows "completeField n (fst (generateBuddha n rnd c))"
proof -
  note step = addSphere_inv[OF assms]
  obtain a1 i1 c1 where s1:
    "addSphere n rnd 0 (-6) 0 7 (iterations (real n * 0.35)) (Map.empty, 0, c) = (a1, i1, c1)"
    by (metis prod_cases3)
  have inv1: "completeField i1 a1 \<and> i1 \<le> n"
    using step[OF completeField_empty, of n 0 "-6" 0 7 "iterations (real n * 0.35)" c] s1 by simp
  obtain a2 i2 c2 where s2:
    "addSphere n rnd 0 2 0 4.5 (iterations (real n * 0.25)) (a1, i1, c1) = (a2, i2, c2)"
    by (metis prod_cases3)
  have inv2: "completeField i2 a2 \<and> i2 \<le> n"
    using step[of i1 a1 n 0 2 0 "4.5" "iterations (real n * 0.25)" c1] inv1 s2 by simp
  obtain a3 i3 c3 where s3:
    "addSphere n rnd 0 7.5 0 3 (iterations (real n * 0.15)) (a2, i2, c2) = (a3, i3, c3)"
    by (metis prod_cases3)
  have inv3: "completeField i3 a3 \<and> i3 \<le> n"
    using step[of i2 a2 n 0 "7.5" 0 3 "iterations (real n * 0.15)" c2] inv2 s3 by simp
  obtain a4 i4 c4 where s4:
    "addSphere n rnd (-4.5) 1 0 2 (iterations (real n * 0.05)) (a3, i3, c3) = (a4, i4, c4)"
    by (metis prod_cases3)
  have inv4: "completeField i4 a4 \<and> i4 \<le> n"
    using step[of i3 a3 n "-4.5" 1 0 2 "iterations (real n * 0.05)" c3] inv3 s4 by simp
  obtain a5 i5 c5 where s5:
    "addSphere n rnd 4.5 1 0 2 (iterations (real n * 0.05)) (a4, i4, c4) = (a5, i5, c5)"
    by (metis prod_cases3)
  have inv5: "completeField i5 a5 \<and> i5 \<le> n"
    using step[of i4 a4 n "4.5" 1 0 2 "iterations (real n * 0.05)" c4] inv4 s5 by simp
  have "completeField n (fst (buddhaRing n rnd (a5, i5, c5)))"
    using inv5 by (intro buddhaRing_complete) simp_all
  then show ?thesis
    unfolding generateBuddha_def Let_def s1 s2 s3 s4 s5 by (simp add: split_beta)
qed

lemma generateShapes_table:
  "fst (generateShapes n rnd) ''earth'' = Some (fst (generateEarth n rnd 0))"
  "\<exists>c. fst (generateShapes n rnd) ''heart'' = Some (fst (generateHeart n rnd c))"
  "\<exists>c. fst (generateShapes n rnd) ''flower'' = Some (fst (generateFlower n rnd c))"
  "\<exists>c. fst (generateShapes n rnd) ''saturn'' = Some (fst (generateSaturn n rnd c))"
  "\<exists>c. fst (generateShapes n rnd) ''buddha'' = Some (fst (generateBuddha n rnd c))"
  "\<exists>c. fst (generateShapes n rnd) ''galaxy'' = Some (fst (generateGalaxy n rnd c))"
  "\<exists>c. fst (generateShapes n rnd) ''dna'' = Some (fst (generateDNA n rnd c))"
  "\<exists>c. fst (generateShapes n rnd) ''cube'' = Some (fst (generateQuantumCube n rnd c))"
  "\<exists>c. fst (generateShapes n rnd) ''mobius'' = Some (fst (generateMobiusStrip n rnd c))"
  by (simp_all add: generateShapes_def split_beta) blast+

text \<open>
  C9. For every supported shape name and every sequence of \<^verbatim>\<open>Math.random()\<close> results
  (numbers in [0, 1)), the table that \<^verbatim>\<open>generateShapes\<close> builds holds under that name
  an array in which exactly the \<open>3 * n\<close> slots of the \<open>n\<close> particles have been written,
  and every one of them holds a finite number, not NaN: every argument of \<^verbatim>\<open>Math.acos\<close> is
  within [-1, 1].
\<close>

theorem shape_fields_complete:
  assumes "randomSequence rnd" and "name \<in> set shapeNames"
  shows "\<exists>arr. fst (generateShapes n rnd) name = Some arr \<and> completeField n arr"
proof -
  from assms(2) have "name = ''earth'' \<or> name = ''heart'' \<or> name = ''flower''
    \<or> name = ''saturn'' \<or> name = ''buddha'' \<or> name = ''galaxy'' \<or> name = ''dna''
    \<or> name = ''cube'' \<or> name = ''mobius''"
    by (simp add: shapeNames_def)
  then show ?thesis
  proof (elim disjE)
    assume "name = ''earth''"
    then show ?thesis
      using generateShapes_table(1)[of n rnd] generateEarth_complete by metis
  next
    assume "name = ''heart''"
    then show ?thesis
      using generateShapes_table(2)[of n rnd] generate_loops_complete(1) by metis
  next
    assume "name = ''flower''"
    then show ?thesis
      using generateShapes_table(3)[of n rnd] generate_loops_complete(2) by metis
  next
    assume "name = ''saturn''"
    then show ?thesis
      using generateShapes_table(4)[of n rnd] generateSaturn_complete[OF assms(1)] by metis
  next
    assume "name = ''buddha''"
    then show ?thesis
      using generateShapes_table(5)[of n rnd] generateBuddha_complete[OF assms(1)] by metis
  next
    assume "name = ''galaxy''"
    then show ?thesis
      using generateShapes_table(6)[of n rnd] generate_loops_complete(3) by metis
  next
    assume "name = ''dna''"
    then show ?thesis
      using generateShapes_table(7)[of n rnd] generate_loops_complete(4) by metis
  next
    assume "name = ''cube''"
    then show ?thesis
      using generateShapes_table(8)[of n rnd] generate_loops_complete(5) by metis
  next
    assume "name = ''mobius''"
    then show ?thesis
      using generateShapes_table(9)[of n rnd] generate_loops_complete(6) by metis
  qed
qed

lemma example_cube:
  "fst (generateQuantumCube 1 (\<lambda>k. 1 / 2) c) = [0 \<mapsto> Fin 0, 1 \<mapsto> Fin (-12), 2 \<mapsto> Fin 0]"
  by (simp add: generateQuantumCube_def fillPoints_def cubePoint_def writePoint_def Let_def
      numeral_2_eq_2)

theorem shape_fields_complete_witness:
  "randomSequence (\<lambda>k. 1 / 2)
   \<and> ''buddha'' \<in> set shapeNames
   \<and> (\<exists>arr. fst (generateShapes PARTICLE_COUNT (\<lambda>k. 1 / 2)) ''buddha'' = Some arr
            \<and> completeField PARTICLE_COUNT arr)
   \<and> (\<exists>arr. fst (generateShapes 1 (\<lambda>k. 1 / 2)) ''cube'' = Some arr
            \<and> completeField 1 arr
            \<and> arr = [0 \<mapsto> Fin 0, 1 \<mapsto> Fin (-12), 2 \<mapsto> Fin 0])"
proof -
  have r: "randomSequence (\<lambda>k. 1 / 2)" by (simp add: randomSequence_def)
  have b: "''buddha'' \<in> set shapeNames" and c: "''cube'' \<in> set shapeNames"
    by (simp_all add: shapeNames_def)
  have e: "fst (generateShapes 1 (\<lambda>k. 1 / 2)) ''cube'' =
             Some [0 \<mapsto> Fin 0, 1 \<mapsto> Fin (-12), 2 \<mapsto> Fin 0]"
  proof -
    from generateShapes_table(8)[of 1 "\<lambda>k. 1 / 2"] obtain c0 where
      "fst (generateShapes 1 (\<lambda>k. 1 / 2)) ''cube'' =
         Some (fst (generateQuantumCube 1 (\<lambda>k. 1 / 2) c0))" by blast
    then show ?thesis unfolding example_cube .
  qed
  from shape_fields_complete[OF r b, of PARTICLE_COUNT] shape_fields_complete[OF r c, of 1] r b e
  show ?thesis by auto
qed

subsection \<open>Degenerate geometry\<close>

lemma xsub_Fin: "xsub (Fin a) (Fin b) = Fin (a - b)"
  by (simp add: xsub_def)

lemma xgt_Fin: "xgt (Fin a) (Fin b) = (a > b)"
  by (simp add: xgt_def)

lemma xge_Fin: "xge (Fin a) (Fin b) = (a \<ge> b)"
  by (auto simp: xge_def)

lemma NaN_absorbs:
  "xadd a NaN = NaN" "xmul a NaN = NaN" "xsub a NaN = NaN" "xsub NaN a = NaN"
  "\<not> xlt a NaN" "\<not> xgt NaN a"
  by (cases a; simp add: xsub_def xgt_def)+

text \<open>What is not finite stays so through the sums and products of the ray's path.\<close>

lemma div_zero_not_finite: "xdiv negZero (Fin a) (Fin 0) \<in> {PInf, NInf, NaN}"
  by simp

lemma not_finite_steps:
  assumes "t \<in> {PInf, NInf, NaN}"
  shows "xmul (Fin a) t \<in> {PInf, NInf, NaN}"
    and "xadd (Fin a) t \<in> {PInf, NInf, NaN}"
    and "xsub (Fin a) t \<in> {PInf, NInf, NaN}"
    and "xmul t t \<in> {PInf, NaN}"
    and "xmul (Fin 0) t = NaN"
  using assms by (auto simp: xsub_def split: if_splits)

lemma inf_or_nan_sum:
  "a \<in> {PInf, NaN} \<Longrightarrow> b \<in> {PInf, NaN} \<Longrightarrow> xadd a b \<in> {PInf, NaN}"
  by auto

lemma inf_or_nan_not_less: "a \<in> {PInf, NaN} \<Longrightarrow> \<not> xlt a (Fin c)"
  by auto

lemma mouseRepulsionX_not_finite:
  assumes "dx \<in> {PInf, NInf, NaN}" "dy \<in> {PInf, NInf, NaN}"
  shows "mouseRepulsionX shape mouseX dx dy = (Fin 0, Fin 0, Fin 0)"
proof -
  have "xadd (xmul dx dx) (xmul dy dy) \<in> {PInf, NaN}"
    by (intro inf_or_nan_sum not_finite_steps(4) assms)
  then have "\<not> xlt (xadd (xmul dx dx) (xmul dy dy)) (Fin 150)"
    by (rule inf_or_nan_not_less)
  then show ?thesis by (simp add: mouseRepulsionX_def Let_def)
qed

lemma mouseRepulsionX_finite:
  "mouseRepulsionX shape mouseX (Fin dx) (Fin dy) = finVec (mouseRepulsion shape mouseX dx dy)"
  by (simp add: mouseRepulsionX_def mouseRepulsion_def finVec_def Let_def xsub_Fin xgt_Fin)

lemma sphereHitX_finite:
  "sphereHitX sc (finVec rayOrigin) (finVec rayDir) = sphereHit sc rayOrigin (Some rayDir)"
  by (cases rayOrigin; cases rayDir)
     (simp add: sphereHitX_def sphereHit_def finVec_def Let_def xsub_Fin xgt_Fin)

lemma pointerForceX_finite:
  "pointerForceX shape mouseX (finVec ip) (Fin px) (Fin py) =
     finVec (pointerForce shape mouseX (Some ip) px py)"
  by (cases ip)
     (simp add: pointerForceX_def pointerForce_def finVec_def xsub_Fin
        mouseRepulsionX_finite[unfolded finVec_def])

text \<open>The ray parallel to the plane.\<close>

lemma parallel_ray:
  fixes ox oy oz dx dy :: real and negZero :: bool
  defines "plane \<equiv> interactionPlaneX negZero (Fin ox, Fin oy, Fin oz) (Fin dx, Fin dy, Fin 0)"
  shows "\<not> sphereHitX sc (Fin ox, Fin oy, Fin oz) (fst plane)"
    and "pointerForceX shape mouseX (snd plane) (Fin px) (Fin py) = (Fin 0, Fin 0, Fin 0)"
proof -
  let ?t = "xdiv negZero (xsub (Fin 0) (Fin oz)) (Fin 0)"
  have t: "?t \<in> {PInf, NInf, NaN}"
    unfolding xsub_Fin by (rule div_zero_not_finite)
  have pl: "plane = ((xmul (Fin dx) ?t, xmul (Fin dy) ?t, xmul (Fin 0) ?t),
                     (xadd (Fin ox) (xmul (Fin dx) ?t), xadd (Fin oy) (xmul (Fin dy) ?t),
                      xadd (Fin oz) (xmul (Fin 0) ?t)))"
    by (simp add: plane_def interactionPlaneX_def Let_def)
  have z: "xmul (Fin 0) ?t = NaN" by (rule not_finite_steps(5)[OF t])
  show "\<not> sphereHitX sc (Fin ox, Fin oy, Fin oz) (fst plane)"
    unfolding pl by (simp add: sphereHitX_def Let_def z NaN_absorbs)
  have ix: "xsub (Fin px) (xadd (Fin ox) (xmul (Fin dx) ?t)) \<in> {PInf, NInf, NaN}"
    by (intro not_finite_steps(1-3) t)
  have iy: "xsub (Fin py) (xadd (Fin oy) (xmul (Fin dy) ?t)) \<in> {PInf, NInf, NaN}"
    by (intro not_finite_steps(1-3) t)
  show "pointerForceX shape mouseX (snd plane) (Fin px) (Fin py) = (Fin 0, Fin 0, Fin 0)"
    unfolding pl by (simp only: pointerForceX_def snd_conv prod.case mouseRepulsionX_not_finite[OF ix iy])
qed

text \<open>
  The ray's path on \<open>jsnum\<close> against the path on the reals, whose result \<open>None\<close> stands
  for the parallel ray.
\<close>

lemma ray_refines:
  fixes rayOrigin rayDirection :: vec3 and negZero :: bool
  defines "planeX \<equiv> interactionPlaneX negZero (finVec rayOrigin) (finVec rayDirection)"
  defines "plane \<equiv> interactionPlane rayOrigin rayDirection"
  shows "sphereHitX sc (finVec rayOrigin) (fst planeX) = sphereHit sc rayOrigin (map_option fst plane)"
    and "pointerForceX shape mouseX (snd planeX) (Fin px) (Fin py) =
           finVec (pointerForce shape mouseX (map_option snd plane) px py)"
proof -
  obtain ox oy oz where o: "rayOrigin = (ox, oy, oz)" by (cases rayOrigin)
  obtain dx dy dz where d: "rayDirection = (dx, dy, dz)" by (cases rayDirection)
  have "sphereHitX sc (finVec rayOrigin) (fst planeX) = sphereHit sc rayOrigin (map_option fst plane)
      \<and> pointerForceX shape mouseX (snd planeX) (Fin px) (Fin py) =
           finVec (pointerForce shape mouseX (map_option snd plane) px py)"
  proof (cases "dz = 0")
    case True
    have n: "plane = None"
      unfolding plane_def o d using True by (simp add: interactionPlane_def)
    have x: "planeX = interactionPlaneX negZero (Fin ox, Fin oy, Fin oz) (Fin dx, Fin dy, Fin 0)"
      unfolding planeX_def o d using True by (simp add: finVec_def)
    show ?thesis
      unfolding n x using parallel_ray(1)[where sc = sc and ox = ox and oy = oy and oz = oz and dx = dx and dy = dy
          and negZero = negZero]
        parallel_ray(2)[where ox = ox and oy = oy and oz = oz and dx = dx and dy = dy
          and negZero = negZero and shape = shape and mouseX = mouseX and px = px and py = py]
      by (simp add: sphereHit_def pointerForce_def finVec_def o)
  next
    case False
    let ?t = "(0 - oz) / dz"
    have p: "plane = Some ((dx * ?t, dy * ?t, dz * ?t), (ox + dx * ?t, oy + dy * ?t, oz + dz * ?t))"
      unfolding plane_def o d using False by (simp add: interactionPlane_def Let_def)
    have x: "planeX = (finVec (dx * ?t, dy * ?t, dz * ?t),
                       finVec (ox + dx * ?t, oy + dy * ?t, oz + dz * ?t))"
      unfolding planeX_def o d using False
      by (simp add: interactionPlaneX_def finVec_def Let_def xsub_Fin)
    show ?thesis
      unfolding p x by (simp only: fst_conv snd_conv option.map sphereHitX_finite
          pointerForceX_finite simp_thms)
  qed
  then show "sphereHitX sc (finVec rayOrigin) (fst planeX) = sphereHit sc rayOrigin (map_option fst plane)"
    and "pointerForceX shape mouseX (snd planeX) (Fin px) (Fin py) =
           finVec (pointerForce shape mouseX (map_option snd plane) px py)"
    by simp_all
qed

text \<open>The particle loop and the collision pass on \<open>jsnum\<close> against those on the reals.\<close>

lemma finiteState_sel:
  "xpositions (finiteState s) k = Fin (positions s k)"
  "xvelocities (finiteState s) k = Fin (velocities s k)"
  "xgridHead (finiteState s) = gridHead s"
  "xgridNext (finiteState s) = gridNext s"
  "xrandomCalls (finiteState s) = randomCalls s"
  by (simp_all add: finiteState_def)

lemma finiteState_positions: "xpositions (finiteState s) = (\<lambda>k. Fin (positions s k))"
  by (simp add: finiteState_def)

lemma particleCellX_finite: "particleCellX (\<lambda>k. Fin (pos k)) i = particleCell pos i"
  by (simp add: particleCellX_def particleCell_def gridCoord_def inGrid_def Let_def xge_Fin
      GRID_DIM_def CELL_SIZE_def)

lemma gridInsertX_refines: "gridInsertX i (finiteState s) = finiteState (gridInsert i s)"
  by (simp add: gridInsertX_def gridInsert_def finiteState_def particleCellX_finite
      split: option.split)

lemma scanJitterX_finite:
  assumes "currentShape s1 = currentShape s" "time s1 = time s"
  shows "scanJitterX rnd sc (Fin py) tx tz s1 (randomCalls s) = scanJitter rnd sc py tx tz s"
  using assms by (simp add: scanJitterX_def scanJitter_def Let_def xsub_Fin)

lemma dampedVelocityX_finite:
  "dampedVelocityX (Fin v) (springForceX t (Fin p)) (Fin r) (Fin a) =
     Fin (dampedVelocity v (springForce t p) r a)"
  by (simp add: dampedVelocityX_def springForceX_def dampedVelocity_def springForce_def xsub_Fin)

lemma finiteState_step:
  "(finiteState s)\<lparr>xvelocities := (xvelocities (finiteState s))(a := Fin va, b := Fin vb, c := Fin vc),
                   xpositions := (xpositions (finiteState s))(a := Fin pa, b := Fin pb, c := Fin pc),
                   xrandomCalls := r\<rparr> =
   finiteState (s\<lparr>velocities := (velocities s)(a := va, b := vb, c := vc),
                  positions := (positions s)(a := pa, b := pb, c := pc),
                  randomCalls := r\<rparr>)"
  by (simp add: finiteState_def fun_eq_iff)

lemma particleStepX_refines:
  assumes agree: "currentShape s1 = currentShape s" "time s1 = time s" "mouse s1 = mouse s"
      "shockwave s1 = shockwave s" "physicsEnabled s1 = physicsEnabled s"
    and force: "\<And>px py. pointerForceX (currentShape s) (fst (mouse s)) ipX (Fin px) (Fin py) =
                  finVec (pointerForce (currentShape s) (fst (mouse s)) ip px py)"
  shows "particleStepX tp sc ipX rnd s1 i (finiteState s) = finiteState (particleStep tp sc ip rnd i s)"
proof -
  let ?px = "positions s (i * 3)" and ?py = "positions s (i * 3 + 1)"
  let ?pz = "positions s (i * 3 + 2)"
  obtain tx tz c1 where sj: "scanJitter rnd sc ?py (tp (i * 3) * sc) (tp (i * 3 + 2) * sc) s = (tx, tz, c1)"
    by (metis prod_cases3)
  obtain rx ry rz where pf: "pointerForce (currentShape s) (fst (mouse s)) ip ?px ?py = (rx, ry, rz)"
    by (metis prod_cases3)
  obtain ax ay az c2 where aj: "audioJitter rnd (shockwave s) c1 = ((ax, ay, az), c2)"
    by (metis prod_cases3 surj_pair)
  have sjx: "scanJitterX rnd sc (Fin ?py) (tp (i * 3) * sc) (tp (i * 3 + 2) * sc) s1 (randomCalls s)
               = (tx, tz, c1)"
    using scanJitterX_finite[OF agree(1,2)] sj by simp
  have pfx: "pointerForceX (currentShape s) (fst (mouse s)) ipX (Fin ?px) (Fin ?py) = (Fin rx, Fin ry, Fin rz)"
    using force[of ?px ?py] pf by (simp add: finVec_def)
  let ?vx = "dampedVelocity (velocities s (i * 3)) (springForce tx ?px) rx ax"
  let ?vy = "dampedVelocity (velocities s (i * 3 + 1)) (springForce (tp (i * 3 + 1) * sc) ?py) ry ay"
  let ?vz = "dampedVelocity (velocities s (i * 3 + 2)) (springForce tz ?pz) rz az"
  let ?s1 = "s\<lparr>velocities := (velocities s)(i * 3 := ?vx, i * 3 + 1 := ?vy, i * 3 + 2 := ?vz),
               positions := (positions s)(i * 3 := ?px + ?vx, i * 3 + 1 := ?py + ?vy,
                                          i * 3 + 2 := ?pz + ?vz),
               randomCalls := c2\<rparr>"
  have real_step: "particleStep tp sc ip rnd i s =
                     (if physicsEnabled s then gridInsert i ?s1 else ?s1)"
    unfolding particleStep_def particleForces_def Let_def sj prod.case pf aj by simp
  have x_step: "particleStepX tp sc ipX rnd s1 i (finiteState s) =
                  (if physicsEnabled s then gridInsertX i (finiteState ?s1) else finiteState ?s1)"
    unfolding particleStepX_def Let_def finiteState_sel agree sjx prod.case pfx aj
      dampedVelocityX_finite xadd.simps finiteState_step ..
  show ?thesis
    unfolding real_step x_step by (simp add: gridInsertX_refines)
qed

lemma particleStep_readonly:
  "currentShape (particleStep tp sc ip rnd i s) = currentShape s"
  "time (particleStep tp sc ip rnd i s) = time s"
  "mouse (particleStep tp sc ip rnd i s) = mouse s"
  "shockwave (particleStep tp sc ip rnd i s) = shockwave s"
  "physicsEnabled (particleStep tp sc ip rnd i s) = physicsEnabled s"
  by (simp_all add: particleStep_def Let_def split_beta gridInsert_def split: option.split)

lemma fold_particleStepX_refines:
  assumes force: "\<And>px py. pointerForceX (currentShape s1) (fst (mouse s1)) ipX (Fin px) (Fin py) =
                    finVec (pointerForce (currentShape s1) (fst (mouse s1)) ip px py)"
  shows "currentShape s1 = currentShape s \<Longrightarrow> time s1 = time s \<Longrightarrow> mouse s1 = mouse s \<Longrightarrow>
         shockwave s1 = shockwave s \<Longrightarrow> physicsEnabled s1 = physicsEnabled s \<Longrightarrow>
         fold (particleStepX tp sc ipX rnd s1) xs (finiteState s) =
           finiteState (fold (particleStep tp sc ip rnd) xs s)"
proof (induction xs arbitrary: s)
  case Nil
  show ?case by simp
next
  case (Cons x xs)
  have f: "\<And>px py. pointerForceX (currentShape s) (fst (mouse s)) ipX (Fin px) (Fin py) =
             finVec (pointerForce (currentShape s) (fst (mouse s)) ip px py)"
    using force Cons.prems(1,3) by simp
  have step: "particleStepX tp sc ipX rnd s1 x (finiteState s) =
                finiteState (particleStep tp sc ip rnd x s)"
    by (rule particleStepX_refines[OF Cons.prems f])
  have "fold (particleStepX tp sc ipX rnd s1) xs (finiteState (particleStep tp sc ip rnd x s)) =
          finiteState (fold (particleStep tp sc ip rnd) xs (particleStep tp sc ip rnd x s))"
    by (rule Cons.IH) (simp_all only: particleStep_readonly Cons.prems)
  then show ?case by (simp add: step)
qed

lemma fin_upd: "(\<lambda>k. Fin (f k))(a := Fin v) = (\<lambda>k. Fin ((f(a := v)) k))"
  by (simp add: fun_eq_iff)

lemma resolvePairX_finite:
  "resolvePairX i j (Fin px) (Fin py) (Fin pz) (\<lambda>k. Fin (pos k)) =
     (\<lambda>k. Fin (resolvePair i j px py pz pos k))"
proof -
  let ?d2 = "(px - pos (j * 3)) * (px - pos (j * 3)) +
             (py - pos (j * 3 + 1)) * (py - pos (j * 3 + 1)) +
             (pz - pos (j * 3 + 2)) * (pz - pos (j * 3 + 2))"
  show ?thesis
  proof (cases "0 < ?d2 \<and> ?d2 < COLLISION_RADIUS * COLLISION_RADIUS")
    case False
    show ?thesis
      by (simp only: resolvePairX_def resolvePair_def Let_def xsub_Fin xmul.simps xadd.simps
          xgt_Fin xlt.simps False if_False)
  next
    case True
    then have r: "0 \<le> ?d2" "sqrt ?d2 \<noteq> 0" by simp_all
    show ?thesis
      by (simp only: resolvePairX_def resolvePair_def Let_def xsub_Fin xmul.simps xadd.simps
          xgt_Fin xlt.simps True if_True xsqrt.simps xdiv.simps r simp_thms fin_upd)
  qed
qed

lemma collisionWalkX_finite:
  "collisionWalkX nxt i (Fin px) (Fin py) (Fin pz) neighbor checks (\<lambda>k. Fin (pos k)) =
     (\<lambda>k. Fin (fst (collisionWalk nxt i px py pz neighbor checks pos) k),
      snd (collisionWalk nxt i px py pz neighbor checks pos))"
proof (induction nxt i px py pz neighbor checks pos rule: collisionWalk.induct)
  case (1 nxt i px py pz neighbor checks pos)
  show ?case
  proof (cases "neighbor \<noteq> -1 \<and> checks < 8")
    case False
    have "collisionWalk nxt i px py pz neighbor checks pos = (pos, checks)"
      by (subst collisionWalk.simps) (simp only: False if_False simp_thms)
    moreover have "collisionWalkX nxt i (Fin px) (Fin py) (Fin pz) neighbor checks (\<lambda>k. Fin (pos k))
                     = (\<lambda>k. Fin (pos k), checks)"
      by (subst collisionWalkX.simps) (simp only: False if_False simp_thms)
    ultimately show ?thesis by simp
  next
    case True
    let ?pos' = "if neighbor \<noteq> int i then resolvePair i (nat neighbor) px py pz pos else pos"
    have r: "collisionWalk nxt i px py pz neighbor checks pos =
               collisionWalk nxt i px py pz (nxt (nat neighbor)) (checks + 1) ?pos'"
      by (subst collisionWalk.simps) (simp only: True if_True simp_thms)
    have arr: "(if neighbor \<noteq> int i
                then resolvePairX i (nat neighbor) (Fin px) (Fin py) (Fin pz) (\<lambda>k. Fin (pos k))
                else (\<lambda>k. Fin (pos k))) = (\<lambda>k. Fin (?pos' k))"
      by (simp add: resolvePairX_finite)
    have x: "collisionWalkX nxt i (Fin px) (Fin py) (Fin pz) neighbor checks (\<lambda>k. Fin (pos k)) =
               collisionWalkX nxt i (Fin px) (Fin py) (Fin pz) (nxt (nat neighbor)) (checks + 1)
                 (\<lambda>k. Fin (?pos' k))"
      by (subst collisionWalkX.simps) (simp only: True if_True simp_thms arr)
    show ?thesis
      unfolding r x by (rule "1.IH"[OF True])
  qed
qed

lemma collisionParticleX_refines:
  "collisionParticleX i (finiteState s) = finiteState (collisionParticle i s)"
proof (cases "particleCell (positions s) i")
  case None
  then show ?thesis
    by (simp add: collisionParticleX_def collisionParticle_def Let_def finiteState_positions
        particleCellX_finite)
next
  case (Some c)
  then show ?thesis
    by (simp add: collisionParticleX_def collisionParticle_def Let_def finiteState_positions
        particleCellX_finite finiteState_sel collisionWalkX_finite)
       (simp add: finiteState_def)
qed

lemma fold_collisionParticleX_refines:
  "fold collisionParticleX xs (finiteState s) = finiteState (fold collisionParticle xs s)"
  by (induction xs arbitrary: s) (simp_all add: collisionParticleX_refines)

lemma pinchDetection_arrays:
  "finiteState (fst (pinchDetection hit s)) = finiteState s"
  "currentShape (fst (pinchDetection hit s)) = currentShape s"
  "mouse (fst (pinchDetection hit s)) = mouse s"
  "physicsEnabled (fst (pinchDetection hit s)) = physicsEnabled s"
  by (simp_all add: pinchDetection_def finiteState_def)

lemma frameBodyX_refines:
  "fst (frameBodyX n tp sc negZero rayOrigin rayDirection rnd s (finiteState s)) =
     finiteState (fst (frameBody n tp sc rayOrigin rayDirection rnd s))"
  "snd (snd (frameBodyX n tp sc negZero rayOrigin rayDirection rnd s (finiteState s))) =
     snd (frameBody n tp sc rayOrigin rayDirection rnd s)"
proof -
  let ?planeX = "interactionPlaneX negZero (finVec rayOrigin) (finVec rayDirection)"
  let ?plane = "interactionPlane rayOrigin rayDirection"
  have hit: "sphereHitX sc (finVec rayOrigin) (fst ?planeX) =
               sphereHit sc rayOrigin (map_option fst ?plane)"
    by (rule ray_refines(1))
  let ?pd = "pinchDetection (sphereHit sc rayOrigin (map_option fst ?plane)) s"
  let ?s1 = "fst ?pd"
  have loop: "particleLoopX n tp sc (snd ?planeX) rnd ?s1 (finiteState s) =
                finiteState (particleLoop n tp sc (map_option snd ?plane) rnd ?s1)"
  proof -
    have fs: "finiteState s = finiteState ?s1" by (simp only: pinchDetection_arrays)
    show ?thesis
      unfolding particleLoopX_def particleLoop_def
      by (subst fs) (rule fold_particleStepX_refines[OF ray_refines(2)], simp_all)
  qed
  have pe: "physicsEnabled (particleLoop n tp sc (map_option snd ?plane) rnd ?s1) = physicsEnabled ?s1"
    by (simp add: particleLoop_fields)
  have coll: "collisionResolutionX n ?s1 (finiteState (particleLoop n tp sc (map_option snd ?plane) rnd ?s1)) =
                finiteState (collisionResolution n (particleLoop n tp sc (map_option snd ?plane) rnd ?s1))"
    unfolding collisionResolutionX_def collisionResolution_def pe
    by (simp add: fold_collisionParticleX_refines)
  show "fst (frameBodyX n tp sc negZero rayOrigin rayDirection rnd s (finiteState s)) =
     finiteState (fst (frameBody n tp sc rayOrigin rayDirection rnd s))"
    by (simp add: frameBodyX_def frameBody_def Let_def split_beta hit loop coll)
  show "snd (snd (frameBodyX n tp sc negZero rayOrigin rayDirection rnd s (finiteState s))) =
     snd (frameBody n tp sc rayOrigin rayDirection rnd s)"
    by (simp add: frameBodyX_def frameBody_def Let_def split_beta hit)
qed

lemma finiteArrays_finiteState: "finiteArrays (finiteState s)"
  by (simp add: finiteArrays_def finiteState_def)

lemma resolvePair_coincident:
  "resolvePair i j (pos (j * 3)) (pos (j * 3 + 1)) (pos (j * 3 + 2)) pos = pos"
  by (simp add: resolvePair_def Let_def)

text \<open>
  C10. On JavaScript numbers with their infinities and NaN (and without rounding):
  for a ray whose direction has a zero \<open>z\<close>, of either sign, the distance to the plane
  and the interaction point are not finite, the ray-sphere test fails (no intersection)
  and the pointer force on every particle is the zero vector (no force); a pair of
  particles at the same position is skipped by the collision resolver, which leaves the
  array as it is; and for every ray, parallel to the plane or not, the frame run on a
  state whose positions and velocities are finite ends with finite positions and
  velocities, those that the frame on the reals computes.
\<close>

theorem degenerate_geometry_stays_finite:
  "(snd (snd rayDirection) = 0 \<longrightarrow>
      \<not> sphereHitX sc (finVec rayOrigin)
           (fst (interactionPlaneX negZero (finVec rayOrigin) (finVec rayDirection)))
      \<and> pointerForceX shape mouseX
           (snd (interactionPlaneX negZero (finVec rayOrigin) (finVec rayDirection)))
           (Fin px) (Fin py) = (Fin 0, Fin 0, Fin 0))
   \<and> resolvePairX i j (Fin (pos (j * 3))) (Fin (pos (j * 3 + 1))) (Fin (pos (j * 3 + 2)))
        (\<lambda>k. Fin (pos k)) = (\<lambda>k. Fin (pos k))
   \<and> finiteArrays (fst (frameBodyX n tp sc negZero rayOrigin rayDirection rnd s (finiteState s)))
   \<and> fst (frameBodyX n tp sc negZero rayOrigin rayDirection rnd s (finiteState s)) =
       finiteState (fst (frameBody n tp sc rayOrigin rayDirection rnd s))"
proof (intro conjI impI)
  assume z: "snd (snd rayDirection) = 0"
  obtain ox oy oz where o: "rayOrigin = (ox, oy, oz)" by (cases rayOrigin)
  obtain dx dy dz where d: "rayDirection = (dx, dy, dz)" by (cases rayDirection)
  from z d have dz: "dz = 0" by simp
  show "\<not> sphereHitX sc (finVec rayOrigin)
           (fst (interactionPlaneX negZero (finVec rayOrigin) (finVec rayDirection)))"
    unfolding o d dz finVec_def prod.case by (rule parallel_ray(1))
  show "pointerForceX shape mouseX
           (snd (interactionPlaneX negZero (finVec rayOrigin) (finVec rayDirection)))
           (Fin px) (Fin py) = (Fin 0, Fin 0, Fin 0)"
    unfolding o d dz finVec_def prod.case by (rule parallel_ray(2))
next
  show "resolvePairX i j (Fin (pos (j * 3))) (Fin (pos (j * 3 + 1))) (Fin (pos (j * 3 + 2)))
        (\<lambda>k. Fin (pos k)) = (\<lambda>k. Fin (pos k))"
    unfolding resolvePairX_finite resolvePair_coincident ..
next
  show "finiteArrays (fst (frameBodyX n tp sc negZero rayOrigin rayDirection rnd s (finiteState s)))"
    unfolding frameBodyX_refines(1) by (rule finiteArrays_finiteState)
next
  show "fst (frameBodyX n tp sc negZero rayOrigin rayDirection rnd s (finiteState s)) =
       finiteState (fst (frameBody n tp sc rayOrigin rayDirection rnd s))"
    by (rule frameBodyX_refines(1))
qed

theorem degenerate_geometry_stays_finite_witness:
  "interactionPlaneX False (finVec (0, 0, 45)) (finVec (1, 0, 0)) =
     ((NInf, NaN, NaN), (NInf, NaN, NaN))
   \<and> \<not> sphereHitX 1 (finVec (0, 0, 45))
         (fst (interactionPlaneX False (finVec (0, 0, 45)) (finVec (1, 0, 0))))
   \<and> pointerForceX ''heart'' 0 (snd (interactionPlaneX False (finVec (0, 0, 45)) (finVec (1, 0, 0))))
        (Fin 3) (Fin 4) = (Fin 0, Fin 0, Fin 0)
   \<and> finiteArrays (fst (frameBodyX PARTICLE_COUNT examplePositions 1 False (0, 0, 45) (1, 0, 0)
        (\<lambda>k. 0) exampleState (finiteState exampleState)))"
proof -
  have p: "interactionPlaneX False (finVec (0, 0, 45)) (finVec (1, 0, 0)) =
             ((NInf, NaN, NaN), (NInf, NaN, NaN))"
    by (simp add: interactionPlaneX_def finVec_def Let_def xsub_Fin)
  have z: "snd (snd (1::real, 0::real, 0::real)) = 0" by simp
  from degenerate_geometry_stays_finite[where rayDirection = "(1, 0, 0)" and rayOrigin = "(0, 0, 45)"
      and negZero = False and sc = 1 and shape = "''heart''" and mouseX = 0 and px = 3 and py = 4
      and n = PARTICLE_COUNT and tp = examplePositions and rnd = "\<lambda>k. 0" and s = exampleState] z p
  show ?thesis by blast
qed

end
